theory Spec2Isabelle
  imports Complex_Main
begin

section \<open>Elevation layers of rocky: data model\<close>

text \<open>
  This theory embeds \<^verbatim>\<open>src/rocky/ElevationLayer.cpp\<close>: the single-layer pipeline
  (\<^verbatim>\<open>createHeightfieldInKeyProfile\<close>), the cross-profile mosaic assembler
  (\<^verbatim>\<open>assembleHeightfield\<close>) and the multi-layer compositor
  (\<^verbatim>\<open>ElevationLayerVector::populateHeightfield\<close>).

  Height samples are C++ \<^verbatim>\<open>float\<close>s. The sample type is left polymorphic: the
  program's \<^verbatim>\<open>0.0f\<close>, \<^verbatim>\<open>+=\<close> and \<^verbatim>\<open><\<close> are the overloaded \<open>0\<close>, \<open>+\<close> and \<open><\<close>
  of the sample type, with no law assumed about them, and the remaining float helpers
  (\<^verbatim>\<open>NO_DATA_VALUE\<close>, \<^verbatim>\<open>std::isnan\<close>, \<^verbatim>\<open>equiv\<close>) are fields of the record
  \<open>Externals\<close> below. The comparisons \<^verbatim>\<open>== NO_DATA_VALUE\<close> of the program are HOL
  equalities with the sentinel.
\<close>

subsection \<open>Status and Result\<close>

text \<open>
  Modelled from the spec: \<^verbatim>\<open>Status\<close> and \<^verbatim>\<open>Result\<close> are declared outside the sources at
  hand. The failure codes are those of the spec's taxonomy. A \<^verbatim>\<open>Result<T>\<close> is either
  built from a failed status (its value is then a default-constructed \<open>T\<close>) or from a
  value (its status is then ok, as for the \<^emph>\<open>non-error INVALID result\<close>); messages are
  not modelled.
\<close>

datatype StatusCode =
  ResourceUnavailable | ServiceUnavailable | ConfigurationError | GeneralError

datatype 'v Result = Failed StatusCode | Ok 'v

definition status_ok :: "'v Result \<Rightarrow> bool" where
  "status_ok r = (case r of Failed _ \<Rightarrow> False | Ok _ \<Rightarrow> True)"

definition status_failed :: "'v Result \<Rightarrow> bool" where
  "status_failed r = (\<not> status_ok r)"

subsection \<open>Calls that do not return\<close>

text \<open>
  A call that dereferences a null pointer has no result: the outcome of a call is either
  the value that it returns or \<open>NullDereference\<close>. (C++ leaves the dereference undefined;
  on the usual platforms the program is stopped there.) A caller that meets
  \<open>NullDereference\<close> does not go on.
\<close>

datatype 'v Outcome = NullDereference | Returns 'v

subsection \<open>Profiles, tile keys, extents\<close>

text \<open>
  Modelled from the spec: a \<^verbatim>\<open>Profile\<close> is a tiling scheme, compared by \<^verbatim>\<open>==\<close>, or the
  invalid (default-constructed) profile; a \<^verbatim>\<open>TileKey\<close> is \<^emph>\<open>(level, tileX, tileY,
  Profile)\<close>, compared field by field, and is valid when its profile is.
\<close>

datatype Profile = InvalidProfile | TilingScheme nat

definition profile_valid :: "Profile \<Rightarrow> bool" where
  "profile_valid p = (p \<noteq> InvalidProfile)"

record TileKey =
  levelOfDetail :: nat
  tileX :: nat
  tileY :: nat
  profile :: Profile

definition key_valid :: "TileKey \<Rightarrow> bool" where
  "key_valid k = profile_valid (profile k)"

text \<open>
  Modelled from the spec: \<^verbatim>\<open>TileKey::makeParent\<close> is declared outside the sources at hand.
  The spec gives \<^emph>\<open>makeParent() strictly decreases level\<close> for valid keys and bounds the
  parent walk \<^emph>\<open>by tile-key level reaching 0\<close>, after which the walk meets an invalid key:
  the parent of a level-0 key is the invalid key, any other parent is one level up with
  halved tile coordinates.
\<close>

definition makeParent :: "TileKey \<Rightarrow> TileKey" where
  "makeParent k =
     (if levelOfDetail k = 0 then k\<lparr>profile := InvalidProfile\<rparr>
      else k\<lparr>levelOfDetail := levelOfDetail k - 1, tileX := tileX k div 2, tileY := tileY k div 2\<rparr>)"

text \<open>
  Modelled from the spec: a \<^verbatim>\<open>GeoExtent\<close> is kept symbolic, as the extent of the tile key
  it was taken from; the extent of an invalid key is invalid.
\<close>

datatype GeoExtent = InvalidExtent | ExtentOf nat nat nat Profile

definition key_extent :: "TileKey \<Rightarrow> GeoExtent" where
  "key_extent k =
     (if key_valid k then ExtentOf (levelOfDetail k) (tileX k) (tileY k) (profile k)
      else InvalidExtent)"

subsection \<open>Rasters\<close>

text \<open>
  Modelled from the spec: a \<^verbatim>\<open>Heightfield\<close> is \<^emph>\<open>a 2-D grid of fixed width x height\<close>
  single-channel float samples owning its pixel buffer; the buffer is row-major, so that
  \<^verbatim>\<open>heightAt(c, r)\<close> is slot \<open>r * width + c\<close>. A null \<^verbatim>\<open>shared_ptr<Heightfield>\<close> is \<open>None\<close>.
\<close>

record 'a Heightfield =
  width :: nat
  height :: nat
  data :: "'a list"

definition heightAtCell :: "'a Heightfield \<Rightarrow> nat \<Rightarrow> nat \<Rightarrow> 'a" where
  "heightAtCell hf c r = data hf ! (r * width hf + c)"

definition writeCell :: "'a Heightfield \<Rightarrow> nat \<Rightarrow> nat \<Rightarrow> 'a \<Rightarrow> 'a Heightfield" where
  "writeCell hf c r v = hf\<lparr>data := (data hf)[r * width hf + c := v]\<rparr>"

text \<open>
  Modelled from the spec: a \<^verbatim>\<open>GeoHeightfield\<close> \<^emph>\<open>pairs a Raster with the GeoExtent it
  covers\<close>; it is valid when it holds a raster and its extent is valid.
  \<^verbatim>\<open>GeoHeightfield::INVALID\<close> and a default-constructed one hold neither.
\<close>

record 'a GeoHeightfield =
  heightfield :: "'a Heightfield option"
  extent :: GeoExtent

definition GeoHeightfield_INVALID :: "'a GeoHeightfield" where
  "GeoHeightfield_INVALID = \<lparr>heightfield = None, extent = InvalidExtent\<rparr>"

definition gh_valid :: "'a GeoHeightfield \<Rightarrow> bool" where
  "gh_valid g = (heightfield g \<noteq> None \<and> extent g \<noteq> InvalidExtent)"

definition result_value :: "'a GeoHeightfield Result \<Rightarrow> 'a GeoHeightfield" where
  "result_value r = (case r of Failed _ \<Rightarrow> GeoHeightfield_INVALID | Ok g \<Rightarrow> g)"

subsection \<open>Sample points and coordinate operations\<close>

record 'a dvec3 =
  px :: real
  py :: real
  pz :: 'a

text \<open>
  An \<^verbatim>\<open>SRSOperation\<close>: \<open>None\<close> when \<^verbatim>\<open>valid()\<close> is false, else the forward and the
  inverse transform of one point.
\<close>

type_synonym 'a SRSOperation = "(('a dvec3 \<Rightarrow> 'a dvec3) \<times> ('a dvec3 \<Rightarrow> 'a dvec3)) option"

subsection \<open>What the sources at hand use but do not define\<close>

text \<open>
  The float helpers, the tile-key geometry and the samplers are taken as parameters:
  \<^item> \<open>NO_DATA_VALUE\<close>, \<open>isnan\<close> (\<^verbatim>\<open>std::isnan\<close>), \<open>equiv\<close> (the tolerance comparison);
  \<^item> \<open>mapResolution k target source\<close> is \<^verbatim>\<open>k.mapResolution(target, source)\<close>;
  \<^item> \<open>getIntersectingKeys k p\<close> is the list filled by \<^verbatim>\<open>k.getIntersectingKeys(p, out)\<close>;
  \<^item> \<open>resolution\<close> is the key that \<^verbatim>\<open>GeoHeightfield::SortByResolutionFunctor\<close> orders by
    (smaller is finer);
  \<^item> \<open>srs_to k g\<close> is \<^verbatim>\<open>k.extent().srs().to(g.srs())\<close>;
  \<^item> \<open>gridPoint k cols rows c r\<close> is the pair \<^verbatim>\<open>(x, y)\<close> that the assembler computes in
    double arithmetic for cell \<open>(c, r)\<close> from the bounds of \<^verbatim>\<open>k.extent()\<close>;
  \<^item> \<open>heightAtLocation g x y\<close> is \<^verbatim>\<open>g.heightAtLocation(x, y, Image::BILINEAR)\<close>;
  \<^item> \<open>heightAt key keyToUse (numColumns, numRows) interpolation g c r\<close> is what the
    compositor samples for cell \<open>(c, r)\<close>:
    \<^verbatim>\<open>g.heightAt(xmin + dx * c, ymin + dy * r, keySRS, interpolation)\<close>, where
    \<^verbatim>\<open>xmin, ymin, dx, dy\<close> come from \<^verbatim>\<open>key.extent()\<close> and the grid size in double
    arithmetic and \<^verbatim>\<open>keySRS\<close> from \<^verbatim>\<open>keyToUse\<close>;
  \<^item> \<open>uninitialized\<close> is the content of freshly reserved vector storage.
\<close>

datatype Interpolation = NEAREST | BILINEAR

record 'a Externals =
  NO_DATA_VALUE :: 'a
  isnan :: "'a \<Rightarrow> bool"
  equiv :: "'a \<Rightarrow> 'a \<Rightarrow> bool"
  mapResolution :: "TileKey \<Rightarrow> nat \<Rightarrow> nat \<Rightarrow> TileKey"
  getIntersectingKeys :: "TileKey \<Rightarrow> Profile \<Rightarrow> TileKey list"
  resolution :: "'a GeoHeightfield \<Rightarrow> real"
  srs_to :: "TileKey \<Rightarrow> 'a GeoHeightfield \<Rightarrow> 'a SRSOperation"
  gridPoint :: "TileKey \<Rightarrow> nat \<Rightarrow> nat \<Rightarrow> nat \<Rightarrow> nat \<Rightarrow> real \<times> real"
  heightAtLocation :: "'a GeoHeightfield \<Rightarrow> real \<Rightarrow> real \<Rightarrow> 'a"
  heightAt :: "TileKey \<Rightarrow> TileKey \<Rightarrow> nat \<times> nat \<Rightarrow> Interpolation \<Rightarrow> 'a GeoHeightfield \<Rightarrow> nat \<Rightarrow> nat \<Rightarrow> 'a"
  uninitialized :: "nat \<Rightarrow> 'a dvec3"

subsection \<open>Layers\<close>

text \<open>
  An elevation layer as the functions of this file see it: its open flag, profile and
  options, the inherited tile-layer queries, and the driver
  \<^verbatim>\<open>createHeightfieldImplementation\<close>, a function of the key.
\<close>

record 'a ElevationLayer =
  isOpen :: bool
  layerProfile :: Profile
  offset :: bool
  minLevel :: nat
  tileSize :: nat
  noDataValue :: 'a
  minValidValue :: 'a
  maxValidValue :: 'a
  isKeyInLegalRange :: "TileKey \<Rightarrow> bool"
  bestAvailableTileKey :: "TileKey \<Rightarrow> TileKey"
  createHeightfieldImplementation :: "TileKey \<Rightarrow> 'a GeoHeightfield Result"

section \<open>The single-layer pipeline\<close>

subsection \<open>validateHeightfield\<close>

definition validateHeightfield :: "'a Heightfield option \<Rightarrow> bool" where
  "validateHeightfield p =
     (case p of
        None \<Rightarrow> False
      | Some hf \<Rightarrow>
          if height hf < 1 \<or> height hf > 1024 then False
          else if width hf < 1 \<or> width hf > 1024 then False
          else True)"

subsection \<open>normalizeNoDataValues\<close>

definition isNoData :: "('a::ord) Externals \<Rightarrow> 'a ElevationLayer \<Rightarrow> 'a \<Rightarrow> bool" where
  "isNoData E L h =
     (isnan E h \<or> equiv E h (noDataValue L) \<or> h < minValidValue L \<or> h > maxValidValue L)"

text \<open>
  The loop walks \<^verbatim>\<open>pixel\<close> over the first \<^verbatim>\<open>width * height\<close> floats of the buffer; the
  count is an \<^verbatim>\<open>unsigned\<close> product. The walk is the traversal of the buffer with the
  number of pixels still to visit.
\<close>

fun normalizePixels :: "('a::ord) Externals \<Rightarrow> 'a ElevationLayer \<Rightarrow> nat \<Rightarrow> 'a list \<Rightarrow> 'a list" where
  "normalizePixels E L 0 pixels = pixels"
| "normalizePixels E L (Suc n) [] = []"
| "normalizePixels E L (Suc n) (h # pixels) =
     (if isNoData E L h then NO_DATA_VALUE E else h) # normalizePixels E L n pixels"

definition normalizeNoDataValues ::
  "('a::ord) Externals \<Rightarrow> 'a ElevationLayer \<Rightarrow> 'a Heightfield option \<Rightarrow> 'a Heightfield option" where
  "normalizeNoDataValues E L p =
     (case p of
        None \<Rightarrow> None
      | Some hf \<Rightarrow>
          Some (hf\<lparr>data := normalizePixels E L ((width hf * height hf) mod 2 ^ 32) (data hf)\<rparr>))"

section \<open>The cross-profile mosaic assembler\<close>

text \<open>
  \<^verbatim>\<open>io.canceled()\<close> is read as one flag for the duration of a call: the argument
  \<open>canceled\<close> of the functions below. The shared lock and the debug log of
  \<^verbatim>\<open>createHeightfieldImplementation_internal\<close> leave its result untouched.
\<close>

definition createHeightfieldImplementation_internal ::
  "'a ElevationLayer \<Rightarrow> TileKey \<Rightarrow> 'a GeoHeightfield Result" where
  "createHeightfieldImplementation_internal L key = createHeightfieldImplementation L key"

text \<open>
  The parent walk of one intersecting key (the \<^verbatim>\<open>while\<close> loop over \<^verbatim>\<open>subKey\<close> and
  \<^verbatim>\<open>subTile\<close>). \<open>None\<close> is the \<^verbatim>\<open>return {}\<close> on cancellation. A default-constructed
  \<^verbatim>\<open>Result\<close>, with which the walk starts, is not ok.
\<close>

function assembleWalk ::
  "'a ElevationLayer \<Rightarrow> bool \<Rightarrow> TileKey \<Rightarrow> 'a GeoHeightfield Result
     \<Rightarrow> (TileKey \<times> 'a GeoHeightfield Result) option" where
  "assembleWalk L canceled subKey subTile =
     (if key_valid subKey \<and> \<not> status_ok subTile then
        (let subTile' = createHeightfieldImplementation_internal L subKey;
             subKey' = (if status_failed subTile' then makeParent subKey else subKey)
         in if canceled then None else assembleWalk L canceled subKey' subTile')
      else Some (subKey, subTile))"
  by pat_completeness auto
termination
  by (relation "measure (\<lambda>(L, canceled, subKey, subTile).
        if key_valid subKey \<and> \<not> status_ok subTile then Suc (levelOfDetail subKey) else 0)")
     (auto simp: makeParent_def key_valid_def profile_valid_def status_failed_def)

declare assembleWalk.simps [simp del]

text \<open>
  The same loop with nothing assumed about its termination: not returning is \<open>None\<close>,
  returning \<open>v\<close> is \<open>Some v\<close>.
\<close>

partial_function (option) assembleWalk_loop ::
  "'a ElevationLayer \<Rightarrow> bool \<Rightarrow> TileKey \<Rightarrow> 'a GeoHeightfield Result
     \<Rightarrow> (TileKey \<times> 'a GeoHeightfield Result) option option" where
  "assembleWalk_loop L canceled subKey subTile =
     (if key_valid subKey \<and> \<not> status_ok subTile then
        (let subTile' = createHeightfieldImplementation_internal L subKey;
             subKey' = (if status_failed subTile' then makeParent subKey else subKey)
         in if canceled then Some None else assembleWalk_loop L canceled subKey' subTile')
      else Some (Some (subKey, subTile)))"

text \<open>
  The loop over the intersecting keys, with \<^verbatim>\<open>hasAtLeastOneSourceAtTargetLOD\<close> and
  \<^verbatim>\<open>sources\<close> as its state; \<open>None\<close> is again the early \<^verbatim>\<open>return {}\<close>.
\<close>

fun collectSources ::
  "'a ElevationLayer \<Rightarrow> bool \<Rightarrow> nat \<Rightarrow> TileKey list \<Rightarrow> bool \<times> 'a GeoHeightfield list
     \<Rightarrow> (bool \<times> 'a GeoHeightfield list) option" where
  "collectSources L canceled targetLOD [] st = Some st"
| "collectSources L canceled targetLOD (intersectingKey # keys) (hasAtLeastOneSourceAtTargetLOD, sources) =
     (case assembleWalk L canceled intersectingKey (Failed ResourceUnavailable) of
        None \<Rightarrow> None
      | Some (subKey, subTile) \<Rightarrow>
          if status_ok subTile then
            collectSources L canceled targetLOD keys
              (hasAtLeastOneSourceAtTargetLOD \<or> levelOfDetail subKey = targetLOD,
               sources @ [result_value subTile])
          else collectSources L canceled targetLOD keys (hasAtLeastOneSourceAtTargetLOD, sources))"

text \<open>
  The working set \<^verbatim>\<open>std::vector<glm::dvec3> points\<close>. The program calls
  \<^verbatim>\<open>points.reserve(cols * rows)\<close>, which allocates storage and leaves \<^verbatim>\<open>size()\<close> at 0,
  and then stores through \<^verbatim>\<open>points[r * cols + c]\<close>. The vector is therefore its storage,
  a function from slots to points, together with its size: \<^verbatim>\<open>operator[]\<close> reads and
  writes the storage whatever the size is, while the range-based \<^verbatim>\<open>for\<close> and
  \<^verbatim>\<open>points.size()\<close> see the first \<open>vsize\<close> slots only. (The C++ standard leaves
  indexing past \<^verbatim>\<open>size()\<close> undefined; this is what the usual library implementations
  do with it. Every slot that is read was stored before, so that the initial content
  of the storage does not show.)
\<close>

record 'a PointVector =
  storage :: "nat \<Rightarrow> 'a dvec3"
  vsize :: nat

definition reserve :: "'a Externals \<Rightarrow> nat \<Rightarrow> 'a PointVector" where
  "reserve E n = \<lparr>storage = uninitialized E, vsize = 0\<rparr>"

definition storeAt :: "'a PointVector \<Rightarrow> nat \<Rightarrow> 'a dvec3 \<Rightarrow> 'a PointVector" where
  "storeAt v i p = v\<lparr>storage := (storage v)(i := p)\<rparr>"

definition forEachPoint :: "('a dvec3 \<Rightarrow> 'a dvec3) \<Rightarrow> 'a PointVector \<Rightarrow> 'a PointVector" where
  "forEachPoint f v = v\<lparr>storage := (\<lambda>i. if i < vsize v then f (storage v i) else storage v i)\<rparr>"

definition u32mul :: "nat \<Rightarrow> nat \<Rightarrow> nat" where
  "u32mul a b = (a * b) mod 2 ^ 32"

definition u32add :: "nat \<Rightarrow> nat \<Rightarrow> nat" where
  "u32add a b = (a + b) mod 2 ^ 32"

text \<open>The grid of sample points, row by row.\<close>

definition buildGrid :: "'a Externals \<Rightarrow> TileKey \<Rightarrow> nat \<Rightarrow> nat \<Rightarrow> 'a PointVector \<Rightarrow> 'a PointVector" where
  "buildGrid E key cols rows points =
     fold (\<lambda>r v. fold (\<lambda>c v.
             storeAt v (u32add (u32mul r cols) c)
               \<lparr>px = fst (gridPoint E key cols rows c r),
                py = snd (gridPoint E key cols rows c r),
                pz = NO_DATA_VALUE E\<rparr>) [0..<cols] v) [0..<rows] points"

text \<open>
  The inner sampling loop of one point:
  \<^verbatim>\<open>for (i = 0; point.z == NO_DATA_VALUE && i < sources.size(); ++i)\<close>.
\<close>

fun samplePoint :: "'a Externals \<Rightarrow> 'a GeoHeightfield list \<Rightarrow> 'a dvec3 \<Rightarrow> 'a dvec3" where
  "samplePoint E [] point = point"
| "samplePoint E (source # sources) point =
     (if pz point = NO_DATA_VALUE E
      then samplePoint E sources (point\<lparr>pz := heightAtLocation E source (px point) (py point)\<rparr>)
      else point)"

text \<open>
  The loop that sizes the output,
  \<^verbatim>\<open>cols = std::max(cols, source.heightfield()->width())\<close> and the same for the rows, on
  the state \<open>(cols, rows)\<close>. The walk above collects a tile on \<^verbatim>\<open>subTile.status.ok()\<close>
  alone, and an ok tile may carry a null raster; this loop dereferences it.
\<close>

fun outputSize :: "'a GeoHeightfield list \<Rightarrow> nat \<times> nat \<Rightarrow> (nat \<times> nat) Outcome" where
  "outputSize [] (cols, rows) = Returns (cols, rows)"
| "outputSize (source # sources) (cols, rows) =
     (case heightfield source of
        None \<Rightarrow> NullDereference
      | Some hf \<Rightarrow> outputSize sources (max cols (width hf), max rows (height hf)))"

text \<open>
  The mosaic of the collected sources (the body of
  \<^verbatim>\<open>if (hasAtLeastOneSourceAtTargetLOD)\<close>). The output size is the maximum of the source
  sizes; the transform is taken towards the first collected source, before the sort;
  \<^verbatim>\<open>std::sort\<close> with the resolution functor is the sort by the key \<open>resolution\<close>. The
  dependency list and the cleanup closure of the mosaic hold no samples and are left out.
  The list of sources is never empty here, since one of them set the flag.
\<close>

definition buildMosaic ::
  "'a Externals \<Rightarrow> TileKey \<Rightarrow> 'a GeoHeightfield list \<Rightarrow> 'a Heightfield Outcome" where
  "buildMosaic E key sources =
     (case outputSize sources (0, 0) of
        NullDereference \<Rightarrow> NullDereference
      | Returns (cols, rows) \<Rightarrow>
          (let xform = (case sources of [] \<Rightarrow> None | first # _ \<Rightarrow> srs_to E key first);
               sorted = sort_key (resolution E) sources;
               points0 = reserve E (u32mul cols rows);
               points1 = buildGrid E key cols rows points0;
               points2 = (case xform of None \<Rightarrow> points1
                          | Some (forward, backward) \<Rightarrow> forEachPoint forward points1);
               points3 = forEachPoint (samplePoint E sorted) points2;
               points4 = (case xform of None \<Rightarrow> points3
                          | Some (forward, backward) \<Rightarrow> forEachPoint backward points3)
           in Returns
                \<lparr>width = cols, height = rows,
                 data = concat (map (\<lambda>r. map (\<lambda>c. pz (storage points4 (u32add (u32mul r cols) c)))
                                            [0..<cols]) [0..<rows])\<rparr>))"

text \<open>
  \<^verbatim>\<open>assembleHeightfield\<close>: the returned pointer is \<open>None\<close> when it is null. The final
  \<^verbatim>\<open>if (io.canceled()) output = nullptr\<close> is reached with or without a mosaic.
\<close>

definition assembleHeightfield ::
  "'a Externals \<Rightarrow> 'a ElevationLayer \<Rightarrow> TileKey \<Rightarrow> bool \<Rightarrow> 'a Heightfield option Outcome" where
  "assembleHeightfield E L key canceled =
     (let targetLOD = levelOfDetail key;
          intersectingKeys = getIntersectingKeys E key (layerProfile L)
      in if intersectingKeys \<noteq> [] then
           (case collectSources L canceled targetLOD intersectingKeys (False, []) of
              None \<Rightarrow> Returns None
            | Some (hasAtLeastOneSourceAtTargetLOD, sources) \<Rightarrow>
                if hasAtLeastOneSourceAtTargetLOD then
                  (case buildMosaic E key sources of
                     NullDereference \<Rightarrow> NullDereference
                   | Returns mosaic \<Rightarrow> Returns (if canceled then None else Some mosaic))
                else Returns None)
         else Returns None)"

subsection \<open>createHeightfieldInKeyProfile and createHeightfield\<close>

text \<open>
  The acquisition of the raster (\<open>acquire\<close>) is the branch on
  \<^verbatim>\<open>key.profile() == my_profile\<close>: the driver for a key of the layer's own profile, the
  mosaic assembler otherwise. A failed driver result leaves the pipeline as it is
  (\<^verbatim>\<open>if (r.status.failed()) return r;\<close>). The pipeline returns at seven places; they are
  kept in the order of the source. \<^verbatim>\<open>Result(GeoHeightfield::INVALID)\<close> is the ok result
  that carries the invalid raster. When the assembler does not return, neither does the
  pipeline.
\<close>

definition acquire ::
  "('a::ord) Externals \<Rightarrow> 'a ElevationLayer \<Rightarrow> TileKey \<Rightarrow> bool
     \<Rightarrow> 'a GeoHeightfield Result Outcome" where
  "acquire E L key canceled =
     (if profile key = layerProfile L then Returns (createHeightfieldImplementation_internal L key)
      else
        (case assembleHeightfield E L key canceled of
           NullDereference \<Rightarrow> NullDereference
         | Returns hf \<Rightarrow> Returns (Ok \<lparr>heightfield = hf, extent = key_extent key\<rparr>)))"

definition createHeightfieldInKeyProfile ::
  "('a::ord) Externals \<Rightarrow> 'a ElevationLayer \<Rightarrow> TileKey \<Rightarrow> bool
     \<Rightarrow> 'a GeoHeightfield Result Outcome" where
  "createHeightfieldInKeyProfile E L key canceled =
     (if \<not> profile_valid (layerProfile L) \<or> \<not> isOpen L then Returns (Failed ResourceUnavailable)
      else if \<not> isKeyInLegalRange L key then Returns (Ok GeoHeightfield_INVALID)
      else
        (case acquire E L key canceled of
           NullDereference \<Rightarrow> NullDereference
         | Returns (Failed code) \<Rightarrow> Returns (Failed code)
         | Returns (Ok result) \<Rightarrow>
             if canceled then Returns (Ok GeoHeightfield_INVALID)
             else
               (let hf = heightfield result
                in if hf \<noteq> None \<and> \<not> validateHeightfield hf then Returns (Failed GeneralError)
                   else
                     (let hf' = normalizeNoDataValues E L hf
                      in if hf' = None then Returns (Ok GeoHeightfield_INVALID)
                         else Returns (Ok \<lparr>heightfield = hf', extent = key_extent key\<rparr>)))))"

definition createHeightfield ::
  "('a::ord) Externals \<Rightarrow> 'a ElevationLayer \<Rightarrow> TileKey \<Rightarrow> bool
     \<Rightarrow> 'a GeoHeightfield Result Outcome" where
  "createHeightfield E L key canceled =
     (if \<not> isOpen L then Returns (Ok GeoHeightfield_INVALID)
      else createHeightfieldInKeyProfile E L key canceled)"

section \<open>The multi-layer compositor\<close>

subsection \<open>resolveInvalidHeights\<close>

text \<open>
  The geoid, when there is one, is the function giving \<^verbatim>\<open>geoid->getHeight(lat, lon)\<close> for
  the latitude and longitude that the loop computes for cell \<open>(c, r)\<close>.
\<close>

definition resolveInvalidHeights ::
  "('a::zero) Heightfield option \<Rightarrow> 'a \<Rightarrow> (nat \<Rightarrow> nat \<Rightarrow> 'a) option \<Rightarrow> 'a Heightfield option" where
  "resolveInvalidHeights grid invalidValue geoid =
     (case grid of
        None \<Rightarrow> None
      | Some g \<Rightarrow>
          (case geoid of
             Some getHeight \<Rightarrow>
               Some (fold (\<lambda>r g. fold (\<lambda>c g.
                       if heightAtCell g c r = invalidValue then writeCell g c r (getHeight c r) else g)
                     [0..<width g] g) [0..<height g] g)
           | None \<Rightarrow>
               Some (g\<lparr>data := map (\<lambda>height. if height = invalidValue then 0 else height) (data g)\<rparr>)))"

subsection \<open>Collecting the layers of a tile\<close>

record 'a LayerData =
  ld_layer :: "'a ElevationLayer"
  ld_key :: TileKey
  ld_isFallback :: bool
  ld_index :: nat

text \<open>
  The body of the loop over the layer stack for layer \<open>i\<close>, on the state
  \<open>(contenders, offsets, numFallbackLayers)\<close>.
\<close>

definition classifyLayer ::
  "'a Externals \<Rightarrow> 'a ElevationLayer \<Rightarrow> nat \<Rightarrow> nat \<Rightarrow> TileKey \<Rightarrow> TileKey
     \<Rightarrow> 'a LayerData list \<times> 'a LayerData list \<times> nat
     \<Rightarrow> 'a LayerData list \<times> 'a LayerData list \<times> nat" where
  "classifyLayer E layer i hfWidth key keyToUse st =
     (case st of (contenders, offsets, numFallbackLayers) \<Rightarrow>
        if isOpen layer then
          (let mappedKey = mapResolution E keyToUse hfWidth (tileSize layer)
           in if levelOfDetail key < minLevel layer then st
              else
                (let bestKey = bestAvailableTileKey layer mappedKey
                 in if key_valid bestKey then
                      (let numFallbackLayers' =
                             (if mappedKey \<noteq> bestKey then numFallbackLayers + 1 else numFallbackLayers);
                           ld = \<lparr>ld_layer = layer, ld_key = bestKey,
                                 ld_isFallback = (bestKey \<noteq> mappedKey), ld_index = i\<rparr>
                       in if offset layer then (contenders, offsets @ [ld], numFallbackLayers')
                          else (contenders @ [ld], offsets, numFallbackLayers'))
                    else st))
        else st)"

text \<open>
  \<^verbatim>\<open>for (i = (int)size()-1; i >= 0; --i)\<close>: the argument counts the layers still to
  visit, so that \<open>Suc i\<close> visits layer \<open>i\<close> next.
\<close>

fun collectLayers ::
  "'a Externals \<Rightarrow> 'a ElevationLayer list \<Rightarrow> nat \<Rightarrow> TileKey \<Rightarrow> TileKey \<Rightarrow> nat
     \<Rightarrow> 'a LayerData list \<times> 'a LayerData list \<times> nat
     \<Rightarrow> 'a LayerData list \<times> 'a LayerData list \<times> nat" where
  "collectLayers E layers hfWidth key keyToUse 0 st = st"
| "collectLayers E layers hfWidth key keyToUse (Suc i) st =
     collectLayers E layers hfWidth key keyToUse i
       (classifyLayer E (layers ! i) i hfWidth key keyToUse st)"

subsection \<open>The state of the resampling loop\<close>

text \<open>
  The target raster \<^verbatim>\<open>*hf\<close>, the local vectors of the resampling branch and
  \<^verbatim>\<open>realData\<close>. The counter \<^verbatim>\<open>nodataCount\<close> is never read and is left out; so is the
  per-cell \<^verbatim>\<open>resolution\<close>, which only feeds the optional output \<^verbatim>\<open>resolutions\<close>: the
  model is that of a call with \<^verbatim>\<open>resolutions == nullptr\<close>.
\<close>

record 'a SampleState =
  target :: "'a Heightfield"
  heightfields :: "'a GeoHeightfield list"
  heightfieldActualKeys :: "TileKey list"
  offsetfields :: "'a GeoHeightfield list"
  heightFallback :: "bool list"
  heightFailed :: "bool list"
  offsetFailed :: "bool list"
  numHeightfieldsInCache :: nat
  realData :: bool

definition initialState ::
  "'a Heightfield \<Rightarrow> 'a LayerData list \<Rightarrow> 'a LayerData list \<Rightarrow> bool \<Rightarrow> 'a SampleState" where
  "initialState hf contenders offsets rd =
     \<lparr>target = hf,
      heightfields = replicate (length contenders) GeoHeightfield_INVALID,
      heightfieldActualKeys = map ld_key contenders,
      offsetfields = replicate (length offsets) GeoHeightfield_INVALID,
      heightFallback = replicate (length contenders) False,
      heightFailed = replicate (length contenders) False,
      offsetFailed = replicate (length offsets) False,
      numHeightfieldsInCache = 0,
      realData = rd\<rparr>"

subsection \<open>The contenders of one cell\<close>

text \<open>
  The parent walk of a contender whose raster is not in the local cache. A fetch is a
  call of \<^verbatim>\<open>createHeightfield\<close>, which may run the mosaic assembler: when the fetch does
  not return, neither does the walk, and so for every caller below.
\<close>

function contenderWalk ::
  "('a::ord) Externals \<Rightarrow> 'a ElevationLayer \<Rightarrow> bool \<Rightarrow> 'a GeoHeightfield \<Rightarrow> TileKey
     \<Rightarrow> ('a GeoHeightfield \<times> TileKey) Outcome" where
  "contenderWalk E layer canceled layerHF actualKey =
     (if \<not> gh_valid layerHF \<and> key_valid actualKey \<and> isKeyInLegalRange layer actualKey then
        (case createHeightfield E layer actualKey canceled of
           NullDereference \<Rightarrow> NullDereference
         | Returns fetched \<Rightarrow>
             (let layerHF' = result_value fetched;
                  actualKey' = (if \<not> gh_valid layerHF' then makeParent actualKey else actualKey)
              in contenderWalk E layer canceled layerHF' actualKey'))
      else Returns (layerHF, actualKey))"
  by pat_completeness auto
termination
  by (relation "measure (\<lambda>(E, layer, canceled, layerHF, actualKey).
        if \<not> gh_valid layerHF \<and> key_valid actualKey \<and> isKeyInLegalRange layer actualKey
        then Suc (levelOfDetail actualKey) else 0)")
     (auto simp: makeParent_def key_valid_def profile_valid_def)

declare contenderWalk.simps [simp del]

text \<open>
  The same loop with nothing assumed about its termination: not ending is \<open>None\<close>, ending
  with the outcome \<open>v\<close> is \<open>Some v\<close>.
\<close>

partial_function (option) contenderWalk_loop ::
  "('a::ord) Externals \<Rightarrow> 'a ElevationLayer \<Rightarrow> bool \<Rightarrow> 'a GeoHeightfield \<Rightarrow> TileKey
     \<Rightarrow> ('a GeoHeightfield \<times> TileKey) Outcome option" where
  "contenderWalk_loop E layer canceled layerHF actualKey =
     (if \<not> gh_valid layerHF \<and> key_valid actualKey \<and> isKeyInLegalRange layer actualKey then
        (case createHeightfield E layer actualKey canceled of
           NullDereference \<Rightarrow> Some NullDereference
         | Returns fetched \<Rightarrow>
             (let layerHF' = result_value fetched;
                  actualKey' = (if \<not> gh_valid layerHF' then makeParent actualKey else actualKey)
              in contenderWalk_loop E layer canceled layerHF' actualKey'))
      else Some (Returns (layerHF, actualKey)))"

text \<open>
  Fetching the raster of contender \<open>i\<close> when the cache holds none: the result is the new
  state and whether the body goes on (\<open>False\<close> is the \<^verbatim>\<open>continue\<close> after
  \<^verbatim>\<open>heightFailed[i] = true\<close>).
\<close>

definition fetchContender ::
  "('a::ord) Externals \<Rightarrow> bool \<Rightarrow> 'a LayerData \<Rightarrow> nat \<Rightarrow> 'a SampleState
     \<Rightarrow> ('a SampleState \<times> bool) Outcome" where
  "fetchContender E canceled ld i st =
     (if \<not> gh_valid (heightfields st ! i) then
        (case contenderWalk E (ld_layer ld) canceled (heightfields st ! i) (heightfieldActualKeys st ! i) of
           NullDereference \<Rightarrow> NullDereference
         | Returns (layerHF, actualKey) \<Rightarrow>
             (let st1 = st\<lparr>heightfields := (heightfields st)[i := layerHF],
                           heightfieldActualKeys := (heightfieldActualKeys st)[i := actualKey]\<rparr>
              in if gh_valid layerHF then
                   Returns
                     (st1\<lparr>heightFallback :=
                            (heightFallback st1)[i := (ld_isFallback ld \<or> actualKey \<noteq> ld_key ld)],
                          numHeightfieldsInCache := numHeightfieldsInCache st1 + 1\<rparr>, True)
                 else Returns (st1\<lparr>heightFailed := (heightFailed st1)[i := True]\<rparr>, False)))
      else Returns (st, True))"

text \<open>Sampling contender \<open>i\<close> once its raster is at hand.\<close>

definition sampleContender ::
  "'a Externals \<Rightarrow> ('a GeoHeightfield \<Rightarrow> nat \<Rightarrow> nat \<Rightarrow> 'a) \<Rightarrow> nat \<Rightarrow> nat \<Rightarrow> 'a LayerData \<Rightarrow> nat
     \<Rightarrow> 'a SampleState \<Rightarrow> int \<Rightarrow> 'a SampleState \<times> int" where
  "sampleContender E sample c r ld i st resolvedIndex =
     (if gh_valid (heightfields st ! i) then
        (let isFallback = heightFallback st ! i;
             st1 = (if \<not> isFallback then st\<lparr>realData := True\<rparr> else st);
             elevation = sample (heightfields st ! i) c r
         in if elevation \<noteq> NO_DATA_VALUE E
            then (st1\<lparr>target := writeCell (target st1) c r elevation\<rparr>, int (ld_index ld))
            else (st1, resolvedIndex))
      else (st, resolvedIndex))"

text \<open>Emptying the local cache once it holds \<^verbatim>\<open>maxHeightfields\<close> = 50 rasters.\<close>

definition clearCache :: "'a SampleState \<Rightarrow> 'a SampleState" where
  "clearCache st =
     (if numHeightfieldsInCache st \<ge> 50 then
        st\<lparr>heightfields := map (\<lambda>_. GeoHeightfield_INVALID) (heightfields st),
           heightFallback := map (\<lambda>_. False) (heightFallback st),
           numHeightfieldsInCache := 0\<rparr>
      else st)"

definition contenderBody ::
  "('a::ord) Externals \<Rightarrow> ('a GeoHeightfield \<Rightarrow> nat \<Rightarrow> nat \<Rightarrow> 'a) \<Rightarrow> bool \<Rightarrow> nat \<Rightarrow> nat
     \<Rightarrow> 'a LayerData \<Rightarrow> nat \<Rightarrow> 'a SampleState \<Rightarrow> int \<Rightarrow> ('a SampleState \<times> int) Outcome" where
  "contenderBody E sample canceled c r ld i st resolvedIndex =
     (if heightFailed st ! i then Returns (st, resolvedIndex)
      else
        (case fetchContender E canceled ld i st of
           NullDereference \<Rightarrow> NullDereference
         | Returns (st1, goOn) \<Rightarrow>
             if \<not> goOn then Returns (st1, resolvedIndex)
             else
               (case sampleContender E sample c r ld i st1 resolvedIndex of
                  (st2, resolvedIndex') \<Rightarrow> Returns (clearCache st2, resolvedIndex'))))"

text \<open>
  \<^verbatim>\<open>for (int i = 0; i < contenders.size() && resolvedIndex < 0; ++i)\<close>: the list argument
  holds the contenders from position \<open>i\<close> on.
\<close>

fun contenderLoop ::
  "('a::ord) Externals \<Rightarrow> ('a GeoHeightfield \<Rightarrow> nat \<Rightarrow> nat \<Rightarrow> 'a) \<Rightarrow> bool \<Rightarrow> nat \<Rightarrow> nat
     \<Rightarrow> 'a LayerData list \<Rightarrow> nat \<Rightarrow> 'a SampleState \<Rightarrow> int \<Rightarrow> ('a SampleState \<times> int) Outcome" where
  "contenderLoop E sample canceled c r [] i st resolvedIndex = Returns (st, resolvedIndex)"
| "contenderLoop E sample canceled c r (ld # lds) i st resolvedIndex =
     (if resolvedIndex < 0 then
        (case contenderBody E sample canceled c r ld i st resolvedIndex of
           NullDereference \<Rightarrow> NullDereference
         | Returns (st', resolvedIndex') \<Rightarrow>
             contenderLoop E sample canceled c r lds (Suc i) st' resolvedIndex')
      else Returns (st, resolvedIndex))"

subsection \<open>The offsets of one cell\<close>

text \<open>
  The body of the offset loop for offset \<open>i\<close>, after its cancellation check. The three
  \<^verbatim>\<open>continue\<close>s leave the cell as it is.
\<close>

definition offsetBody ::
  "('a::{ord,zero,plus}) Externals \<Rightarrow> ('a GeoHeightfield \<Rightarrow> nat \<Rightarrow> nat \<Rightarrow> 'a) \<Rightarrow> bool \<Rightarrow> nat \<Rightarrow> nat
     \<Rightarrow> 'a LayerData list \<Rightarrow> nat \<Rightarrow> 'a SampleState \<Rightarrow> int \<Rightarrow> 'a SampleState Outcome" where
  "offsetBody E sample canceled c r offsets i st resolvedIndex =
     (if resolvedIndex \<ge> 0 \<and> int (ld_index (offsets ! i)) < resolvedIndex then Returns st
      else if offsetFailed st ! i then Returns st
      else
        (case (if \<not> gh_valid (offsetfields st ! i) then
                 (case createHeightfield E (ld_layer (offsets ! i)) (ld_key (offsets ! i)) canceled of
                    NullDereference \<Rightarrow> NullDereference
                  | Returns fetched \<Rightarrow>
                      (let layerHF = result_value fetched;
                           st' = st\<lparr>offsetfields := (offsetfields st)[i := layerHF]\<rparr>
                       in if \<not> gh_valid layerHF
                          then Returns (st'\<lparr>offsetFailed := (offsetFailed st')[i := True]\<rparr>, False)
                          else Returns (st', True)))
               else Returns (st, True)) of
           NullDereference \<Rightarrow> NullDereference
         | Returns (st1, goOn) \<Rightarrow>
             if \<not> goOn then Returns st1
             else
               (let st2 = st1\<lparr>realData := True\<rparr>;
                    elevation = sample (offsetfields st1 ! i) c r
                in if elevation \<noteq> NO_DATA_VALUE E \<and> \<not> equiv E elevation 0
                   then Returns
                          (st2\<lparr>target := writeCell (target st2) c r
                                            (heightAtCell (target st2) c r + elevation)\<rparr>)
                   else Returns st2)))"

text \<open>
  \<^verbatim>\<open>for (int i = (int)offsets.size() - 1; i >= 0; --i)\<close>, counting the offsets still to
  visit. The flag of the result tells that the loop left through
  \<^verbatim>\<open>if (io.canceled()) return false\<close>.
\<close>

fun offsetLoop ::
  "('a::{ord,zero,plus}) Externals \<Rightarrow> ('a GeoHeightfield \<Rightarrow> nat \<Rightarrow> nat \<Rightarrow> 'a) \<Rightarrow> bool \<Rightarrow> nat \<Rightarrow> nat
     \<Rightarrow> 'a LayerData list \<Rightarrow> nat \<Rightarrow> 'a SampleState \<Rightarrow> int \<Rightarrow> ('a SampleState \<times> bool) Outcome" where
  "offsetLoop E sample canceled c r offsets 0 st resolvedIndex = Returns (st, False)"
| "offsetLoop E sample canceled c r offsets (Suc i) st resolvedIndex =
     (if canceled then Returns (st, True)
      else
        (case offsetBody E sample canceled c r offsets i st resolvedIndex of
           NullDereference \<Rightarrow> NullDereference
         | Returns st' \<Rightarrow> offsetLoop E sample canceled c r offsets i st' resolvedIndex))"

subsection \<open>The loops over the cells\<close>

definition sampleCell ::
  "('a::{ord,zero,plus}) Externals \<Rightarrow> ('a GeoHeightfield \<Rightarrow> nat \<Rightarrow> nat \<Rightarrow> 'a) \<Rightarrow> bool
     \<Rightarrow> 'a LayerData list \<Rightarrow> 'a LayerData list \<Rightarrow> nat \<Rightarrow> nat \<Rightarrow> 'a SampleState
     \<Rightarrow> ('a SampleState \<times> bool) Outcome" where
  "sampleCell E sample canceled contenders offsets c r st =
     (case contenderLoop E sample canceled c r contenders 0 st (- 1) of
        NullDereference \<Rightarrow> NullDereference
      | Returns (st1, resolvedIndex) \<Rightarrow>
          offsetLoop E sample canceled c r offsets (length offsets) st1 resolvedIndex)"

text \<open>The rows \<open>rs\<close> of column \<open>c\<close>, in order.\<close>

fun rowLoop ::
  "('a::{ord,zero,plus}) Externals \<Rightarrow> ('a GeoHeightfield \<Rightarrow> nat \<Rightarrow> nat \<Rightarrow> 'a) \<Rightarrow> bool
     \<Rightarrow> 'a LayerData list \<Rightarrow> 'a LayerData list \<Rightarrow> nat \<Rightarrow> nat list \<Rightarrow> 'a SampleState
     \<Rightarrow> ('a SampleState \<times> bool) Outcome" where
  "rowLoop E sample canceled contenders offsets c [] st = Returns (st, False)"
| "rowLoop E sample canceled contenders offsets c (r # rs) st =
     (case sampleCell E sample canceled contenders offsets c r st of
        NullDereference \<Rightarrow> NullDereference
      | Returns (st', aborted) \<Rightarrow>
          if aborted then Returns (st', True)
          else rowLoop E sample canceled contenders offsets c rs st')"

text \<open>The columns \<open>cs\<close>, in order, each after the periodic cancellation check.\<close>

fun columnLoop ::
  "('a::{ord,zero,plus}) Externals \<Rightarrow> ('a GeoHeightfield \<Rightarrow> nat \<Rightarrow> nat \<Rightarrow> 'a) \<Rightarrow> bool
     \<Rightarrow> 'a LayerData list \<Rightarrow> 'a LayerData list \<Rightarrow> nat \<Rightarrow> nat list \<Rightarrow> 'a SampleState
     \<Rightarrow> ('a SampleState \<times> bool) Outcome" where
  "columnLoop E sample canceled contenders offsets numRows [] st = Returns (st, False)"
| "columnLoop E sample canceled contenders offsets numRows (c # cs) st =
     (if canceled then Returns (st, True)
      else
        (case rowLoop E sample canceled contenders offsets c [0..<numRows] st of
           NullDereference \<Rightarrow> NullDereference
         | Returns (st', aborted) \<Rightarrow>
             if aborted then Returns (st', True)
             else columnLoop E sample canceled contenders offsets numRows cs st'))"

text \<open>
  The resampling branch (\<^verbatim>\<open>if (requiresResample)\<close>) from the target raster \<open>hf\<close> and the
  value \<open>rd\<close> of \<^verbatim>\<open>realData\<close>.
\<close>

definition resample ::
  "('a::{ord,zero,plus}) Externals \<Rightarrow> ('a GeoHeightfield \<Rightarrow> nat \<Rightarrow> nat \<Rightarrow> 'a) \<Rightarrow> bool
     \<Rightarrow> 'a LayerData list \<Rightarrow> 'a LayerData list \<Rightarrow> 'a Heightfield \<Rightarrow> bool
     \<Rightarrow> ('a SampleState \<times> bool) Outcome" where
  "resample E sample canceled contenders offsets hf rd =
     columnLoop E sample canceled contenders offsets (height hf) [0..<width hf]
       (initialState hf contenders offsets rd)"

subsection \<open>The fast path\<close>

text \<open>
  The single-contender shortcut. The result is \<open>(requiresResample, *hf, realData)\<close>.
  \<^verbatim>\<open>memcpy\<close> copies \<^verbatim>\<open>hf->sizeInBytes()\<close> bytes, that is the first \<open>width * height\<close> samples
  of the source buffer, over the target buffer.
\<close>

definition fastPath ::
  "('a::ord) Externals \<Rightarrow> bool \<Rightarrow> 'a LayerData list \<Rightarrow> 'a LayerData list \<Rightarrow> 'a Heightfield
     \<Rightarrow> (bool \<times> 'a Heightfield \<times> bool) Outcome" where
  "fastPath E canceled contenders offsets hf =
     (if length contenders = 1 \<and> offsets = [] then
        (case createHeightfield E (ld_layer (contenders ! 0)) (ld_key (contenders ! 0)) canceled of
           NullDereference \<Rightarrow> NullDereference
         | Returns layerHF \<Rightarrow>
             if gh_valid (result_value layerHF) then
               (case heightfield (result_value layerHF) of
                  None \<Rightarrow> Returns (True, hf, False)
                | Some src \<Rightarrow>
                    if width src = width hf \<and> height src = height hf then
                      Returns
                        (False,
                         hf\<lparr>data := take (width hf * height hf) (data src)
                                     @ drop (width hf * height hf) (data hf)\<rparr>,
                         True)
                    else Returns (True, hf, False))
             else Returns (True, hf, False))
      else Returns (True, hf, False))"

subsection \<open>populateHeightfield\<close>

text \<open>
  The result of a call: the returned \<^verbatim>\<open>bool\<close>, the content of \<^verbatim>\<open>*hf\<close> when the function
  returns (\<open>None\<close> for a null \<^verbatim>\<open>hf\<close>), and the \<^verbatim>\<open>return\<close> statement that was taken.
\<close>

datatype PopulateExit =
  NullTarget | NothingUsable | EverythingFallback | CanceledWhileSampling | CanceledAtEnd | Completed

record 'a Populated =
  returned :: bool
  hfOut :: "'a Heightfield option"
  exitPoint :: PopulateExit

definition keyToUseFor :: "TileKey \<Rightarrow> Profile \<Rightarrow> TileKey" where
  "keyToUseFor key haeProfile =
     (if profile_valid haeProfile
      then \<lparr>levelOfDetail = levelOfDetail key, tileX = tileX key, tileY = tileY key, profile = haeProfile\<rparr>
      else key)"

definition usableLayers ::
  "'a Externals \<Rightarrow> 'a ElevationLayer list \<Rightarrow> 'a Heightfield \<Rightarrow> TileKey \<Rightarrow> Profile
     \<Rightarrow> 'a LayerData list \<times> 'a LayerData list \<times> nat" where
  "usableLayers E layers hf key haeProfile =
     collectLayers E layers (width hf) key (keyToUseFor key haeProfile) (length layers) ([], [], 0)"

text \<open>
  Sampling the layers into the target: the fast path, then the resampling branch when
  \<^verbatim>\<open>requiresResample\<close> is still set. The flag of the result tells that the function
  returned \<^verbatim>\<open>false\<close> on cancellation from inside the loops.
\<close>

definition sampleLayers ::
  "('a::{ord,zero,plus}) Externals \<Rightarrow> ('a GeoHeightfield \<Rightarrow> nat \<Rightarrow> nat \<Rightarrow> 'a) \<Rightarrow> bool
     \<Rightarrow> 'a LayerData list \<Rightarrow> 'a LayerData list \<Rightarrow> 'a Heightfield
     \<Rightarrow> ('a SampleState \<times> bool) Outcome" where
  "sampleLayers E sample canceled contenders offsets hf =
     (case fastPath E canceled contenders offsets hf of
        NullDereference \<Rightarrow> NullDereference
      | Returns (requiresResample, hf1, realData1) \<Rightarrow>
          if requiresResample then resample E sample canceled contenders offsets hf1 realData1
          else Returns (initialState hf1 contenders offsets realData1, False))"

definition populateHeightfield ::
  "('a::{ord,zero,plus}) Externals \<Rightarrow> 'a ElevationLayer list \<Rightarrow> 'a Heightfield option \<Rightarrow> TileKey
     \<Rightarrow> Profile \<Rightarrow> Interpolation \<Rightarrow> bool \<Rightarrow> 'a Populated Outcome" where
  "populateHeightfield E layers hfPtr key haeProfile interpolation canceled =
     (case hfPtr of
        None \<Rightarrow> Returns \<lparr>returned = False, hfOut = None, exitPoint = NullTarget\<rparr>
      | Some hf \<Rightarrow>
          (case usableLayers E layers hf key haeProfile of
             (contenders, offsets, numFallbackLayers) \<Rightarrow>
               if contenders = [] \<and> offsets = [] then
                 Returns \<lparr>returned = False, hfOut = Some hf, exitPoint = NothingUsable\<rparr>
               else if length contenders + length offsets = numFallbackLayers then
                 Returns \<lparr>returned = False, hfOut = Some hf, exitPoint = EverythingFallback\<rparr>
               else
                 (let sample = heightAt E key (keyToUseFor key haeProfile) (width hf, height hf)
                                 interpolation
                  in case sampleLayers E sample canceled contenders offsets hf of
                       NullDereference \<Rightarrow> NullDereference
                     | Returns (st, aborted) \<Rightarrow>
                         if aborted then
                           Returns \<lparr>returned = False, hfOut = Some (target st),
                                    exitPoint = CanceledWhileSampling\<rparr>
                         else
                           (let hf2 = resolveInvalidHeights (Some (target st)) (NO_DATA_VALUE E) None
                            in if canceled
                               then Returns \<lparr>returned = False, hfOut = hf2, exitPoint = CanceledAtEnd\<rparr>
                               else Returns \<lparr>returned = realData st, hfOut = hf2,
                                             exitPoint = Completed\<rparr>))))"

section \<open>Concrete instances\<close>

text \<open>
  Instances on which the theorems below are exercised. Samples are reals, the sentinel is
  \<open>- FLT_MAX\<close>, \<^verbatim>\<open>equiv\<close> is equality, keys map to themselves, a key intersects its
  namesake in the other profile, and the samplers read the stored sample of the cell.
\<close>

definition FLT_MAX :: real where
  "FLT_MAX = 340282346638528859811704183484516925440"

definition storedSample :: "real GeoHeightfield \<Rightarrow> nat \<Rightarrow> nat \<Rightarrow> real" where
  "storedSample g c r =
     (case heightfield g of
        None \<Rightarrow> - FLT_MAX
      | Some hf \<Rightarrow>
          if c < width hf \<and> r < height hf \<and> r * width hf + c < length (data hf)
          then heightAtCell hf c r else - FLT_MAX)"

definition plainExternals :: "real Externals" where
  "plainExternals =
     \<lparr>NO_DATA_VALUE = - FLT_MAX,
      isnan = (\<lambda>h. False),
      equiv = (\<lambda>a b. a = b),
      mapResolution = (\<lambda>k target source. k),
      getIntersectingKeys = (\<lambda>k p. [k\<lparr>profile := p\<rparr>]),
      resolution = (\<lambda>g. 1),
      srs_to = (\<lambda>k g. None),
      gridPoint = (\<lambda>k cols rows c r. (real c, real r)),
      heightAtLocation = (\<lambda>g x y. storedSample g (nat \<lfloor>x\<rfloor>) (nat \<lfloor>y\<rfloor>)),
      heightAt = (\<lambda>key keyToUse dims interpolation g c r. storedSample g c r),
      uninitialized = (\<lambda>i. \<lparr>px = 0, py = 0, pz = 0\<rparr>)\<rparr>"

definition tileAt :: "nat \<Rightarrow> nat \<Rightarrow> TileKey" where
  "tileAt lod scheme = \<lparr>levelOfDetail = lod, tileX = 0, tileY = 0, profile = TilingScheme scheme\<rparr>"

definition rasterOf :: "nat \<Rightarrow> nat \<Rightarrow> real list \<Rightarrow> real Heightfield" where
  "rasterOf w h samples = \<lparr>width = w, height = h, data = samples\<rparr>"

text \<open>
  An open layer in tiling scheme \<open>scheme\<close> whose driver answers every key with the
  raster \<open>hf\<close>.
\<close>

definition rasterLayer :: "nat \<Rightarrow> bool \<Rightarrow> real Heightfield \<Rightarrow> real ElevationLayer" where
  "rasterLayer scheme isOffset hf =
     \<lparr>isOpen = True, layerProfile = TilingScheme scheme, offset = isOffset, minLevel = 0,
      tileSize = 1, noDataValue = - FLT_MAX, minValidValue = - FLT_MAX, maxValidValue = FLT_MAX,
      isKeyInLegalRange = key_valid, bestAvailableTileKey = (\<lambda>k. k),
      createHeightfieldImplementation =
        (\<lambda>k. Ok \<lparr>heightfield = Some hf, extent = key_extent k\<rparr>)\<rparr>"

text \<open>The same layer with data at level 0 only: its driver fails above it.\<close>

definition coarseLayer :: "nat \<Rightarrow> real Heightfield \<Rightarrow> real ElevationLayer" where
  "coarseLayer scheme hf =
     (rasterLayer scheme False hf)
       \<lparr>createHeightfieldImplementation :=
          (\<lambda>k. if levelOfDetail k = 0 then Ok \<lparr>heightfield = Some hf, extent = key_extent k\<rparr>
                else Failed ResourceUnavailable)\<rparr>"

text \<open>A layer whose best available key is always the parent of the key asked for.\<close>

definition fallbackLayer :: "nat \<Rightarrow> real Heightfield \<Rightarrow> real ElevationLayer" where
  "fallbackLayer scheme hf = (rasterLayer scheme False hf)\<lparr>bestAvailableTileKey := makeParent\<rparr>"

text \<open>A layer whose driver cannot produce a tile and reports it as the GDAL driver does.\<close>

definition failingLayer :: "nat \<Rightarrow> real ElevationLayer" where
  "failingLayer scheme =
     (rasterLayer scheme False (rasterOf 1 1 [0]))
       \<lparr>createHeightfieldImplementation := (\<lambda>k. Failed ResourceUnavailable)\<rparr>"

text \<open>
  A layer whose driver answers every key with an ok tile that carries no raster, as a
  driver does that wraps the null result of a failed decoding.
\<close>

definition hollowLayer :: "nat \<Rightarrow> real ElevationLayer" where
  "hollowLayer scheme =
     (rasterLayer scheme False (rasterOf 1 1 [0]))
       \<lparr>createHeightfieldImplementation := (\<lambda>k. Ok \<lparr>heightfield = None, extent = key_extent k\<rparr>)\<rparr>"
section \<open>Notions used in the statements\<close>

text \<open>
  An intersecting key counts towards \<^verbatim>\<open>hasAtLeastOneSourceAtTargetLOD\<close> when its parent
  walk ends on an ok tile whose key is at the target level of detail.
\<close>

definition endsAtTargetLOD :: "'a ElevationLayer \<Rightarrow> bool \<Rightarrow> nat \<Rightarrow> TileKey \<Rightarrow> bool" where
  "endsAtTargetLOD L canceled targetLOD k =
     (case assembleWalk L canceled k (Failed ResourceUnavailable) of
        None \<Rightarrow> False
      | Some (subKey, subTile) \<Rightarrow> status_ok subTile \<and> levelOfDetail subKey = targetLOD)"

text \<open>
  The source that the parent walk of an intersecting key contributes to the mosaic: the
  value of the ok tile on which the walk ends, if it ends on one.
\<close>

definition collectedSource :: "'a ElevationLayer \<Rightarrow> bool \<Rightarrow> TileKey \<Rightarrow> 'a GeoHeightfield option" where
  "collectedSource L canceled k =
     (case assembleWalk L canceled k (Failed ResourceUnavailable) of
        None \<Rightarrow> None
      | Some (subKey, subTile) \<Rightarrow> if status_ok subTile then Some (result_value subTile) else None)"

text \<open>
  The bookkeeping of the loop over the layer stack: the counter of fallback layers counts
  the collected layers flagged as fallback, every collected layer carries the best
  available key of its mapped key, and its flag tells whether the two keys differ.
\<close>

definition layersAccountedFor ::
  "'a Externals \<Rightarrow> nat \<Rightarrow> TileKey \<Rightarrow> 'a LayerData list \<times> 'a LayerData list \<times> nat \<Rightarrow> bool" where
  "layersAccountedFor E hfWidth keyToUse st =
     (case st of (contenders, offsets, numFallbackLayers) \<Rightarrow>
        numFallbackLayers = length (filter ld_isFallback (contenders @ offsets)) \<and>
        list_all (\<lambda>ld. ld_key ld = bestAvailableTileKey (ld_layer ld)
                                    (mapResolution E keyToUse hfWidth (tileSize (ld_layer ld))) \<and>
                        ld_isFallback ld =
                          (ld_key ld \<noteq> mapResolution E keyToUse hfWidth (tileSize (ld_layer ld))))
          (contenders @ offsets))"

text \<open>
  A point vector of size 0 all of whose slots in \<open>W\<close> hold a point with
  \<open>z = NO_DATA_VALUE\<close>.
\<close>

definition stored :: "'a Externals \<Rightarrow> nat set \<Rightarrow> 'a PointVector \<Rightarrow> bool" where
  "stored E W v = (vsize v = 0 \<and> W \<subseteq> {i. pz (storage v i) = NO_DATA_VALUE E})"

text \<open>
  The raster that the compositor uses for a contender: the first valid raster that the
  parent walk from a key finds, if the walk returns and finds any.
\<close>

definition walkResult ::
  "('a::ord) Externals \<Rightarrow> 'a ElevationLayer \<Rightarrow> bool \<Rightarrow> TileKey \<Rightarrow> 'a GeoHeightfield option" where
  "walkResult E layer canceled k =
     (case contenderWalk E layer canceled GeoHeightfield_INVALID k of
        NullDereference \<Rightarrow> None
      | Returns (h, k') \<Rightarrow> if gh_valid h then Some h else None)"

definition contenderSource ::
  "('a::ord) Externals \<Rightarrow> bool \<Rightarrow> 'a LayerData \<Rightarrow> 'a GeoHeightfield option" where
  "contenderSource E canceled ld = walkResult E (ld_layer ld) canceled (ld_key ld)"

text \<open>
  A contender yields a sample at cell \<open>(c, r)\<close> when it has a raster and the sample of
  that raster at the cell is not the sentinel.
\<close>

definition contenderYields ::
  "('a::ord) Externals \<Rightarrow> ('a GeoHeightfield \<Rightarrow> nat \<Rightarrow> nat \<Rightarrow> 'a) \<Rightarrow> bool \<Rightarrow> nat \<Rightarrow> nat
     \<Rightarrow> 'a LayerData \<Rightarrow> bool" where
  "contenderYields E sample canceled c r ld =
     (case contenderSource E canceled ld of
        None \<Rightarrow> False
      | Some h \<Rightarrow> sample h c r \<noteq> NO_DATA_VALUE E)"

definition contenderSample ::
  "('a::ord) Externals \<Rightarrow> ('a GeoHeightfield \<Rightarrow> nat \<Rightarrow> nat \<Rightarrow> 'a) \<Rightarrow> bool \<Rightarrow> nat \<Rightarrow> nat
     \<Rightarrow> 'a LayerData \<Rightarrow> 'a" where
  "contenderSample E sample canceled c r ld =
     (case contenderSource E canceled ld of
        None \<Rightarrow> NO_DATA_VALUE E
      | Some h \<Rightarrow> sample h c r)"

text \<open>
  The local cache of the resampling loop is consistent with the contenders: a contender
  marked as failed has no raster; the walk from the actual key of any other contender
  finds what the walk from its own key finds; and a valid cached raster is that raster.
\<close>

definition entryConsistent ::
  "('a::ord) Externals \<Rightarrow> bool \<Rightarrow> 'a LayerData \<Rightarrow> 'a GeoHeightfield \<Rightarrow> TileKey \<Rightarrow> bool \<Rightarrow> bool" where
  "entryConsistent E canceled ld h k failed =
     (if failed then contenderSource E canceled ld = None
      else walkResult E (ld_layer ld) canceled k = contenderSource E canceled ld \<and>
           (if gh_valid h then contenderSource E canceled ld = Some h else True))"

definition cacheConsistent ::
  "('a::ord) Externals \<Rightarrow> bool \<Rightarrow> 'a LayerData list \<Rightarrow> 'a SampleState \<Rightarrow> bool" where
  "cacheConsistent E canceled contenders st =
     (length (heightfields st) = length contenders \<and>
      length (heightfieldActualKeys st) = length contenders \<and>
      length (heightFallback st) = length contenders \<and>
      length (heightFailed st) = length contenders \<and>
      (\<forall>i<length contenders.
          entryConsistent E canceled (contenders ! i) (heightfields st ! i)
            (heightfieldActualKeys st ! i) (heightFailed st ! i)))"

text \<open>
  The raster of an offset layer: the value of the one fetch at its key, with no parent
  walk; the invalid raster when that fetch does not return.
\<close>

definition offsetSource ::
  "('a::ord) Externals \<Rightarrow> bool \<Rightarrow> 'a LayerData \<Rightarrow> 'a GeoHeightfield" where
  "offsetSource E canceled ld =
     (case createHeightfield E (ld_layer ld) (ld_key ld) canceled of
        NullDereference \<Rightarrow> GeoHeightfield_INVALID
      | Returns fetched \<Rightarrow> result_value fetched)"

text \<open>
  An offset applies at a cell when no contender resolved the cell or its index is not
  below the resolved index, it has a raster, and its sample there is neither the
  sentinel nor found zero by \<^verbatim>\<open>equiv\<close>.
\<close>

definition offsetApplies ::
  "('a::{ord,zero}) Externals \<Rightarrow> ('a GeoHeightfield \<Rightarrow> nat \<Rightarrow> nat \<Rightarrow> 'a) \<Rightarrow> bool \<Rightarrow> nat \<Rightarrow> nat
     \<Rightarrow> int \<Rightarrow> 'a LayerData \<Rightarrow> bool" where
  "offsetApplies E sample canceled c r resolvedIndex ld =
     ((resolvedIndex < 0 \<or> resolvedIndex \<le> int (ld_index ld)) \<and>
      gh_valid (offsetSource E canceled ld) \<and>
      sample (offsetSource E canceled ld) c r \<noteq> NO_DATA_VALUE E \<and>
      \<not> equiv E (sample (offsetSource E canceled ld) c r) 0)"

definition offsetsConsistent ::
  "('a::ord) Externals \<Rightarrow> bool \<Rightarrow> 'a LayerData list \<Rightarrow> 'a SampleState \<Rightarrow> bool" where
  "offsetsConsistent E canceled offsets st =
     (length (offsetfields st) = length offsets \<and>
      length (offsetFailed st) = length offsets \<and>
      (\<forall>i<length offsets.
          (if offsetFailed st ! i then \<not> gh_valid (offsetSource E canceled (offsets ! i)) else True) \<and>
          (if gh_valid (offsetfields st ! i)
           then offsetfields st ! i = offsetSource E canceled (offsets ! i) else True)))"

text \<open>
  Collected layers are listed by decreasing stack position, and each is the layer at
  the position it records.
\<close>

definition stackOrdered :: "'a ElevationLayer list \<Rightarrow> nat \<Rightarrow> 'a LayerData list \<Rightarrow> bool" where
  "stackOrdered layers n lds =
     (sorted_wrt (\<lambda>a b. ld_index b < ld_index a) lds \<and>
      list_all (\<lambda>ld. n \<le> ld_index ld \<and> ld_index ld < length layers \<and>
                      ld_layer ld = layers ! ld_index ld) lds)"

text \<open>
  What the two loops of one cell make of the target, in a run that is not cancelled: the
  sample of the first contender that yields one, then the samples of the offsets that
  apply, added in the order of the loop.
\<close>

definition cellResult ::
  "('a::{ord,zero,plus}) Externals \<Rightarrow> ('a GeoHeightfield \<Rightarrow> nat \<Rightarrow> nat \<Rightarrow> 'a)
     \<Rightarrow> 'a LayerData list \<Rightarrow> 'a LayerData list \<Rightarrow> nat \<Rightarrow> nat \<Rightarrow> 'a Heightfield \<Rightarrow> 'a Heightfield" where
  "cellResult E sample contenders offsets c r t =
     (case (case find (contenderYields E sample False c r) contenders of
              None \<Rightarrow> (- 1, t)
            | Some A \<Rightarrow> (int (ld_index A), writeCell t c r (contenderSample E sample False c r A))) of
        (resolvedIndex, t1) \<Rightarrow>
          writeCell t1 c r
            (foldl (+) (heightAtCell t1 c r)
               (map (\<lambda>ld. sample (offsetSource E False ld) c r)
                  (filter (offsetApplies E sample False c r resolvedIndex) (rev offsets)))))"

text \<open>
  The value that the two loops of one cell leave in it, from the value \<open>before\<close> that the
  cell held: the sample of the winning contender, if any contender yields one, and on
  top of it the samples of the offsets that apply.
\<close>

definition cellValue ::
  "('a::{ord,zero,plus}) Externals \<Rightarrow> ('a GeoHeightfield \<Rightarrow> nat \<Rightarrow> nat \<Rightarrow> 'a)
     \<Rightarrow> 'a LayerData list \<Rightarrow> 'a LayerData list \<Rightarrow> nat \<Rightarrow> nat \<Rightarrow> 'a \<Rightarrow> 'a" where
  "cellValue E sample contenders offsets c r before =
     (let winner = find (contenderYields E sample False c r) contenders;
          resolvedIndex = (case winner of None \<Rightarrow> - 1 | Some A \<Rightarrow> int (ld_index A));
          resolved = (case winner of None \<Rightarrow> before
                      | Some A \<Rightarrow> contenderSample E sample False c r A)
      in foldl (+) resolved
           (map (\<lambda>ld. sample (offsetSource E False ld) c r)
              (filter (offsetApplies E sample False c r resolvedIndex) (rev offsets))))"
section \<open>Evaluation rules\<close>

lemmas fixture_defs = plainExternals_def tileAt_def rasterOf_def rasterLayer_def coarseLayer_def
  fallbackLayer_def failingLayer_def hollowLayer_def storedSample_def FLT_MAX_def

lemmas key_defs = key_valid_def profile_valid_def key_extent_def makeParent_def

lemmas result_defs = status_ok_def status_failed_def result_value_def gh_valid_def
  GeoHeightfield_INVALID_def

lemmas pipeline_defs = createHeightfield_def createHeightfieldInKeyProfile_def acquire_def
  createHeightfieldImplementation_internal_def validateHeightfield_def normalizeNoDataValues_def
  isNoData_def

section \<open>The single-layer pipeline: normalization and status\<close>

lemma normalizePixels_length: "length (normalizePixels E L n pixels) = length pixels"
  by (induction E L n pixels rule: normalizePixels.induct) auto

lemma normalizePixels_nth:
  "i < length pixels \<Longrightarrow>
   normalizePixels E L n pixels ! i =
     (if i < n \<and> isNoData E L (pixels ! i) then NO_DATA_VALUE E else pixels ! i)"
proof (induction E L n pixels arbitrary: i rule: normalizePixels.induct)
  case (3 E L n h pixels)
  then show ?case by (cases i) auto
qed auto

lemma normalizePixels_eq:
  "normalizePixels E L n pixels =
     map (\<lambda>h. if isNoData E L h then NO_DATA_VALUE E else h) (take n pixels) @ drop n pixels"
  by (induction E L n pixels rule: normalizePixels.induct) auto

lemma validate_dims:
  "validateHeightfield (Some hf) \<longleftrightarrow>
     1 \<le> height hf \<and> height hf \<le> 1024 \<and> 1 \<le> width hf \<and> width hf \<le> 1024"
  by (auto simp: validateHeightfield_def)

text \<open>A validated raster has at most \<open>2\<^sup>2\<^sup>0\<close> samples: the unsigned product does not wrap.\<close>

lemma validate_no_wrap:
  assumes "validateHeightfield (Some hf)"
  shows "(width hf * height hf) mod 2 ^ 32 = width hf * height hf"
proof -
  have "width hf \<le> 1024" "height hf \<le> 1024" using assms by (auto simp: validate_dims)
  then have "width hf * height hf \<le> 1024 * 1024" by (rule mult_le_mono)
  then show ?thesis by simp
qed

text \<open>What an ok result that holds a raster tells about the run of the pipeline.\<close>

lemma pipeline_Ok_cases:
  assumes "createHeightfieldInKeyProfile E L key canceled = Returns (Ok g)"
      and "heightfield g = Some out"
  obtains raw rawhf where "acquire E L key canceled = Returns (Ok raw)" "heightfield raw = Some rawhf"
      "validateHeightfield (Some rawhf)"
      "normalizeNoDataValues E L (Some rawhf) = Some out" "\<not> canceled"
      "g = \<lparr>heightfield = Some out, extent = key_extent key\<rparr>"
      "isKeyInLegalRange L key" "isOpen L" "profile_valid (layerProfile L)"
proof -
  from assms(1) have open_legal: "isKeyInLegalRange L key" "isOpen L" "profile_valid (layerProfile L)"
    using assms(2)
    by (auto simp: createHeightfieldInKeyProfile_def GeoHeightfield_INVALID_def split: if_splits)
  with assms(1) obtain raw where raw: "acquire E L key canceled = Returns (Ok raw)"
    by (auto simp: createHeightfieldInKeyProfile_def split: Outcome.splits Result.splits)
  from assms open_legal raw have nc: "\<not> canceled"
    by (auto simp: createHeightfieldInKeyProfile_def GeoHeightfield_INVALID_def split: if_splits)
  from assms open_legal raw nc obtain rawhf where rawhf: "heightfield raw = Some rawhf"
    by (cases "heightfield raw")
       (auto simp: createHeightfieldInKeyProfile_def GeoHeightfield_INVALID_def
          normalizeNoDataValues_def split: if_splits)
  from assms open_legal raw nc rawhf
  have "validateHeightfield (Some rawhf)" "normalizeNoDataValues E L (Some rawhf) = Some out"
       "g = \<lparr>heightfield = Some out, extent = key_extent key\<rparr>"
    by (auto simp: createHeightfieldInKeyProfile_def GeoHeightfield_INVALID_def Let_def
          split: if_splits)
  with raw rawhf nc open_legal show thesis by (auto intro: that)
qed

text \<open>
  Claim C5. Every raster that \<^verbatim>\<open>createHeightfieldInKeyProfile\<close> returns in an ok result
  has been normalized: it is the acquired raster (from the driver, or from the mosaic
  assembler) in which every sample that is NaN, that \<^verbatim>\<open>equiv\<close> finds equal to the
  configured no-data value, or that lies below \<open>minValidValue\<close> or above \<open>maxValidValue\<close>
  has been replaced by \<open>NO_DATA_VALUE\<close>, the other samples being left as they were.
\<close>

theorem pipeline_normalized:
  assumes "createHeightfieldInKeyProfile E L key canceled = Returns (Ok g)"
      and "heightfield g = Some out"
  shows "\<exists>raw rawhf. acquire E L key canceled = Returns (Ok raw) \<and> heightfield raw = Some rawhf \<and>
           width out = width rawhf \<and> height out = height rawhf \<and>
           length (data out) = length (data rawhf) \<and>
           (\<forall>i. i < width rawhf * height rawhf \<and> i < length (data rawhf) \<longrightarrow>
                data out ! i = (if isNoData E L (data rawhf ! i) then NO_DATA_VALUE E
                                else data rawhf ! i))"
proof -
  from assms obtain raw rawhf where
    acq: "acquire E L key canceled = Returns (Ok raw)" "heightfield raw = Some rawhf"
    and val: "validateHeightfield (Some rawhf)"
    and norm: "normalizeNoDataValues E L (Some rawhf) = Some out"
    by (rule pipeline_Ok_cases)
  have n: "(width rawhf * height rawhf) mod 2 ^ 32 = width rawhf * height rawhf"
    using val by (rule validate_no_wrap)
  have out: "out = rawhf\<lparr>data := normalizePixels E L (width rawhf * height rawhf) (data rawhf)\<rparr>"
    using norm n by (simp add: normalizeNoDataValues_def)
  show ?thesis
    using acq by (auto simp: out normalizePixels_length normalizePixels_nth)
qed

text \<open>
  A layer that accepts heights up to 8848 is asked for a tile whose driver raster holds
  5 and 9000: the pipeline returns 5 and the sentinel.
\<close>

theorem pipeline_normalized_witness:
  "createHeightfieldInKeyProfile plainExternals
      ((rasterLayer 0 False (rasterOf 2 1 [5, 9000]))\<lparr>maxValidValue := 8848\<rparr>) (tileAt 0 0) False =
     Returns (Ok \<lparr>heightfield = Some (rasterOf 2 1 [5, - FLT_MAX]), extent = key_extent (tileAt 0 0)\<rparr>) \<and>
   (\<exists>raw rawhf.
       acquire plainExternals ((rasterLayer 0 False (rasterOf 2 1 [5, 9000]))\<lparr>maxValidValue := 8848\<rparr>)
         (tileAt 0 0) False = Returns (Ok raw) \<and>
       heightfield raw = Some rawhf \<and>
       data (rasterOf 2 1 [5, - FLT_MAX]) ! 1 =
         (if isNoData plainExternals ((rasterLayer 0 False (rasterOf 2 1 [5, 9000]))\<lparr>maxValidValue := 8848\<rparr>)
               (data rawhf ! 1)
          then NO_DATA_VALUE plainExternals else data rawhf ! 1))"
proof -
  let ?L = "(rasterLayer 0 False (rasterOf 2 1 [5, 9000]))\<lparr>maxValidValue := 8848\<rparr>"
  let ?g = "\<lparr>heightfield = Some (rasterOf 2 1 [5, - FLT_MAX]), extent = key_extent (tileAt 0 0)\<rparr>"
  have run: "createHeightfieldInKeyProfile plainExternals ?L (tileAt 0 0) False = Returns (Ok ?g)"
    by (simp add: pipeline_defs fixture_defs key_defs normalizePixels_eq Let_def)
  have hf: "heightfield ?g = Some (rasterOf 2 1 [5, - FLT_MAX])"
    by simp
  from pipeline_normalized [OF run hf] obtain raw rawhf where
    "acquire plainExternals ?L (tileAt 0 0) False = Returns (Ok raw)" "heightfield raw = Some rawhf"
    and w: "width rawhf = 2" "height rawhf = 1" "length (data rawhf) = 2"
    and all: "\<forall>i. i < width rawhf * height rawhf \<and> i < length (data rawhf) \<longrightarrow>
                data (rasterOf 2 1 [5, - FLT_MAX]) ! i =
                  (if isNoData plainExternals ?L (data rawhf ! i) then NO_DATA_VALUE plainExternals
                   else data rawhf ! i)"
    by (auto simp: rasterOf_def)
  moreover from all w have "data (rasterOf 2 1 [5, - FLT_MAX]) ! 1 =
      (if isNoData plainExternals ?L (data rawhf ! 1) then NO_DATA_VALUE plainExternals
       else data rawhf ! 1)"
    by simp
  ultimately show ?thesis using run by blast
qed

lemma acquire_Failed:
  "acquire E L key canceled = Returns (Failed code) \<longleftrightarrow>
     profile key = layerProfile L \<and> createHeightfieldImplementation L key = Failed code"
  by (simp add: acquire_def createHeightfieldImplementation_internal_def split: Outcome.splits)

text \<open>
  Claim C6, as amended. The checks of \<^verbatim>\<open>createHeightfieldInKeyProfile\<close> apply in the
  order of the source, and a failed driver result is returned as it is:
  \<^item> the result is \<open>ResourceUnavailable\<close> exactly when the profile of the layer is invalid
    or the layer is not open, or else the key is legal and the acquisition (the driver,
    on the same-profile path) failed with \<open>ResourceUnavailable\<close>;
  \<^item> it is the ok result \<open>INVALID\<close> exactly when the layer is open with a valid profile and
    either the key is outside the legal range, or the acquisition did not fail and then
    cancellation is flagged or no raster was produced;
  \<^item> it is \<open>GeneralError\<close> exactly when the layer is open with a valid profile, the key is
    legal, and either the acquisition failed with \<open>GeneralError\<close> or, without
    cancellation, it produced a raster whose width or height lies outside \<open>[1, 1024]\<close>.
\<close>

theorem pipeline_status_in_order:
  "(createHeightfieldInKeyProfile E L key canceled = Returns (Failed ResourceUnavailable) \<longleftrightarrow>
      (\<not> profile_valid (layerProfile L) \<or> \<not> isOpen L) \<or>
      (isKeyInLegalRange L key \<and> acquire E L key canceled = Returns (Failed ResourceUnavailable))) \<and>
   (createHeightfieldInKeyProfile E L key canceled = Returns (Ok GeoHeightfield_INVALID) \<longleftrightarrow>
      profile_valid (layerProfile L) \<and> isOpen L \<and>
      (\<not> isKeyInLegalRange L key \<or>
       (\<exists>raw. acquire E L key canceled = Returns (Ok raw) \<and> (canceled \<or> heightfield raw = None)))) \<and>
   (createHeightfieldInKeyProfile E L key canceled = Returns (Failed GeneralError) \<longleftrightarrow>
      profile_valid (layerProfile L) \<and> isOpen L \<and> isKeyInLegalRange L key \<and>
      (acquire E L key canceled = Returns (Failed GeneralError) \<or>
       (\<exists>raw hf. acquire E L key canceled = Returns (Ok raw) \<and> \<not> canceled \<and> heightfield raw = Some hf \<and>
          \<not> (1 \<le> width hf \<and> width hf \<le> 1024 \<and> 1 \<le> height hf \<and> height hf \<le> 1024))))"
proof (cases "acquire E L key canceled")
  case NullDereference
  then show ?thesis
    by (auto simp: createHeightfieldInKeyProfile_def)
next
  case (Returns res)
  then show ?thesis
    by (cases res)
       (auto simp: createHeightfieldInKeyProfile_def GeoHeightfield_INVALID_def Let_def
          normalizeNoDataValues_def validate_dims split: option.splits)
qed

text \<open>An open layer whose driver delivers a raster 2000 samples wide: \<open>GeneralError\<close>.\<close>

theorem pipeline_status_in_order_witness:
  "createHeightfieldInKeyProfile plainExternals (rasterLayer 0 False (rasterOf 2000 1 []))
     (tileAt 0 0) False = Returns (Failed GeneralError)"
proof -
  let ?L = "rasterLayer 0 False (rasterOf 2000 1 [])"
  have "acquire plainExternals ?L (tileAt 0 0) False =
          Returns (Ok \<lparr>heightfield = Some (rasterOf 2000 1 []), extent = key_extent (tileAt 0 0)\<rparr>)"
    by (simp add: pipeline_defs fixture_defs)
  moreover have "profile_valid (layerProfile ?L)" "isOpen ?L" "isKeyInLegalRange ?L (tileAt 0 0)"
    by (simp_all add: fixture_defs key_defs)
  moreover have "\<not> (1 \<le> width (rasterOf 2000 1 []) \<and> width (rasterOf 2000 1 []) \<le> 1024 \<and>
                   1 \<le> height (rasterOf 2000 1 []) \<and> height (rasterOf 2000 1 []) \<le> 1024)"
    by (simp add: rasterOf_def)
  ultimately show ?thesis
    using pipeline_status_in_order [of plainExternals ?L "tileAt 0 0" False] by auto
qed

text \<open>
  The classification as the claim states it fails on two inputs. An open layer with a
  valid profile whose driver reports \<open>ResourceUnavailable\<close> for a legal key of its own
  profile yields \<open>ResourceUnavailable\<close>; and when cancellation is flagged, a raster 2000
  samples wide yields \<open>INVALID\<close>, not \<open>GeneralError\<close>.
\<close>

theorem pipeline_status_counterexample:
  "createHeightfieldInKeyProfile plainExternals (failingLayer 0) (tileAt 0 0) False =
     Returns (Failed ResourceUnavailable) \<and>
   profile_valid (layerProfile (failingLayer 0)) \<and> isOpen (failingLayer 0) \<and>
   createHeightfieldInKeyProfile plainExternals (rasterLayer 0 False (rasterOf 2000 1 []))
     (tileAt 0 0) True = Returns (Ok GeoHeightfield_INVALID) \<and>
   acquire plainExternals (rasterLayer 0 False (rasterOf 2000 1 [])) (tileAt 0 0) True =
     Returns (Ok \<lparr>heightfield = Some (rasterOf 2000 1 []), extent = key_extent (tileAt 0 0)\<rparr>)"
  by (simp add: pipeline_defs fixture_defs key_defs)

section \<open>Termination of the parent walks\<close>

lemma assembleWalk_loop_returns:
  "assembleWalk_loop L canceled subKey subTile = Some (assembleWalk L canceled subKey subTile)"
proof (induction L canceled subKey subTile rule: assembleWalk.induct)
  case (1 L canceled subKey subTile)
  show ?case
    apply (subst assembleWalk_loop.simps)
    apply (subst assembleWalk.simps)
    using 1 by (auto simp: Let_def)
qed

lemma contenderWalk_loop_returns:
  "contenderWalk_loop E layer canceled layerHF actualKey =
     Some (contenderWalk E layer canceled layerHF actualKey)"
proof (induction E layer canceled layerHF actualKey rule: contenderWalk.induct)
  case (1 E layer canceled layerHF actualKey)
  show ?case
    apply (subst contenderWalk_loop.simps)
    apply (subst contenderWalk.simps)
    using 1 by (auto simp: Let_def split: Outcome.splits)
qed

text \<open>A parent that is still a valid key lies one level up.\<close>

lemma makeParent_level:
  "key_valid k \<Longrightarrow> key_valid (makeParent k) \<Longrightarrow> Suc (levelOfDetail (makeParent k)) = levelOfDetail k"
  by (auto simp: makeParent_def key_valid_def profile_valid_def split: if_splits)

lemma makeParent_root: "levelOfDetail k = 0 \<Longrightarrow> \<not> key_valid (makeParent k)"
  by (simp add: makeParent_def key_valid_def profile_valid_def)

text \<open>
  Claim C9. Both parent walks return for every input: the walk of an intersecting key in
  \<^verbatim>\<open>assembleHeightfield\<close> and the walk of a contender in \<^verbatim>\<open>populateHeightfield\<close>, written
  as loops with no termination assumed, yield a result whatever the layer, the key and
  the tiles are (also when no ancestor has data), and this result is the one of the
  total functions used in the rest of this theory. Each failed fetch moves to the parent
  key, whose level is one less, until the key is invalid. (The walk of a contender also
  ends when a fetch dereferences a null pointer: its result is then \<open>NullDereference\<close>.)
\<close>

theorem parent_walks_terminate:
  "assembleWalk_loop L canceled subKey subTile = Some (assembleWalk L canceled subKey subTile) \<and>
   contenderWalk_loop E layer canceled' layerHF actualKey =
     Some (contenderWalk E layer canceled' layerHF actualKey)"
  by (simp add: assembleWalk_loop_returns contenderWalk_loop_returns)

text \<open>A layer without any data, asked at level 3: both walks end on the invalid key.\<close>

theorem parent_walks_terminate_witness:
  "assembleWalk_loop (failingLayer 0) False (tileAt 3 0) (Failed ResourceUnavailable) =
     Some (Some ((tileAt 0 0)\<lparr>profile := InvalidProfile\<rparr>, Failed ResourceUnavailable)) \<and>
   contenderWalk_loop plainExternals (failingLayer 0) False GeoHeightfield_INVALID (tileAt 3 0) =
     Some (Returns (GeoHeightfield_INVALID, (tileAt 0 0)\<lparr>profile := InvalidProfile\<rparr>))"
  using parent_walks_terminate [of "failingLayer 0" False "tileAt 3 0" "Failed ResourceUnavailable"
          plainExternals "failingLayer 0" False GeoHeightfield_INVALID "tileAt 3 0"]
  by (simp add: assembleWalk.simps contenderWalk.simps pipeline_defs fixture_defs key_defs
        result_defs Let_def)

section \<open>The mosaic assembler\<close>

lemmas assemble_defs = assembleHeightfield_def buildMosaic_def
  reserve_def buildGrid_def storeAt_def forEachPoint_def u32mul_def u32add_def

lemma assembleWalk_not_canceled: "assembleWalk L False subKey subTile \<noteq> None"
proof (induction L "False" subKey subTile rule: assembleWalk.induct)
  case (1 L subKey subTile)
  show ?case
    apply (subst assembleWalk.simps)
    using 1 by (auto simp: Let_def)
qed

text \<open>A cancelled walk returns at once, or does not start: it never ends on an ok tile.\<close>

lemma assembleWalk_canceled:
  "assembleWalk L True subKey (Failed code) =
     (if key_valid subKey then None else Some (subKey, Failed code))"
  by (subst assembleWalk.simps) (simp add: status_ok_def Let_def)

lemma collectSources_canceled:
  "collectSources L True targetLOD keys (flag, sources) = None \<or>
   collectSources L True targetLOD keys (flag, sources) = Some (flag, sources)"
  by (induction keys) (simp_all add: assembleWalk_canceled status_ok_def)

text \<open>The flag and the sources after the loop over the intersecting keys.\<close>

lemma collectSources_result:
  "collectSources L False targetLOD keys (flag, sources) =
      Some (flag \<or> (\<exists>k\<in>set keys. endsAtTargetLOD L False targetLOD k),
            sources @ List.map_filter (collectedSource L False) keys)"
proof (induction keys arbitrary: flag sources)
  case Nil
  then show ?case by (simp add: List.map_filter_simps)
next
  case (Cons k keys)
  obtain subKey subTile where w: "assembleWalk L False k (Failed ResourceUnavailable) = Some (subKey, subTile)"
    using assembleWalk_not_canceled [of L k "Failed ResourceUnavailable"] by auto
  show ?case
  proof (cases "status_ok subTile")
    case True
    from Cons.IH [of "flag \<or> levelOfDetail subKey = targetLOD" "sources @ [result_value subTile]"]
    show ?thesis using w True
      by (auto simp: endsAtTargetLOD_def collectedSource_def List.map_filter_simps)
  next
    case False
    from Cons.IH [of flag sources]
    show ?thesis using w False
      by (auto simp: endsAtTargetLOD_def collectedSource_def List.map_filter_simps)
  qed
qed

text \<open>The loop that sizes the output returns unless a source carries a null raster.\<close>

lemma outputSize_returns:
  "(\<exists>size. outputSize sources (cols, rows) = Returns size) \<longleftrightarrow>
     (\<forall>g\<in>set sources. heightfield g \<noteq> None)"
  by (induction sources arbitrary: cols rows) (auto split: option.splits)

lemma buildMosaic_returns:
  "(\<exists>mosaic. buildMosaic E key sources = Returns mosaic) \<longleftrightarrow>
     (\<forall>g\<in>set sources. heightfield g \<noteq> None)"
proof -
  have "(\<exists>mosaic. buildMosaic E key sources = Returns mosaic) \<longleftrightarrow>
        (\<exists>size. outputSize sources (0, 0) = Returns size)"
    by (auto simp: buildMosaic_def Let_def split: Outcome.splits)
  then show ?thesis by (simp only: outputSize_returns)
qed

lemma set_map_filter: "set (List.map_filter f xs) = {y. \<exists>x\<in>set xs. f x = Some y}"
  by (induction xs) (auto simp: List.map_filter_simps split: option.splits)

text \<open>
  Claim C1, as amended. \<^verbatim>\<open>assembleHeightfield\<close> builds its mosaic under the guard
  \<^verbatim>\<open>if (hasAtLeastOneSourceAtTargetLOD)\<close>. It returns a mosaic exactly when the call is
  not cancelled, the parent walk of at least one intersecting key ended on an ok tile at
  the target level of detail, and every ok tile on which a walk ended carries a raster.
  When the first two conditions hold and one of these tiles carries a null raster, the
  loop that sizes the output dereferences it and the call does not return. In every
  other case, and so whenever every fetched source is fallback, the call returns the
  null raster, however many sources were fetched.
\<close>

theorem assemble_mosaic_iff_target_lod:
  "((\<exists>mosaic. assembleHeightfield E L key canceled = Returns (Some mosaic)) \<longleftrightarrow>
      \<not> canceled \<and>
      (\<exists>k\<in>set (getIntersectingKeys E key (layerProfile L)).
          endsAtTargetLOD L False (levelOfDetail key) k) \<and>
      (\<forall>k\<in>set (getIntersectingKeys E key (layerProfile L)).
          \<forall>g. collectedSource L False k = Some g \<longrightarrow> heightfield g \<noteq> None)) \<and>
   (assembleHeightfield E L key canceled = NullDereference \<longleftrightarrow>
      \<not> canceled \<and>
      (\<exists>k\<in>set (getIntersectingKeys E key (layerProfile L)).
          endsAtTargetLOD L False (levelOfDetail key) k) \<and>
      (\<exists>k\<in>set (getIntersectingKeys E key (layerProfile L)).
          \<exists>g. collectedSource L False k = Some g \<and> heightfield g = None)) \<and>
   (assembleHeightfield E L key canceled = Returns None \<longleftrightarrow>
      canceled \<or>
      \<not> (\<exists>k\<in>set (getIntersectingKeys E key (layerProfile L)).
            endsAtTargetLOD L False (levelOfDetail key) k))"
proof (cases canceled)
  case True
  from collectSources_canceled [of L "levelOfDetail key" "getIntersectingKeys E key (layerProfile L)" False "[]"]
  have "assembleHeightfield E L key True = Returns None"
    by (auto simp: assembleHeightfield_def Let_def)
  with True show ?thesis by simp
next
  case False
  let ?keys = "getIntersectingKeys E key (layerProfile L)"
  let ?sources = "List.map_filter (collectedSource L False) ?keys"
  let ?flag = "\<exists>k\<in>set ?keys. endsAtTargetLOD L False (levelOfDetail key) k"
  have collected: "collectSources L False (levelOfDetail key) ?keys (False, []) = Some (?flag, ?sources)"
    using collectSources_result [of L "levelOfDetail key" ?keys False "[]"] by simp
  have all: "(\<forall>g\<in>set ?sources. heightfield g \<noteq> None) \<longleftrightarrow>
      (\<forall>k\<in>set ?keys. \<forall>g. collectedSource L False k = Some g \<longrightarrow> heightfield g \<noteq> None)"
    by (auto simp: set_map_filter)
  show ?thesis
  proof (cases ?flag)
    case noflag: False
    then have "?keys = [] \<or> ?keys \<noteq> []" by simp
    with noflag collected have "assembleHeightfield E L key False = Returns None"
      by (auto simp: assembleHeightfield_def Let_def)
    with noflag False show ?thesis by simp
  next
    case flag: True
    then have ne: "?keys \<noteq> []" by auto
    from ne collected flag
    have a: "assembleHeightfield E L key False =
        (case buildMosaic E key ?sources of
           NullDereference \<Rightarrow> NullDereference | Returns mosaic \<Rightarrow> Returns (Some mosaic))"
      by (simp add: assembleHeightfield_def Let_def split: Outcome.splits)
    show ?thesis
    proof (cases "buildMosaic E key ?sources")
      case NullDereference
      with buildMosaic_returns [of E key ?sources]
      have "\<not> (\<forall>g\<in>set ?sources. heightfield g \<noteq> None)" by simp
      then have "\<not> (\<forall>k\<in>set ?keys. \<forall>g. collectedSource L False k = Some g \<longrightarrow> heightfield g \<noteq> None)"
        unfolding all .
      then have "\<exists>k\<in>set ?keys. \<exists>g. collectedSource L False k = Some g \<and> heightfield g = None"
        by simp
      with a NullDereference flag False show ?thesis by auto
    next
      case (Returns mosaic)
      with buildMosaic_returns [of E key ?sources]
      have "\<forall>g\<in>set ?sources. heightfield g \<noteq> None" by blast
      then have "\<forall>k\<in>set ?keys. \<forall>g. collectedSource L False k = Some g \<longrightarrow> heightfield g \<noteq> None"
        unfolding all .
      with a Returns flag False show ?thesis by auto
    qed
  qed
qed

text \<open>
  A layer with data at the requested level: the walk ends there on a tile that carries a
  raster, and a mosaic is returned. A layer whose tiles carry no raster: the walk ends
  there as well, and the call does not return.
\<close>

theorem assemble_mosaic_iff_target_lod_witness:
  "endsAtTargetLOD (rasterLayer 1 False (rasterOf 1 1 [42])) False (levelOfDetail (tileAt 0 0))
     ((tileAt 0 0)\<lparr>profile := TilingScheme 1\<rparr>) \<and>
   collectedSource (rasterLayer 1 False (rasterOf 1 1 [42])) False ((tileAt 0 0)\<lparr>profile := TilingScheme 1\<rparr>) =
     Some \<lparr>heightfield = Some (rasterOf 1 1 [42]), extent = key_extent (tileAt 0 1)\<rparr> \<and>
   (\<exists>mosaic. assembleHeightfield plainExternals (rasterLayer 1 False (rasterOf 1 1 [42]))
                (tileAt 0 0) False = Returns (Some mosaic)) \<and>
   endsAtTargetLOD (hollowLayer 1) False (levelOfDetail (tileAt 0 0))
     ((tileAt 0 0)\<lparr>profile := TilingScheme 1\<rparr>) \<and>
   collectedSource (hollowLayer 1) False ((tileAt 0 0)\<lparr>profile := TilingScheme 1\<rparr>) =
     Some \<lparr>heightfield = None, extent = key_extent (tileAt 0 1)\<rparr> \<and>
   assembleHeightfield plainExternals (hollowLayer 1) (tileAt 0 0) False = NullDereference"
  using assemble_mosaic_iff_target_lod
          [of plainExternals "rasterLayer 1 False (rasterOf 1 1 [42])" "tileAt 0 0" False]
        assemble_mosaic_iff_target_lod [of plainExternals "hollowLayer 1" "tileAt 0 0" False]
  by (simp add: endsAtTargetLOD_def collectedSource_def fixture_defs key_defs assembleWalk.simps
        createHeightfieldImplementation_internal_def status_ok_def status_failed_def result_value_def)

text \<open>
  The claim as stated fails for a layer that has data at level 0 only, asked for a
  level-1 tile of another profile: the walk of the one intersecting key fails at level 1
  and fetches the level-0 parent, so that one source is collected and none reached the
  target level; the assembler returns the null raster.
\<close>

theorem assemble_fallback_only_counterexample:
  "collectSources (coarseLayer 1 (rasterOf 1 1 [42])) False (levelOfDetail (tileAt 1 0))
       (getIntersectingKeys plainExternals (tileAt 1 0) (layerProfile (coarseLayer 1 (rasterOf 1 1 [42]))))
       (False, []) =
     Some (False, [\<lparr>heightfield = Some (rasterOf 1 1 [42]), extent = key_extent (tileAt 0 1)\<rparr>]) \<and>
   assembleHeightfield plainExternals (coarseLayer 1 (rasterOf 1 1 [42])) (tileAt 1 0) False = Returns None"
  by (simp add: assembleHeightfield_def fixture_defs key_defs assembleWalk.simps
      createHeightfieldImplementation_internal_def status_ok_def status_failed_def result_value_def Let_def)

subsection \<open>The sampling loop of the mosaic\<close>

text \<open>
  After \<^verbatim>\<open>reserve\<close> the vector has size 0, and the stores through \<^verbatim>\<open>operator[]\<close> do not
  change that: every point that the grid loop stored still has \<open>z = NO_DATA_VALUE\<close> when
  the mosaic is written, since the range-based sampling loop and the two transforms
  visit no point at all.
\<close>

lemma stored_storeAt:
  "stored E W v \<Longrightarrow> pz p = NO_DATA_VALUE E \<Longrightarrow> stored E (insert i W) (storeAt v i p)"
  by (auto simp: stored_def storeAt_def)

lemma stored_row:
  "stored E W v \<Longrightarrow>
   stored E (W \<union> (\<lambda>c. u32add (u32mul r cols) c) ` set cs)
     (fold (\<lambda>c v. storeAt v (u32add (u32mul r cols) c)
               \<lparr>px = fst (gridPoint E key cols rows c r),
                py = snd (gridPoint E key cols rows c r),
                pz = NO_DATA_VALUE E\<rparr>) cs v)"
proof (induction cs arbitrary: v W)
  case Nil
  then show ?case by simp
next
  case (Cons c cs)
  have "stored E (insert (u32add (u32mul r cols) c) W)
          (storeAt v (u32add (u32mul r cols) c)
             \<lparr>px = fst (gridPoint E key cols rows c r),
              py = snd (gridPoint E key cols rows c r), pz = NO_DATA_VALUE E\<rparr>)"
    using Cons.prems by (intro stored_storeAt) simp_all
  from Cons.IH [OF this] show ?case
    by (simp add: insert_commute Un_commute)
qed

lemma stored_grid:
  "stored E W v \<Longrightarrow>
   stored E (W \<union> (\<Union>r\<in>set rs. (\<lambda>c. u32add (u32mul r cols) c) ` set cs))
     (fold (\<lambda>r v. fold (\<lambda>c v. storeAt v (u32add (u32mul r cols) c)
               \<lparr>px = fst (gridPoint E key cols rows c r),
                py = snd (gridPoint E key cols rows c r),
                pz = NO_DATA_VALUE E\<rparr>) cs v) rs v)"
proof (induction rs arbitrary: v W)
  case Nil
  then show ?case by simp
next
  case (Cons r rs)
  let ?row = "\<lambda>r v. fold (\<lambda>c v. storeAt v (u32add (u32mul r cols) c)
               \<lparr>px = fst (gridPoint E key cols rows c r),
                py = snd (gridPoint E key cols rows c r),
                pz = NO_DATA_VALUE E\<rparr>) cs v"
  have "stored E (W \<union> (\<lambda>c. u32add (u32mul r cols) c) ` set cs) (?row r v)"
    using Cons.prems by (rule stored_row)
  then have "stored E ((W \<union> (\<lambda>c. u32add (u32mul r cols) c) ` set cs) \<union>
                 (\<Union>r\<in>set rs. (\<lambda>c. u32add (u32mul r cols) c) ` set cs))
               (fold ?row rs (?row r v))"
    by (rule Cons.IH)
  then show ?case by (simp add: Un_assoc)
qed

lemma forEachPoint_empty: "vsize v = 0 \<Longrightarrow> forEachPoint f v = v"
  by (simp add: forEachPoint_def)

text \<open>Whatever the sources hold, every sample of the mosaic is the sentinel.\<close>

lemma buildMosaic_all_nodata:
  assumes "buildMosaic E key sources = Returns mosaic"
  shows "set (data mosaic) \<subseteq> {NO_DATA_VALUE E}"
proof -
  from assms obtain cols rows where size: "outputSize sources (0, 0) = Returns (cols, rows)"
    by (auto simp: buildMosaic_def split: Outcome.splits)
  let ?points1 = "buildGrid E key cols rows (reserve E (u32mul cols rows))"
  have "stored E {} (reserve E (u32mul cols rows))"
    by (simp add: stored_def reserve_def)
  from stored_grid [OF this, where rs = "[0..<rows]" and cs = "[0..<cols]" and cols = cols
      and key = key and rows = rows]
  have st: "stored E (\<Union>r\<in>{0..<rows}. (\<lambda>c. u32add (u32mul r cols) c) ` {0..<cols}) ?points1"
    by (simp add: buildGrid_def)
  then have z: "vsize ?points1 = 0" by (simp add: stored_def)
  have pts: "pz (storage ?points1 (u32add (u32mul r cols) c)) = NO_DATA_VALUE E"
    if "r < rows" "c < cols" for r c
  proof -
    from that have "u32add (u32mul r cols) c
        \<in> (\<Union>r\<in>{0..<rows}. (\<lambda>c. u32add (u32mul r cols) c) ` {0..<cols})"
      by (intro UN_I [of r] imageI) simp_all
    with st show ?thesis unfolding stored_def by blast
  qed
  have built: "buildMosaic E key sources =
          Returns \<lparr>width = cols, height = rows,
            data = concat (map (\<lambda>r. map (\<lambda>c. pz (storage ?points1 (u32add (u32mul r cols) c)))
                                       [0..<cols]) [0..<rows])\<rparr>"
    unfolding buildMosaic_def size Let_def
    by (simp add: forEachPoint_empty z split: option.splits prod.splits)
  have "data mosaic =
          concat (map (\<lambda>r. map (\<lambda>c. pz (storage ?points1 (u32add (u32mul r cols) c))) [0..<cols])
                    [0..<rows])"
    using assms unfolding built by auto
  then show ?thesis using pts by auto
qed

text \<open>
  Claim C8, on the code: a key of scheme 0 at level 0 is requested from a layer of scheme
  1 whose driver delivers the one-sample raster 42. The one source is fetched at the
  target level, and its sample at the point of the only cell is 42, not the sentinel;
  the claim has the cell receive 42. The mosaic that \<^verbatim>\<open>assembleHeightfield\<close> returns holds
  the sentinel there.
\<close>

theorem assemble_leaves_sentinel:
  "assembleHeightfield plainExternals (rasterLayer 1 False (rasterOf 1 1 [42])) (tileAt 0 0) False =
     Returns (Some (rasterOf 1 1 [- FLT_MAX])) \<and>
   NO_DATA_VALUE plainExternals = - FLT_MAX \<and>
   heightAtLocation plainExternals
     \<lparr>heightfield = Some (rasterOf 1 1 [42]), extent = key_extent (tileAt 0 1)\<rparr>
     (fst (gridPoint plainExternals (tileAt 0 0) 1 1 0 0))
     (snd (gridPoint plainExternals (tileAt 0 0) 1 1 0 0)) = 42"
  by (simp add: assemble_defs fixture_defs key_defs assembleWalk.simps heightAtCell_def
      createHeightfieldImplementation_internal_def status_ok_def status_failed_def result_value_def Let_def)

section \<open>The compositor: which layers are used\<close>

lemmas collect_defs = usableLayers_def keyToUseFor_def classifyLayer_def

lemmas populate_defs = populateHeightfield_def sampleLayers_def fastPath_def resample_def
  initialState_def resolveInvalidHeights_def sampleCell_def contenderBody_def fetchContender_def
  sampleContender_def clearCache_def offsetBody_def writeCell_def heightAtCell_def

lemma collectLayers_numeral:
  "collectLayers E layers w key keyToUse (numeral n) st =
     collectLayers E layers w key keyToUse (pred_numeral n)
       (classifyLayer E (layers ! pred_numeral n) (pred_numeral n) w key keyToUse st)"
  by (simp add: numeral_eq_Suc)

lemma offsetLoop_numeral:
  "offsetLoop E sample canceled c r offsets (numeral n) st resolvedIndex =
     (if canceled then Returns (st, True)
      else
        (case offsetBody E sample canceled c r offsets (pred_numeral n) st resolvedIndex of
           NullDereference \<Rightarrow> NullDereference
         | Returns st' \<Rightarrow> offsetLoop E sample canceled c r offsets (pred_numeral n) st' resolvedIndex))"
  by (simp add: numeral_eq_Suc)

lemma classifyLayer_accounted:
  "layersAccountedFor E w keyToUse st \<Longrightarrow>
   layersAccountedFor E w keyToUse (classifyLayer E layer i w key keyToUse st)"
  by (cases st) (auto simp: layersAccountedFor_def classifyLayer_def Let_def)

lemma collectLayers_accounted:
  "layersAccountedFor E w keyToUse st \<Longrightarrow>
   layersAccountedFor E w keyToUse (collectLayers E layers w key keyToUse n st)"
proof (induction n arbitrary: st)
  case 0
  then show ?case by simp
next
  case (Suc n)
  from Suc.prems have "layersAccountedFor E w keyToUse (classifyLayer E (layers ! n) n w key keyToUse st)"
    by (rule classifyLayer_accounted)
  then show ?case by (simp add: Suc.IH)
qed

lemma usableLayers_accounted:
  "layersAccountedFor E (width hf) (keyToUseFor key haeProfile) (usableLayers E layers hf key haeProfile)"
  unfolding usableLayers_def
  by (rule collectLayers_accounted) (simp add: layersAccountedFor_def)

text \<open>
  Claim C3. Let \<open>contenders\<close> and \<open>offsets\<close> be the layers that \<^verbatim>\<open>populateHeightfield\<close>
  collects for a tile. Each of them carries the best available key of its
  resolution-mapped key. When that key differs from the mapped key for every one of
  them (in particular when there is none), \<^verbatim>\<open>populateHeightfield\<close> returns \<^verbatim>\<open>false\<close> and
  the target raster is what it was before the call.
\<close>

theorem populate_declines_fallback_only:
  assumes usable: "usableLayers E layers hf key haeProfile = (contenders, offsets, numFallbackLayers)"
      and fallback: "\<forall>ld\<in>set (contenders @ offsets).
             ld_key ld \<noteq> mapResolution E (keyToUseFor key haeProfile) (width hf) (tileSize (ld_layer ld))"
  shows "(\<exists>exit. populateHeightfield E layers (Some hf) key haeProfile interpolation canceled =
                    Returns \<lparr>returned = False, hfOut = Some hf, exitPoint = exit\<rparr>) \<and>
         (\<forall>ld\<in>set (contenders @ offsets).
             ld_key ld = bestAvailableTileKey (ld_layer ld)
               (mapResolution E (keyToUseFor key haeProfile) (width hf) (tileSize (ld_layer ld))))"
proof -
  have acc: "layersAccountedFor E (width hf) (keyToUseFor key haeProfile)
               (contenders, offsets, numFallbackLayers)"
    using usableLayers_accounted [of E hf key haeProfile layers] usable by simp
  then have all: "\<forall>ld\<in>set (contenders @ offsets). ld_isFallback ld"
    using fallback by (auto simp: layersAccountedFor_def list_all_iff)
  then have "length (filter ld_isFallback (contenders @ offsets)) = length (contenders @ offsets)"
    by (simp only: filter_True)
  moreover from acc have "numFallbackLayers = length (filter ld_isFallback (contenders @ offsets))"
    by (simp add: layersAccountedFor_def)
  ultimately have "numFallbackLayers = length contenders + length offsets"
    by simp
  moreover have "\<forall>ld\<in>set (contenders @ offsets).
             ld_key ld = bestAvailableTileKey (ld_layer ld)
               (mapResolution E (keyToUseFor key haeProfile) (width hf) (tileSize (ld_layer ld)))"
    using acc by (auto simp: layersAccountedFor_def list_all_iff)
  ultimately show ?thesis
    using usable by (simp add: populateHeightfield_def)
qed

text \<open>
  A stack of one layer whose best available key for a level-1 tile is the level-0
  parent: the call returns \<^verbatim>\<open>false\<close> and the target keeps its sample.
\<close>

theorem populate_declines_fallback_only_witness:
  "usableLayers plainExternals [fallbackLayer 0 (rasterOf 1 1 [7])] (rasterOf 1 1 [1]) (tileAt 1 0)
       InvalidProfile =
     ([\<lparr>ld_layer = fallbackLayer 0 (rasterOf 1 1 [7]), ld_key = tileAt 0 0, ld_isFallback = True,
        ld_index = 0\<rparr>], [], 1) \<and>
   (\<exists>exit. populateHeightfield plainExternals [fallbackLayer 0 (rasterOf 1 1 [7])]
             (Some (rasterOf 1 1 [1])) (tileAt 1 0) InvalidProfile BILINEAR False =
           Returns \<lparr>returned = False, hfOut = Some (rasterOf 1 1 [1]), exitPoint = exit\<rparr>)"
proof -
  let ?ld = "\<lparr>ld_layer = fallbackLayer 0 (rasterOf 1 1 [7]), ld_key = tileAt 0 0, ld_isFallback = True,
        ld_index = 0\<rparr>"
  have usable: "usableLayers plainExternals [fallbackLayer 0 (rasterOf 1 1 [7])] (rasterOf 1 1 [1])
      (tileAt 1 0) InvalidProfile = ([?ld], [], 1)"
    by (simp add: collect_defs fixture_defs key_defs)
  have fallback: "\<forall>ld\<in>set ([?ld] @ []).
      ld_key ld \<noteq> mapResolution plainExternals (keyToUseFor (tileAt 1 0) InvalidProfile)
        (width (rasterOf 1 1 [1])) (tileSize (ld_layer ld))"
    by (simp add: collect_defs fixture_defs key_defs)
  from populate_declines_fallback_only [OF usable fallback, of BILINEAR False] usable
  show ?thesis by simp
qed

section \<open>The compositor: remaining sentinels\<close>

text \<open>
  Claim C10. When \<^verbatim>\<open>populateHeightfield\<close> returns through its last \<^verbatim>\<open>return\<close> (the call
  was not cancelled and did not bail out before sampling), the target is the sampled
  raster on which \<^verbatim>\<open>resolveInvalidHeights\<close> ran with a null geoid: every sample equal to
  the sentinel has become 0, the others are unchanged, and, the sentinel not being 0,
  no sample of the output equals the sentinel.
\<close>

theorem populate_resolves_nodata:
  assumes "populateHeightfield E layers hfPtr key haeProfile interpolation canceled = Returns out"
      and "exitPoint out = Completed"
      and "NO_DATA_VALUE E \<noteq> 0"
  shows "\<exists>hf contenders offsets n st.
           hfPtr = Some hf \<and> \<not> canceled \<and>
           usableLayers E layers hf key haeProfile = (contenders, offsets, n) \<and>
           sampleLayers E (heightAt E key (keyToUseFor key haeProfile) (width hf, height hf) interpolation)
             canceled contenders offsets hf = Returns (st, False) \<and>
           hfOut out = resolveInvalidHeights (Some (target st)) (NO_DATA_VALUE E) None \<and>
           hfOut out =
             Some ((target st)\<lparr>data := map (\<lambda>h. if h = NO_DATA_VALUE E then 0 else h) (data (target st))\<rparr>) \<and>
           (\<forall>h\<in>set (map (\<lambda>h. if h = NO_DATA_VALUE E then 0 else h) (data (target st))).
               h \<noteq> NO_DATA_VALUE E)"
  using assms
  by (auto simp: populateHeightfield_def Let_def resolveInvalidHeights_def
      split: option.splits prod.splits if_splits Outcome.splits)

text \<open>
  A one-sample tile whose only layer has no data there: the sentinel that the fast path
  copies into the target is replaced by 0.
\<close>

theorem populate_resolves_nodata_witness:
  "populateHeightfield plainExternals [rasterLayer 0 False (rasterOf 1 1 [- FLT_MAX])]
     (Some (rasterOf 1 1 [5])) (tileAt 0 0) InvalidProfile BILINEAR False =
     Returns \<lparr>returned = True, hfOut = Some (rasterOf 1 1 [0]), exitPoint = Completed\<rparr> \<and>
   (\<exists>st :: real SampleState.
          Some (rasterOf 1 1 [0]) =
          resolveInvalidHeights (Some (target st)) (NO_DATA_VALUE plainExternals) None)"
proof -
  let ?out = "\<lparr>returned = True, hfOut = Some (rasterOf 1 1 [0::real]), exitPoint = Completed\<rparr>"
  have run: "populateHeightfield plainExternals [rasterLayer 0 False (rasterOf 1 1 [- FLT_MAX])]
     (Some (rasterOf 1 1 [5])) (tileAt 0 0) InvalidProfile BILINEAR False = Returns ?out"
    by (simp add: populate_defs collect_defs pipeline_defs fixture_defs key_defs result_defs
          normalizePixels_eq Let_def)
  have finished: "exitPoint ?out = Completed"
    by simp
  have nd: "NO_DATA_VALUE plainExternals \<noteq> 0"
    by (simp add: fixture_defs)
  have "\<exists>st :: real SampleState.
          hfOut ?out = resolveInvalidHeights (Some (target st)) (NO_DATA_VALUE plainExternals) None"
    using populate_resolves_nodata [OF run finished nd]
    apply (elim exE conjE)
    apply (rule exI)
    apply assumption
    done
  then have "\<exists>st :: real SampleState.
          Some (rasterOf 1 1 [0]) =
          resolveInvalidHeights (Some (target st)) (NO_DATA_VALUE plainExternals) None"
    by simp
  with run show ?thesis by (rule conjI)
qed

section \<open>The compositor: contenders of a cell\<close>

subsection \<open>The parent walk of a contender\<close>

lemma contenderWalk_valid_start:
  "gh_valid h \<Longrightarrow> contenderWalk E L canceled h k = Returns (h, k)"
  by (subst contenderWalk.simps) simp

lemma contenderWalk_stop:
  "\<not> (key_valid k \<and> isKeyInLegalRange L k) \<Longrightarrow> contenderWalk E L canceled h k = Returns (h, k)"
  by (subst contenderWalk.simps) auto

lemma contenderWalk_step:
  "\<not> gh_valid h \<Longrightarrow> key_valid k \<Longrightarrow> isKeyInLegalRange L k \<Longrightarrow>
   contenderWalk E L canceled h k =
     (case createHeightfield E L k canceled of
        NullDereference \<Rightarrow> NullDereference
      | Returns fetched \<Rightarrow>
          contenderWalk E L canceled (result_value fetched)
            (if \<not> gh_valid (result_value fetched) then makeParent k else k))"
  by (subst contenderWalk.simps) (simp add: Let_def split: Outcome.splits)

lemma INVALID_not_valid [simp]: "\<not> gh_valid GeoHeightfield_INVALID"
  by (simp add: gh_valid_def GeoHeightfield_INVALID_def)

text \<open>The walk from an invalid raster does not depend on that raster, unless it stops at once.\<close>

lemma contenderWalk_start_irrelevant:
  assumes "\<not> gh_valid h"
  shows "contenderWalk E L canceled h k =
           (if key_valid k \<and> isKeyInLegalRange L k
            then contenderWalk E L canceled GeoHeightfield_INVALID k else Returns (h, k))"
  using assms by (auto simp: contenderWalk_step contenderWalk_stop)

text \<open>A walk that ends on a valid raster ends on a key where the fetch yields that raster.\<close>

lemma contenderWalk_found:
  "\<not> gh_valid h \<Longrightarrow> contenderWalk E L canceled h k = Returns (h', k') \<Longrightarrow> gh_valid h' \<Longrightarrow>
   key_valid k' \<and> isKeyInLegalRange L k' \<and>
   (\<exists>fetched. createHeightfield E L k' canceled = Returns fetched \<and> result_value fetched = h')"
proof (induction E L canceled h k rule: contenderWalk.induct)
  case (1 E L canceled h k)
  show ?case
  proof (cases "key_valid k \<and> isKeyInLegalRange L k")
    case False
    with "1.prems" show ?thesis by (auto simp: contenderWalk_stop)
  next
    case True
    with "1.prems"(1) have step: "contenderWalk E L canceled h k =
        (case createHeightfield E L k canceled of
           NullDereference \<Rightarrow> NullDereference
         | Returns fetched \<Rightarrow>
             contenderWalk E L canceled (result_value fetched)
               (if \<not> gh_valid (result_value fetched) then makeParent k else k))"
      by (simp add: contenderWalk_step)
    with "1.prems"(2) obtain fetched where f: "createHeightfield E L k canceled = Returns fetched"
      by (cases "createHeightfield E L k canceled") simp_all
    let ?f = "result_value fetched"
    show ?thesis
    proof (cases "gh_valid ?f")
      case valid: True
      have "contenderWalk E L canceled h k = contenderWalk E L canceled ?f k"
        using step f valid by simp
      also have "\<dots> = Returns (?f, k)"
        using valid by (rule contenderWalk_valid_start)
      finally have "Returns (h', k') = Returns (?f, k)"
        using "1.prems"(2) by simp
      then have "h' = ?f" "k' = k" by simp_all
      with True f show ?thesis by simp
    next
      case invalid: False
      with step f "1.prems"(2) have w: "contenderWalk E L canceled ?f (makeParent k) = Returns (h', k')"
        by simp
      have "\<not> gh_valid h \<and> key_valid k \<and> isKeyInLegalRange L k"
        using True "1.prems"(1) by simp
      from "1.IH" [OF this f refl refl invalid] w "1.prems"(3) invalid
      show ?thesis by simp
    qed
  qed
qed

lemma walkResult_at_found:
  assumes "key_valid k" "isKeyInLegalRange L k"
      and "createHeightfield E L k canceled = Returns fetched" "gh_valid (result_value fetched)"
  shows "walkResult E L canceled k = Some (result_value fetched)"
  using assms
  by (simp add: walkResult_def contenderWalk_step contenderWalk_valid_start)

text \<open>
  The outcome of a walk from an invalid raster, in terms of \<open>walkResult\<close>.
\<close>

lemma contenderWalk_outcome:
  assumes "\<not> gh_valid h" "contenderWalk E L canceled h k = Returns (h', k')"
  shows "if gh_valid h' then walkResult E L canceled k = Some h' \<and> walkResult E L canceled k' = Some h'
         else walkResult E L canceled k = None"
proof (cases "key_valid k \<and> isKeyInLegalRange L k")
  case False
  with assms show ?thesis
    by (auto simp: contenderWalk_stop walkResult_def)
next
  case True
  with assms have w: "contenderWalk E L canceled GeoHeightfield_INVALID k = Returns (h', k')"
    using contenderWalk_start_irrelevant [of h E L canceled k] by simp
  show ?thesis
  proof (cases "gh_valid h'")
    case False
    with w show ?thesis by (simp add: walkResult_def)
  next
    case valid: True
    from contenderWalk_found [OF assms valid]
    have "walkResult E L canceled k' = Some h'"
      using walkResult_at_found [of k' L E canceled] valid by auto
    with w valid show ?thesis by (simp add: walkResult_def)
  qed
qed


subsection \<open>Consistency of the local cache\<close>

lemma cacheConsistent_clearCache:
  "cacheConsistent E canceled contenders st \<Longrightarrow> cacheConsistent E canceled contenders (clearCache st)"
  by (auto simp: cacheConsistent_def clearCache_def entryConsistent_def)

lemma cacheConsistent_target [simp]:
  "cacheConsistent E canceled contenders (st\<lparr>target := t\<rparr>) = cacheConsistent E canceled contenders st"
  by (simp add: cacheConsistent_def)

lemma cacheConsistent_realData [simp]:
  "cacheConsistent E canceled contenders (st\<lparr>realData := b\<rparr>) = cacheConsistent E canceled contenders st"
  by (simp add: cacheConsistent_def)

lemma cacheConsistent_found:
  assumes "cacheConsistent E canceled contenders st" "i < length contenders"
      and "\<not> heightFailed st ! i"
      and "contenderSource E canceled (contenders ! i) = Some h'"
      and "walkResult E (ld_layer (contenders ! i)) canceled k' = Some h'"
  shows "cacheConsistent E canceled contenders
           (st\<lparr>heightfields := (heightfields st)[i := h'],
               heightfieldActualKeys := (heightfieldActualKeys st)[i := k'],
               heightFallback := (heightFallback st)[i := b],
               numHeightfieldsInCache := m\<rparr>)"
  using assms
  by (auto simp: cacheConsistent_def entryConsistent_def nth_list_update)

lemma cacheConsistent_failed:
  assumes "cacheConsistent E canceled contenders st" "i < length contenders"
      and "contenderSource E canceled (contenders ! i) = None"
  shows "cacheConsistent E canceled contenders
           (st\<lparr>heightfields := (heightfields st)[i := h'],
               heightfieldActualKeys := (heightfieldActualKeys st)[i := k'],
               heightFailed := (heightFailed st)[i := True]\<rparr>)"
  using assms
  by (auto simp: cacheConsistent_def entryConsistent_def nth_list_update)

lemma clearCache_fields [simp]:
  "target (clearCache st) = target st" "realData (clearCache st) = realData st"
  "offsetfields (clearCache st) = offsetfields st" "offsetFailed (clearCache st) = offsetFailed st"
  "heightFailed (clearCache st) = heightFailed st"
  by (simp_all add: clearCache_def)

text \<open>Fetching: the three ways through \<open>fetchContender\<close>.\<close>

lemma fetchContender_effect:
  assumes inv: "cacheConsistent E canceled contenders st" and i: "i < length contenders"
      and nf: "\<not> heightFailed st ! i"
      and f: "fetchContender E canceled (contenders ! i) i st = Returns (st1, goOn)"
  shows "cacheConsistent E canceled contenders st1"
    and "target st1 = target st" and "realData st1 = realData st"
    and "offsetfields st1 = offsetfields st" and "offsetFailed st1 = offsetFailed st"
    and "if goOn then contenderSource E canceled (contenders ! i) = Some (heightfields st1 ! i)
         else contenderSource E canceled (contenders ! i) = None"
proof -
  let ?ld = "contenders ! i"
  from inv i have entry: "entryConsistent E canceled ?ld (heightfields st ! i)
      (heightfieldActualKeys st ! i) (heightFailed st ! i)"
    by (simp add: cacheConsistent_def)
  from inv i have len: "i < length (heightfields st)" by (simp add: cacheConsistent_def)
  have "cacheConsistent E canceled contenders st1 \<and> target st1 = target st \<and>
        realData st1 = realData st \<and>
        offsetfields st1 = offsetfields st \<and> offsetFailed st1 = offsetFailed st \<and>
        (if goOn then contenderSource E canceled ?ld = Some (heightfields st1 ! i)
         else contenderSource E canceled ?ld = None)"
  proof (cases "gh_valid (heightfields st ! i)")
    case True
    with f have "st1 = st" "goOn" by (simp_all add: fetchContender_def)
    with inv entry nf True show ?thesis by (simp add: entryConsistent_def)
  next
    case False
    from f False obtain h' k' where w: "contenderWalk E (ld_layer ?ld) canceled (heightfields st ! i)
        (heightfieldActualKeys st ! i) = Returns (h', k')"
      by (cases "contenderWalk E (ld_layer ?ld) canceled (heightfields st ! i)
        (heightfieldActualKeys st ! i)") (auto simp: fetchContender_def)
    from entry nf have src: "walkResult E (ld_layer ?ld) canceled (heightfieldActualKeys st ! i) =
        contenderSource E canceled ?ld"
      by (simp add: entryConsistent_def)
    note out = contenderWalk_outcome [OF False w]
    show ?thesis
    proof (cases "gh_valid h'")
      case valid: True
      with out src have s: "contenderSource E canceled ?ld = Some h'"
        and k: "walkResult E (ld_layer ?ld) canceled k' = Some h'"
        by simp_all
      from f False w valid have st1: "st1 = st\<lparr>heightfields := (heightfields st)[i := h'],
               heightfieldActualKeys := (heightfieldActualKeys st)[i := k'],
               heightFallback := (heightFallback st)[i := (ld_isFallback ?ld \<or> k' \<noteq> ld_key ?ld)],
               numHeightfieldsInCache := numHeightfieldsInCache st + 1\<rparr>" and g: "goOn"
        by (simp_all add: fetchContender_def)
      have "cacheConsistent E canceled contenders st1"
        unfolding st1 using inv i nf s k by (rule cacheConsistent_found)
      with s g len show ?thesis by (simp add: st1)
    next
      case invalid: False
      with out src have s: "contenderSource E canceled ?ld = None" by simp
      from f False w invalid have st1: "st1 = st\<lparr>heightfields := (heightfields st)[i := h'],
               heightfieldActualKeys := (heightfieldActualKeys st)[i := k'],
               heightFailed := (heightFailed st)[i := True]\<rparr>" and g: "\<not> goOn"
        by (simp_all add: fetchContender_def)
      have "cacheConsistent E canceled contenders st1"
        unfolding st1 using inv i s by (rule cacheConsistent_failed)
      with s g show ?thesis by (simp add: st1)
    qed
  qed
  then show "cacheConsistent E canceled contenders st1"
    and "target st1 = target st" and "realData st1 = realData st"
    and "offsetfields st1 = offsetfields st" and "offsetFailed st1 = offsetFailed st"
    and "if goOn then contenderSource E canceled (contenders ! i) = Some (heightfields st1 ! i)
         else contenderSource E canceled (contenders ! i) = None"
    by simp_all
qed

text \<open>The body of the contender loop on a consistent cache.\<close>

lemma contenderBody_effect:
  assumes inv: "cacheConsistent E canceled contenders st" and i: "i < length contenders"
      and body: "contenderBody E sample canceled c r (contenders ! i) i st res = Returns (st', res')"
  shows "cacheConsistent E canceled contenders st'"
    and "offsetfields st' = offsetfields st" and "offsetFailed st' = offsetFailed st"
    and "if contenderYields E sample canceled c r (contenders ! i)
         then res' = int (ld_index (contenders ! i)) \<and>
              target st' = writeCell (target st) c r (contenderSample E sample canceled c r (contenders ! i))
         else res' = res \<and> target st' = target st"
proof -
  let ?ld = "contenders ! i"
  have "cacheConsistent E canceled contenders st' \<and>
        offsetfields st' = offsetfields st \<and> offsetFailed st' = offsetFailed st \<and>
        (if contenderYields E sample canceled c r ?ld
         then res' = int (ld_index ?ld) \<and>
              target st' = writeCell (target st) c r (contenderSample E sample canceled c r ?ld)
         else res' = res \<and> target st' = target st)"
  proof (cases "heightFailed st ! i")
    case True
    with body have "st' = st" "res' = res" by (simp_all add: contenderBody_def)
    moreover from inv i True have "contenderSource E canceled ?ld = None"
      by (simp add: cacheConsistent_def entryConsistent_def)
    ultimately show ?thesis using inv by (simp add: contenderYields_def)
  next
    case False
    from body False obtain st1 goOn where f: "fetchContender E canceled ?ld i st = Returns (st1, goOn)"
      by (cases "fetchContender E canceled ?ld i st") (auto simp: contenderBody_def)
    note fe = fetchContender_effect [OF inv i False f]
    show ?thesis
    proof (cases goOn)
      case stop: False
      with body False f have "st' = st1" "res' = res" by (simp_all add: contenderBody_def)
      with fe stop show ?thesis by (simp add: contenderYields_def)
    next
      case True
      with fe have src: "contenderSource E canceled ?ld = Some (heightfields st1 ! i)" by simp
      from inv i fe(1) have entry: "entryConsistent E canceled ?ld (heightfields st1 ! i)
          (heightfieldActualKeys st1 ! i) (heightFailed st1 ! i)"
        by (simp add: cacheConsistent_def)
      have valid: "gh_valid (heightfields st1 ! i)"
        using src contenderWalk_outcome
        by (auto simp: contenderSource_def walkResult_def split: prod.splits if_splits Outcome.splits)
      obtain st2 res2 where s: "sampleContender E sample c r ?ld i st1 res = (st2, res2)"
        by (cases "sampleContender E sample c r ?ld i st1 res")
      from body False f True s have st': "st' = clearCache st2" "res' = res2"
        by (simp_all add: contenderBody_def)
      show ?thesis
      proof (cases "sample (heightfields st1 ! i) c r = NO_DATA_VALUE E")
        case nodata: True
        with s valid have "st2 = (if \<not> heightFallback st1 ! i then st1\<lparr>realData := True\<rparr> else st1)"
            "res2 = res"
          by (simp_all add: sampleContender_def Let_def)
        with st' fe src nodata show ?thesis
          by (auto simp: contenderYields_def intro: cacheConsistent_clearCache)
      next
        case data: False
        with s valid have "st2 = (if \<not> heightFallback st1 ! i then st1\<lparr>realData := True\<rparr> else st1)
              \<lparr>target := writeCell (target st1) c r (sample (heightfields st1 ! i) c r)\<rparr>"
            "res2 = int (ld_index ?ld)"
          by (auto simp: sampleContender_def Let_def)
        with st' fe src data show ?thesis
          by (auto simp: contenderYields_def contenderSample_def intro: cacheConsistent_clearCache)
      qed
    qed
  qed
  then show "cacheConsistent E canceled contenders st'"
    and "offsetfields st' = offsetfields st" and "offsetFailed st' = offsetFailed st"
    and "if contenderYields E sample canceled c r (contenders ! i)
         then res' = int (ld_index (contenders ! i)) \<and>
              target st' = writeCell (target st) c r (contenderSample E sample canceled c r (contenders ! i))
         else res' = res \<and> target st' = target st"
    by simp_all
qed


subsection \<open>The contender loop\<close>

lemma contenderLoop_resolved:
  "0 \<le> res \<Longrightarrow> contenderLoop E sample canceled c r lds i st res = Returns (st, res)"
  by (cases lds) auto

lemma drop_eq_ConsD:
  assumes "drop i xs = y # ys"
  shows "i < length xs" "xs ! i = y" "drop (Suc i) xs = ys"
proof -
  show len: "i < length xs" using assms by (cases "i < length xs") auto
  from len have "drop i xs = xs ! i # drop (Suc i) xs" by (rule Cons_nth_drop_Suc [symmetric])
  with assms show "xs ! i = y" "drop (Suc i) xs = ys" by simp_all
qed

lemma contenderLoop_effect:
  assumes "cacheConsistent E canceled contenders st" "drop i contenders = lds"
      and "contenderLoop E sample canceled c r lds i st (- 1) = Returns (st', res)"
  shows "cacheConsistent E canceled contenders st' \<and>
         offsetfields st' = offsetfields st \<and> offsetFailed st' = offsetFailed st \<and>
         (case find (contenderYields E sample canceled c r) lds of
            None \<Rightarrow> res = - 1 \<and> target st' = target st
          | Some A \<Rightarrow> res = int (ld_index A) \<and>
              target st' = writeCell (target st) c r (contenderSample E sample canceled c r A))"
  using assms
proof (induction lds arbitrary: i st)
  case Nil
  then show ?case by simp
next
  case (Cons ld lds)
  from Cons.prems(2) have i: "i < length contenders" and ld: "contenders ! i = ld"
    and rest: "drop (Suc i) contenders = lds"
    by (rule drop_eq_ConsD)+
  from Cons.prems(3) ld obtain st1 res1 where
    b: "contenderBody E sample canceled c r (contenders ! i) i st (- 1) = Returns (st1, res1)"
    by (cases "contenderBody E sample canceled c r (contenders ! i) i st (- 1)") auto
  note be = contenderBody_effect [OF Cons.prems(1) i b]
  from Cons.prems(3) b ld
  have loop: "contenderLoop E sample canceled c r lds (Suc i) st1 res1 = Returns (st', res)"
    by simp
  show ?case
  proof (cases "contenderYields E sample canceled c r ld")
    case True
    with be ld have r1: "res1 = int (ld_index ld)"
      and t1: "target st1 = writeCell (target st) c r (contenderSample E sample canceled c r ld)"
      by simp_all
    from r1 have "0 \<le> res1" by simp
    with loop have "st' = st1" "res = res1" by (simp_all add: contenderLoop_resolved)
    with be r1 t1 True show ?thesis by simp
  next
    case False
    with be ld have r1: "res1 = - 1" and t1: "target st1 = target st" by simp_all
    from Cons.IH [OF be(1) rest] loop r1
    have "cacheConsistent E canceled contenders st' \<and>
         offsetfields st' = offsetfields st1 \<and> offsetFailed st' = offsetFailed st1 \<and>
         (case find (contenderYields E sample canceled c r) lds of
            None \<Rightarrow> res = - 1 \<and> target st' = target st1
          | Some A \<Rightarrow> res = int (ld_index A) \<and>
              target st' = writeCell (target st1) c r (contenderSample E sample canceled c r A))"
      by simp
    with be t1 False show ?thesis by (simp split: option.splits)
  qed
qed

lemma find_highest:
  assumes "sorted_wrt (\<lambda>a b. f b < f a) xs" "A \<in> set xs" "P A"
      and "\<forall>C\<in>set xs. f A < f C \<longrightarrow> \<not> P C"
  shows "find P xs = Some A"
  using assms
proof (induction xs)
  case Nil
  then show ?case by simp
next
  case (Cons x xs)
  show ?case
  proof (cases "x = A")
    case True
    with Cons.prems show ?thesis by simp
  next
    case False
    with Cons.prems have "A \<in> set xs" by simp
    with Cons.prems(1) have "f A < f x" by auto
    with Cons.prems(4) have "\<not> P x" by simp
    moreover from Cons.prems \<open>A \<in> set xs\<close> have "find P xs = Some A"
      by (intro Cons.IH) auto
    ultimately show ?thesis by simp
  qed
qed

subsection \<open>Order of the collected layers\<close>

lemma stackOrdered_mono: "stackOrdered layers (Suc n) lds \<Longrightarrow> stackOrdered layers n lds"
  by (auto simp: stackOrdered_def list_all_iff)

lemma stackOrdered_snoc:
  assumes "stackOrdered layers (Suc n) lds" "n < length layers"
  shows "stackOrdered layers n (lds @ [\<lparr>ld_layer = layers ! n, ld_key = k, ld_isFallback = b, ld_index = n\<rparr>])"
  using assms by (auto simp: stackOrdered_def list_all_iff sorted_wrt_append)

lemma classifyLayer_ordered:
  assumes "stackOrdered layers (Suc n) contenders" "stackOrdered layers (Suc n) offsets"
      and "n < length layers"
      and "classifyLayer E (layers ! n) n w key keyToUse (contenders, offsets, m) = (contenders', offsets', m')"
  shows "stackOrdered layers n contenders' \<and> stackOrdered layers n offsets'"
  using assms
  by (auto simp: classifyLayer_def Let_def split: if_splits
      intro: stackOrdered_mono stackOrdered_snoc)

lemma collectLayers_ordered:
  assumes "stackOrdered layers n contenders" "stackOrdered layers n offsets" "n \<le> length layers"
      and "collectLayers E layers w key keyToUse n (contenders, offsets, m) = (contenders', offsets', m')"
  shows "stackOrdered layers 0 contenders' \<and> stackOrdered layers 0 offsets'"
  using assms
proof (induction n arbitrary: contenders offsets m)
  case 0
  then show ?case by simp
next
  case (Suc n)
  obtain cs os k where c: "classifyLayer E (layers ! n) n w key keyToUse (contenders, offsets, m) = (cs, os, k)"
    by (cases "classifyLayer E (layers ! n) n w key keyToUse (contenders, offsets, m)")
  from Suc.prems(3) have n: "n < length layers" by simp
  from classifyLayer_ordered [OF Suc.prems(1,2) n c]
  have "stackOrdered layers n cs" "stackOrdered layers n os" by simp_all
  moreover from Suc.prems(4) c
  have "collectLayers E layers w key keyToUse n (cs, os, k) = (contenders', offsets', m')" by simp
  ultimately show ?case using n by (intro Suc.IH) simp_all
qed

lemma usableLayers_ordered:
  assumes "usableLayers E layers hf key haeProfile = (contenders, offsets, m)"
  shows "stackOrdered layers 0 contenders" "stackOrdered layers 0 offsets"
proof -
  have "stackOrdered layers (length layers) []" by (simp add: stackOrdered_def)
  from collectLayers_ordered [OF this this le_refl assms [unfolded usableLayers_def]]
  show "stackOrdered layers 0 contenders" "stackOrdered layers 0 offsets" by simp_all
qed

lemma cacheConsistent_initial:
  "cacheConsistent E canceled contenders (initialState hf contenders offsets rd)"
  by (simp add: cacheConsistent_def initialState_def entryConsistent_def contenderSource_def)

text \<open>
  Claim C2, as amended. Let \<open>contenders\<close> be the contenders that \<^verbatim>\<open>populateHeightfield\<close>
  collects, and let the local cache be consistent with them, as it is at every cell of
  the resampling loop (it is so in the initial state, and the loops of a cell keep it
  so). If contender \<open>A\<close> yields a sample at cell \<open>(c, r)\<close> and no contender at a later stack
  position yields one there, then the contender loop of that cell, once it returns,
  has resolved to \<open>A\<close> and written the sample of \<open>A\<close> into the cell, and nothing else
  into the target: the cell never receives the sample of a contender below \<open>A\<close>.
\<close>

theorem highest_contender_wins:
  assumes usable: "usableLayers E layers hf key haeProfile = (contenders, offsets, n)"
      and inv: "cacheConsistent E canceled contenders st"
      and A: "A \<in> set contenders" "contenderYields E sample canceled c r A"
      and top: "\<forall>C\<in>set contenders. ld_index A < ld_index C \<longrightarrow> \<not> contenderYields E sample canceled c r C"
      and run: "contenderLoop E sample canceled c r contenders 0 st (- 1) = Returns (st', resolvedIndex)"
  shows "resolvedIndex = int (ld_index A) \<and>
         target st' = writeCell (target st) c r (contenderSample E sample canceled c r A) \<and>
         ld_layer A = layers ! ld_index A"
proof -
  from usableLayers_ordered(1) [OF usable]
  have sorted: "sorted_wrt (\<lambda>a b. ld_index b < ld_index a) contenders"
    and lay: "\<forall>ld\<in>set contenders. ld_layer ld = layers ! ld_index ld"
    by (auto simp: stackOrdered_def list_all_iff)
  from find_highest [OF sorted A top]
  have f: "find (contenderYields E sample canceled c r) contenders = Some A" .
  have "drop 0 contenders = contenders" by simp
  from contenderLoop_effect [OF inv this run] f lay A(1)
  show ?thesis by simp
qed


text \<open>
  Two contenders over a one-sample tile, with samples 10 (stack position 0) and 20
  (stack position 1): the cell receives 20.
\<close>

theorem highest_contender_wins_witness:
  "\<exists>st' :: real SampleState.
      contenderLoop plainExternals
        (heightAt plainExternals (tileAt 0 0) (tileAt 0 0) (1, 1) BILINEAR) False 0 0
        [\<lparr>ld_layer = rasterLayer 0 False (rasterOf 1 1 [20]), ld_key = tileAt 0 0,
           ld_isFallback = False, ld_index = 1\<rparr>,
         \<lparr>ld_layer = rasterLayer 0 False (rasterOf 1 1 [10]), ld_key = tileAt 0 0,
           ld_isFallback = False, ld_index = 0\<rparr>] 0
        (initialState (rasterOf 1 1 [5])
           [\<lparr>ld_layer = rasterLayer 0 False (rasterOf 1 1 [20]), ld_key = tileAt 0 0,
              ld_isFallback = False, ld_index = 1\<rparr>,
            \<lparr>ld_layer = rasterLayer 0 False (rasterOf 1 1 [10]), ld_key = tileAt 0 0,
              ld_isFallback = False, ld_index = 0\<rparr>] [] False) (- 1) = Returns (st', 1) \<and>
      target st' = rasterOf 1 1 [20]"
proof -
  let ?sample = "heightAt plainExternals (tileAt 0 0) (tileAt 0 0) (1, 1) BILINEAR"
  let ?A = "\<lparr>ld_layer = rasterLayer 0 False (rasterOf 1 1 [20]), ld_key = tileAt 0 0,
           ld_isFallback = False, ld_index = 1\<rparr>"
  let ?B = "\<lparr>ld_layer = rasterLayer 0 False (rasterOf 1 1 [10]), ld_key = tileAt 0 0,
           ld_isFallback = False, ld_index = 0\<rparr>"
  let ?st = "initialState (rasterOf 1 1 [5]) [?A, ?B] [] False"
  have usable: "usableLayers plainExternals
      [rasterLayer 0 False (rasterOf 1 1 [10]), rasterLayer 0 False (rasterOf 1 1 [20])]
      (rasterOf 1 1 [5]) (tileAt 0 0) InvalidProfile = ([?A, ?B], [], 0)"
    by (simp add: collect_defs collectLayers_numeral fixture_defs key_defs)
  have inv: "cacheConsistent plainExternals False [?A, ?B] ?st"
    by (rule cacheConsistent_initial)
  have A: "?A \<in> set [?A, ?B]" by simp
  have src: "contenderSource plainExternals False ?A =
      Some \<lparr>heightfield = Some (rasterOf 1 1 [20]), extent = key_extent (tileAt 0 0)\<rparr>"
    by (simp add: contenderSource_def walkResult_def contenderWalk.simps pipeline_defs fixture_defs
          key_defs result_defs normalizePixels_eq Let_def)
  have yields: "contenderYields plainExternals ?sample False 0 0 ?A"
    unfolding contenderYields_def src by (simp add: fixture_defs heightAtCell_def)
  have top: "\<forall>C\<in>set [?A, ?B]. ld_index ?A < ld_index C \<longrightarrow>
      \<not> contenderYields plainExternals ?sample False 0 0 C"
    by simp
  have "\<exists>st' res. contenderLoop plainExternals ?sample False 0 0 [?A, ?B] 0 ?st (- 1) = Returns (st', res)"
    by (simp add: populate_defs pipeline_defs fixture_defs key_defs result_defs normalizePixels_eq
          contenderWalk.simps Let_def)
  then obtain st' res where
    run: "contenderLoop plainExternals ?sample False 0 0 [?A, ?B] 0 ?st (- 1) = Returns (st', res)"
    by blast
  from highest_contender_wins [OF usable inv A yields top run]
  have "res = int (ld_index ?A)"
    "target st' = writeCell (target ?st) 0 0 (contenderSample plainExternals ?sample False 0 0 ?A)"
    by simp_all
  moreover have "contenderSample plainExternals ?sample False 0 0 ?A = 20"
    unfolding contenderSample_def src by (simp add: fixture_defs heightAtCell_def)
  ultimately have "res = 1" "target st' = rasterOf 1 1 [20]"
    by (simp_all add: initialState_def writeCell_def rasterOf_def)
  with run show ?thesis by (intro exI [of _ st']) simp
qed

text \<open>
  The claim as stated fails with three contenders. Over a one-sample tile, with samples
  10, 20 and 30 at the stack positions 0, 1 and 2, the contender at position 1 and the
  one at position 0 both yield a sample, the former is above the latter, and its sample
  is 20; the cell receives 30.
\<close>

theorem highest_contender_counterexample:
  "usableLayers plainExternals
      [rasterLayer 0 False (rasterOf 1 1 [10]), rasterLayer 0 False (rasterOf 1 1 [20]),
       rasterLayer 0 False (rasterOf 1 1 [30])]
      (rasterOf 1 1 [5]) (tileAt 0 0) InvalidProfile =
     ([\<lparr>ld_layer = rasterLayer 0 False (rasterOf 1 1 [30]), ld_key = tileAt 0 0,
         ld_isFallback = False, ld_index = 2\<rparr>,
       \<lparr>ld_layer = rasterLayer 0 False (rasterOf 1 1 [20]), ld_key = tileAt 0 0,
         ld_isFallback = False, ld_index = 1\<rparr>,
       \<lparr>ld_layer = rasterLayer 0 False (rasterOf 1 1 [10]), ld_key = tileAt 0 0,
         ld_isFallback = False, ld_index = 0\<rparr>], [], 0) \<and>
   contenderYields plainExternals (heightAt plainExternals (tileAt 0 0) (tileAt 0 0) (1, 1) BILINEAR)
     False 0 0
     \<lparr>ld_layer = rasterLayer 0 False (rasterOf 1 1 [20]), ld_key = tileAt 0 0,
       ld_isFallback = False, ld_index = 1\<rparr> \<and>
   contenderSample plainExternals (heightAt plainExternals (tileAt 0 0) (tileAt 0 0) (1, 1) BILINEAR)
     False 0 0
     \<lparr>ld_layer = rasterLayer 0 False (rasterOf 1 1 [20]), ld_key = tileAt 0 0,
       ld_isFallback = False, ld_index = 1\<rparr> = 20 \<and>
   contenderYields plainExternals (heightAt plainExternals (tileAt 0 0) (tileAt 0 0) (1, 1) BILINEAR)
     False 0 0
     \<lparr>ld_layer = rasterLayer 0 False (rasterOf 1 1 [10]), ld_key = tileAt 0 0,
       ld_isFallback = False, ld_index = 0\<rparr> \<and>
   populateHeightfield plainExternals
      [rasterLayer 0 False (rasterOf 1 1 [10]), rasterLayer 0 False (rasterOf 1 1 [20]),
       rasterLayer 0 False (rasterOf 1 1 [30])]
      (Some (rasterOf 1 1 [5])) (tileAt 0 0) InvalidProfile BILINEAR False =
     Returns \<lparr>returned = True, hfOut = Some (rasterOf 1 1 [30]), exitPoint = Completed\<rparr>"
proof -
  have src: "contenderSource plainExternals False
      \<lparr>ld_layer = rasterLayer 0 False (rasterOf 1 1 [20]), ld_key = tileAt 0 0,
        ld_isFallback = False, ld_index = 1\<rparr> =
      Some \<lparr>heightfield = Some (rasterOf 1 1 [20]), extent = key_extent (tileAt 0 0)\<rparr>"
    "contenderSource plainExternals False
      \<lparr>ld_layer = rasterLayer 0 False (rasterOf 1 1 [10]), ld_key = tileAt 0 0,
        ld_isFallback = False, ld_index = 0\<rparr> =
      Some \<lparr>heightfield = Some (rasterOf 1 1 [10]), extent = key_extent (tileAt 0 0)\<rparr>"
    by (simp_all add: contenderSource_def walkResult_def contenderWalk.simps pipeline_defs fixture_defs
          key_defs result_defs normalizePixels_eq Let_def)
  have "contenderYields plainExternals (heightAt plainExternals (tileAt 0 0) (tileAt 0 0) (1, 1) BILINEAR)
     False 0 0
     \<lparr>ld_layer = rasterLayer 0 False (rasterOf 1 1 [20]), ld_key = tileAt 0 0,
       ld_isFallback = False, ld_index = 1\<rparr>"
   "contenderSample plainExternals (heightAt plainExternals (tileAt 0 0) (tileAt 0 0) (1, 1) BILINEAR)
     False 0 0
     \<lparr>ld_layer = rasterLayer 0 False (rasterOf 1 1 [20]), ld_key = tileAt 0 0,
       ld_isFallback = False, ld_index = 1\<rparr> = 20"
   "contenderYields plainExternals (heightAt plainExternals (tileAt 0 0) (tileAt 0 0) (1, 1) BILINEAR)
     False 0 0
     \<lparr>ld_layer = rasterLayer 0 False (rasterOf 1 1 [10]), ld_key = tileAt 0 0,
       ld_isFallback = False, ld_index = 0\<rparr>"
    unfolding contenderYields_def contenderSample_def src
    by (simp_all add: fixture_defs heightAtCell_def)
  moreover have "usableLayers plainExternals
      [rasterLayer 0 False (rasterOf 1 1 [10]), rasterLayer 0 False (rasterOf 1 1 [20]),
       rasterLayer 0 False (rasterOf 1 1 [30])]
      (rasterOf 1 1 [5]) (tileAt 0 0) InvalidProfile =
     ([\<lparr>ld_layer = rasterLayer 0 False (rasterOf 1 1 [30]), ld_key = tileAt 0 0,
         ld_isFallback = False, ld_index = 2\<rparr>,
       \<lparr>ld_layer = rasterLayer 0 False (rasterOf 1 1 [20]), ld_key = tileAt 0 0,
         ld_isFallback = False, ld_index = 1\<rparr>,
       \<lparr>ld_layer = rasterLayer 0 False (rasterOf 1 1 [10]), ld_key = tileAt 0 0,
         ld_isFallback = False, ld_index = 0\<rparr>], [], 0)"
    by (simp add: collect_defs collectLayers_numeral fixture_defs key_defs)
  moreover have "populateHeightfield plainExternals
      [rasterLayer 0 False (rasterOf 1 1 [10]), rasterLayer 0 False (rasterOf 1 1 [20]),
       rasterLayer 0 False (rasterOf 1 1 [30])]
      (Some (rasterOf 1 1 [5])) (tileAt 0 0) InvalidProfile BILINEAR False =
     Returns \<lparr>returned = True, hfOut = Some (rasterOf 1 1 [30]), exitPoint = Completed\<rparr>"
    by (simp add: populate_defs collect_defs collectLayers_numeral pipeline_defs fixture_defs key_defs
          result_defs normalizePixels_eq contenderWalk.simps Let_def)
  ultimately show ?thesis by simp
qed

section \<open>The compositor: offsets of a cell\<close>

lemma writeCell_overwrite [simp]: "writeCell (writeCell t c r a) c r b = writeCell t c r b"
  by (simp add: writeCell_def)

lemma heightAtCell_writeCell:
  "r * width t + c < length (data t) \<Longrightarrow> heightAtCell (writeCell t c r a) c r = a"
  by (simp add: writeCell_def heightAtCell_def)

lemma writeCell_beyond: "\<not> r * width t + c < length (data t) \<Longrightarrow> writeCell t c r a = t"
  by (simp add: writeCell_def not_less list_update_beyond)

lemma writeCell_same [simp]: "writeCell t c r (heightAtCell t c r) = t"
  by (simp add: writeCell_def heightAtCell_def)

lemma writeCell_dims [simp]:
  "width (writeCell t c r a) = width t" "height (writeCell t c r a) = height t"
  "length (data (writeCell t c r a)) = length (data t)"
  by (simp_all add: writeCell_def)

lemma offsetsConsistent_target [simp]:
  "offsetsConsistent E canceled offsets (st\<lparr>target := t\<rparr>) = offsetsConsistent E canceled offsets st"
  by (simp add: offsetsConsistent_def)

lemma offsetsConsistent_realData [simp]:
  "offsetsConsistent E canceled offsets (st\<lparr>realData := b\<rparr>) = offsetsConsistent E canceled offsets st"
  by (simp add: offsetsConsistent_def)

lemma offsetsConsistent_cong:
  "offsetfields st' = offsetfields st \<Longrightarrow> offsetFailed st' = offsetFailed st \<Longrightarrow>
   offsetsConsistent E canceled offsets st' = offsetsConsistent E canceled offsets st"
  by (simp add: offsetsConsistent_def)

lemma cacheConsistent_cong:
  "heightfields st' = heightfields st \<Longrightarrow> heightfieldActualKeys st' = heightfieldActualKeys st \<Longrightarrow>
   heightFallback st' = heightFallback st \<Longrightarrow> heightFailed st' = heightFailed st \<Longrightarrow>
   cacheConsistent E canceled contenders st' = cacheConsistent E canceled contenders st"
  by (simp add: cacheConsistent_def)

text \<open>The body of the offset loop on consistent offset rasters.\<close>

lemma offsetSource_fetched:
  "createHeightfield E (ld_layer ld) (ld_key ld) canceled = Returns fetched \<Longrightarrow>
   offsetSource E canceled ld = result_value fetched"
  by (simp add: offsetSource_def)

lemma offsetBody_effect:
  assumes inv: "offsetsConsistent E canceled offsets st" and i: "i < length offsets"
      and body: "offsetBody E sample canceled c r offsets i st res = Returns st'"
  shows "offsetsConsistent E canceled offsets st'"
    and "heightfields st' = heightfields st" and "heightfieldActualKeys st' = heightfieldActualKeys st"
    and "heightFallback st' = heightFallback st" and "heightFailed st' = heightFailed st"
    and "target st' =
           (if offsetApplies E sample canceled c r res (offsets ! i)
            then writeCell (target st) c r
                   (heightAtCell (target st) c r + sample (offsetSource E canceled (offsets ! i)) c r)
            else target st)"
proof -
  let ?ld = "offsets ! i"
  let ?src = "offsetSource E canceled ?ld"
  from inv i have len: "i < length (offsetfields st)" "i < length (offsetFailed st)"
    and failed: "offsetFailed st ! i \<Longrightarrow> \<not> gh_valid ?src"
    and cached: "gh_valid (offsetfields st ! i) \<Longrightarrow> offsetfields st ! i = ?src"
    by (auto simp: offsetsConsistent_def split: if_splits)
  have "offsetsConsistent E canceled offsets st' \<and>
        heightfields st' = heightfields st \<and> heightfieldActualKeys st' = heightfieldActualKeys st \<and>
        heightFallback st' = heightFallback st \<and> heightFailed st' = heightFailed st \<and>
        target st' =
           (if offsetApplies E sample canceled c r res ?ld
            then writeCell (target st) c r (heightAtCell (target st) c r + sample ?src c r)
            else target st)"
  proof (cases "res \<ge> 0 \<and> int (ld_index ?ld) < res")
    case True
    with body have "st' = st" by (simp add: offsetBody_def)
    with True inv show ?thesis by (auto simp: offsetApplies_def)
  next
    case below: False
    show ?thesis
    proof (cases "offsetFailed st ! i")
      case True
      with below body have "st' = st" by (auto simp: offsetBody_def split: if_splits)
      with True inv failed show ?thesis by (auto simp: offsetApplies_def)
    next
      case nf: False
      show ?thesis
      proof (cases "gh_valid (offsetfields st ! i)")
        case True
        with cached have eq: "offsetfields st ! i = ?src" by simp
        with True have v: "gh_valid ?src" by simp
        from below nf True eq body have "st' =
            (if sample ?src c r \<noteq> NO_DATA_VALUE E \<and> \<not> equiv E (sample ?src c r) 0
             then st\<lparr>realData := True,
                     target := writeCell (target st) c r (heightAtCell (target st) c r + sample ?src c r)\<rparr>
             else st\<lparr>realData := True\<rparr>)"
          by (auto simp: offsetBody_def Let_def)
        with inv below v show ?thesis by (auto simp: offsetApplies_def)
      next
        case False
        from below nf False body obtain fetched where
          f: "createHeightfield E (ld_layer ?ld) (ld_key ?ld) canceled = Returns fetched"
          by (cases "createHeightfield E (ld_layer ?ld) (ld_key ?ld) canceled")
             (auto simp: offsetBody_def)
        then have src: "result_value fetched = ?src"
          by (simp add: offsetSource_fetched)
        show ?thesis
        proof (cases "gh_valid ?src")
          case v: True
          from below nf False v body have "st' =
            (if sample ?src c r \<noteq> NO_DATA_VALUE E \<and> \<not> equiv E (sample ?src c r) 0
             then st\<lparr>offsetfields := (offsetfields st)[i := ?src], realData := True,
                     target := writeCell (target st) c r (heightAtCell (target st) c r + sample ?src c r)\<rparr>
             else st\<lparr>offsetfields := (offsetfields st)[i := ?src], realData := True\<rparr>)"
            using len by (auto simp: offsetBody_def Let_def f src)
          moreover have "offsetsConsistent E canceled offsets (st\<lparr>offsetfields := (offsetfields st)[i := ?src]\<rparr>)"
            using inv i by (auto simp: offsetsConsistent_def nth_list_update)
          ultimately show ?thesis using below v by (auto simp: offsetApplies_def)
        next
          case iv: False
          from below nf False iv body have "st' = st\<lparr>offsetfields := (offsetfields st)[i := ?src],
                  offsetFailed := (offsetFailed st)[i := True]\<rparr>"
            by (auto simp: offsetBody_def Let_def f src)
          moreover have "offsetsConsistent E canceled offsets (st\<lparr>offsetfields := (offsetfields st)[i := ?src],
                  offsetFailed := (offsetFailed st)[i := True]\<rparr>)"
            using inv i iv by (auto simp: offsetsConsistent_def nth_list_update)
          ultimately show ?thesis using iv by (auto simp: offsetApplies_def)
        qed
      qed
    qed
  qed
  then show "offsetsConsistent E canceled offsets st'"
    and "heightfields st' = heightfields st" and "heightfieldActualKeys st' = heightfieldActualKeys st"
    and "heightFallback st' = heightFallback st" and "heightFailed st' = heightFailed st"
    and "target st' =
           (if offsetApplies E sample canceled c r res (offsets ! i)
            then writeCell (target st) c r
                   (heightAtCell (target st) c r + sample (offsetSource E canceled (offsets ! i)) c r)
            else target st)"
    by simp_all
qed

text \<open>Adding on top of a cell that was just written.\<close>

lemma writeCell_accumulate:
  "writeCell t c r (foldl (+) (heightAtCell (writeCell t c r a) c r) es) =
   writeCell t c r (foldl (+) a es)"
proof (cases "r * width t + c < length (data t)")
  case True
  then show ?thesis by (simp add: heightAtCell_writeCell)
next
  case False
  then show ?thesis by (simp add: writeCell_beyond)
qed

lemma offsetLoop_effect:
  assumes "offsetsConsistent E False offsets st" "n \<le> length offsets"
      and "offsetLoop E sample False c r offsets n st res = Returns (st', aborted)"
  shows "\<not> aborted \<and>
         offsetsConsistent E False offsets st' \<and>
         heightfields st' = heightfields st \<and> heightfieldActualKeys st' = heightfieldActualKeys st \<and>
         heightFallback st' = heightFallback st \<and> heightFailed st' = heightFailed st \<and>
         target st' =
           writeCell (target st) c r
             (foldl (+) (heightAtCell (target st) c r)
                (map (\<lambda>ld. sample (offsetSource E False ld) c r)
                   (filter (offsetApplies E sample False c r res) (rev (take n offsets)))))"
  using assms
proof (induction n arbitrary: st)
  case 0
  then show ?case by simp
next
  case (Suc n)
  from Suc.prems(3) obtain st1 where b: "offsetBody E sample False c r offsets n st res = Returns st1"
    by (cases "offsetBody E sample False c r offsets n st res") auto
  from Suc.prems have n: "n < length offsets" "n \<le> length offsets" by simp_all
  note be = offsetBody_effect [OF Suc.prems(1) n(1) b]
  from Suc.prems(3) b have loop: "offsetLoop E sample False c r offsets n st1 res = Returns (st', aborted)"
    by simp
  note ih = Suc.IH [OF be(1) n(2) loop]
  have tk: "rev (take (Suc n) offsets) = offsets ! n # rev (take n offsets)"
    using n by (simp add: take_Suc_conv_app_nth)
  from ih have t: "target st' =
             writeCell (target st1) c r
               (foldl (+) (heightAtCell (target st1) c r)
                  (map (\<lambda>ld. sample (offsetSource E False ld) c r)
                     (filter (offsetApplies E sample False c r res) (rev (take n offsets)))))"
    by simp
  have "target st' =
          writeCell (target st) c r
            (foldl (+) (heightAtCell (target st) c r)
               (map (\<lambda>ld. sample (offsetSource E False ld) c r)
                  (filter (offsetApplies E sample False c r res) (rev (take (Suc n) offsets)))))"
    unfolding t tk be(6) by (simp add: writeCell_accumulate)
  with ih be show ?case by simp
qed

lemma offsetsConsistent_initial:
  "offsetsConsistent E canceled offsets (initialState hf contenders offsets rd)"
  by (simp add: offsetsConsistent_def initialState_def)
section \<open>The compositor: the resampling branch and the fast path\<close>

lemma sampleCell_effect:
  assumes "cacheConsistent E False contenders st" "offsetsConsistent E False offsets st"
      and "sampleCell E sample False contenders offsets c r st = Returns (st', aborted)"
  shows "\<not> aborted \<and> cacheConsistent E False contenders st' \<and> offsetsConsistent E False offsets st' \<and>
         target st' = cellResult E sample contenders offsets c r (target st)"
proof -
  from assms(3) obtain st1 res where
    cl: "contenderLoop E sample False c r contenders 0 st (- 1) = Returns (st1, res)"
    by (cases "contenderLoop E sample False c r contenders 0 st (- 1)") (auto simp: sampleCell_def)
  have "drop 0 contenders = contenders" by simp
  note ce = contenderLoop_effect [OF assms(1) this cl]
  from ce have "offsetfields st1 = offsetfields st" "offsetFailed st1 = offsetFailed st"
    by simp_all
  then have "offsetsConsistent E False offsets st1 = offsetsConsistent E False offsets st"
    by (rule offsetsConsistent_cong)
  with assms(2) have o1: "offsetsConsistent E False offsets st1"
    by simp
  from assms(3) cl have ol: "offsetLoop E sample False c r offsets (length offsets) st1 res = Returns (st', aborted)"
    by (simp add: sampleCell_def)
  note oe = offsetLoop_effect [OF o1 le_refl ol]
  from oe have "heightfields st' = heightfields st1"
    "heightfieldActualKeys st' = heightfieldActualKeys st1"
    "heightFallback st' = heightFallback st1" "heightFailed st' = heightFailed st1"
    by simp_all
  then have "cacheConsistent E False contenders st' = cacheConsistent E False contenders st1"
    by (rule cacheConsistent_cong)
  with ce have c': "cacheConsistent E False contenders st'"
    by simp
  have "target st' = cellResult E sample contenders offsets c r (target st)"
  proof (cases "find (contenderYields E sample False c r) contenders")
    case None
    with ce have "res = - 1" "target st1 = target st" by simp_all
    with oe None show ?thesis by (simp add: cellResult_def)
  next
    case (Some A)
    with ce have "res = int (ld_index A)"
      "target st1 = writeCell (target st) c r (contenderSample E sample False c r A)" by simp_all
    with oe Some show ?thesis by (simp add: cellResult_def)
  qed
  with oe c' show ?thesis by simp
qed

lemma rowLoop_effect:
  assumes "cacheConsistent E False contenders st" "offsetsConsistent E False offsets st"
      and "rowLoop E sample False contenders offsets c rs st = Returns (st', aborted)"
  shows "\<not> aborted \<and> cacheConsistent E False contenders st' \<and> offsetsConsistent E False offsets st' \<and>
         target st' = fold (cellResult E sample contenders offsets c) rs (target st)"
  using assms
proof (induction rs arbitrary: st)
  case Nil
  then show ?case by simp
next
  case (Cons r rs)
  from Cons.prems(3) obtain st1 ab where
    s: "sampleCell E sample False contenders offsets c r st = Returns (st1, ab)"
    by (cases "sampleCell E sample False contenders offsets c r st") auto
  note se = sampleCell_effect [OF Cons.prems(1,2) s]
  from se have ab: "\<not> ab" and inv: "cacheConsistent E False contenders st1"
    "offsetsConsistent E False offsets st1" by simp_all
  from Cons.prems(3) s ab have "rowLoop E sample False contenders offsets c rs st1 = Returns (st', aborted)"
    by simp
  from Cons.IH [OF inv this] se show ?case by simp
qed

lemma columnLoop_effect:
  assumes "cacheConsistent E False contenders st" "offsetsConsistent E False offsets st"
      and "columnLoop E sample False contenders offsets numRows cs st = Returns (st', aborted)"
  shows "\<not> aborted \<and> cacheConsistent E False contenders st' \<and> offsetsConsistent E False offsets st' \<and>
         target st' =
           fold (\<lambda>c. fold (cellResult E sample contenders offsets c) [0..<numRows]) cs (target st)"
  using assms
proof (induction cs arbitrary: st)
  case Nil
  then show ?case by simp
next
  case (Cons c cs)
  from Cons.prems(3) obtain st1 ab where
    s: "rowLoop E sample False contenders offsets c [0..<numRows] st = Returns (st1, ab)"
    by (cases "rowLoop E sample False contenders offsets c [0..<numRows] st") auto
  note re = rowLoop_effect [OF Cons.prems(1,2) s]
  from re have ab: "\<not> ab" and inv: "cacheConsistent E False contenders st1"
    "offsetsConsistent E False offsets st1" by simp_all
  from Cons.prems(3) s ab
  have "columnLoop E sample False contenders offsets numRows cs st1 = Returns (st', aborted)"
    by simp
  from Cons.IH [OF inv this] re show ?case by simp
qed

text \<open>The resampling branch of a run that is not cancelled, as a function of the target.\<close>

lemma resample_effect:
  assumes "resample E sample False contenders offsets hf rd = Returns (st, aborted)"
  shows "\<not> aborted \<and> cacheConsistent E False contenders st \<and> offsetsConsistent E False offsets st \<and>
         target st =
           fold (\<lambda>c. fold (cellResult E sample contenders offsets c) [0..<height hf]) [0..<width hf] hf"
proof -
  have "cacheConsistent E False contenders (initialState hf contenders offsets rd)"
    by (rule cacheConsistent_initial)
  moreover have "offsetsConsistent E False offsets (initialState hf contenders offsets rd)"
    by (rule offsetsConsistent_initial)
  moreover note assms [unfolded resample_def]
  ultimately have "\<not> aborted \<and> cacheConsistent E False contenders st \<and>
         offsetsConsistent E False offsets st \<and>
         target st =
           fold (\<lambda>c. fold (cellResult E sample contenders offsets c) [0..<height hf]) [0..<width hf]
             (target (initialState hf contenders offsets rd))"
    by (rule columnLoop_effect)
  moreover have "target (initialState hf contenders offsets rd) = hf"
    by (simp add: initialState_def)
  ultimately show ?thesis by simp
qed

text \<open>A fetch that yields a valid raster was made for a valid, legal key.\<close>

lemma createHeightfield_valid:
  assumes "createHeightfield E L k canceled = Returns fetched" "gh_valid (result_value fetched)"
  shows "isKeyInLegalRange L k" "key_valid k"
proof -
  let ?g = "result_value fetched"
  from assms(2) obtain out where out: "heightfield ?g = Some out" and ext: "extent ?g \<noteq> InvalidExtent"
    by (auto simp: gh_valid_def)
  from assms have ok: "createHeightfield E L k canceled = Returns (Ok ?g)"
    by (cases fetched) (auto simp: result_value_def)
  have "isOpen L"
  proof (rule ccontr)
    assume "\<not> isOpen L"
    with ok have "?g = GeoHeightfield_INVALID" by (simp add: createHeightfield_def)
    with out show False by (simp add: GeoHeightfield_INVALID_def)
  qed
  with ok have p: "createHeightfieldInKeyProfile E L k canceled = Returns (Ok ?g)"
    by (simp add: createHeightfield_def)
  from p out show "isKeyInLegalRange L k" by (rule pipeline_Ok_cases)
  from p out have "?g = \<lparr>heightfield = Some out, extent = key_extent k\<rparr>" by (rule pipeline_Ok_cases)
  then have "extent ?g = key_extent k" by (metis GeoHeightfield.select_convs(2))
  with ext show "key_valid k" by (auto simp: key_extent_def split: if_splits)
qed

lemma contenderSource_direct:
  assumes "createHeightfield E (ld_layer ld) (ld_key ld) canceled = Returns fetched"
      and "gh_valid (result_value fetched)"
  shows "contenderSource E canceled ld = Some (result_value fetched)"
  unfolding contenderSource_def
  using createHeightfield_valid [OF assms] assms by (intro walkResult_at_found)

lemma cellResult_single:
  "cellResult E sample [ld] [] c r t =
     (if contenderYields E sample False c r ld
      then writeCell t c r (contenderSample E sample False c r ld) else t)"
  by (simp add: cellResult_def)

text \<open>Cells of a row-major grid: the slot determines the cell.\<close>

lemma slot_inj:
  assumes "c < w" "c0 < w" "r * w + c = r0 * w + (c0::nat)"
  shows "c = c0 \<and> r = r0"
proof -
  from assms(1,2) have "(r * w + c) mod w = c" "(r0 * w + c0) mod w = c0" by simp_all
  with assms(3) have c: "c = c0" by metis
  with assms have "r * w = r0 * w" by simp
  with assms(1) have "r = r0" by simp
  with c show ?thesis by simp
qed

text \<open>
  A sequence of conditional cell writes, each with a value that depends on the cell
  only, read back at a cell of the grid.
\<close>

lemma fold_cell_writes:
  assumes "\<forall>(c, r)\<in>set xs. c < width t" "c0 < width t" "r0 * width t + c0 < length (data t)"
  shows "width (fold (\<lambda>(c, r) t. if p c r then writeCell t c r (v c r) else t) xs t) = width t \<and>
         height (fold (\<lambda>(c, r) t. if p c r then writeCell t c r (v c r) else t) xs t) = height t \<and>
         length (data (fold (\<lambda>(c, r) t. if p c r then writeCell t c r (v c r) else t) xs t)) =
           length (data t) \<and>
         data (fold (\<lambda>(c, r) t. if p c r then writeCell t c r (v c r) else t) xs t) ! (r0 * width t + c0) =
           (if (c0, r0) \<in> set xs \<and> p c0 r0 then v c0 r0 else data t ! (r0 * width t + c0))"
  using assms
proof (induction xs arbitrary: t)
  case Nil
  then show ?case by simp
next
  case (Cons x xs)
  obtain c r where x: "x = (c, r)" by (cases x)
  let ?g = "\<lambda>(c, r) t. if p c r then writeCell t c r (v c r) else t"
  let ?t1 = "if p c r then writeCell t c r (v c r) else t"
  from Cons.prems x have cw: "c < width t" by simp
  have dims: "width ?t1 = width t" "height ?t1 = height t" "length (data ?t1) = length (data t)"
    by simp_all
  have pre: "\<forall>(c, r)\<in>set xs. c < width ?t1" "c0 < width ?t1" "r0 * width ?t1 + c0 < length (data ?t1)"
    using Cons.prems by (auto simp: dims)
  note ih = Cons.IH [OF pre, unfolded dims]
  have cell: "data ?t1 ! (r0 * width t + c0) =
      (if (c, r) = (c0, r0) \<and> p c0 r0 then v c0 r0 else data t ! (r0 * width t + c0))"
  proof (cases "p c r")
    case False
    then show ?thesis by auto
  next
    case True
    show ?thesis
    proof (cases "r * width t + c = r0 * width t + c0")
      case same: True
      with cw Cons.prems(2) have "c = c0 \<and> r = r0" by (intro slot_inj)
      with True Cons.prems(3) show ?thesis by (simp add: writeCell_def)
    next
      case other: False
      then have "\<not> (c = c0 \<and> r = r0)" by auto
      with True other show ?thesis by (auto simp: writeCell_def)
    qed
  qed
  have "fold ?g (x # xs) t = fold ?g xs ?t1" by (simp add: x)
  with ih cell show ?case by (auto simp: x)
qed

lemma nested_fold_flat:
  "fold (\<lambda>c. fold (f c) rs) cs t =
   fold (\<lambda>(c, r). f c r) (concat (map (\<lambda>c. map (Pair c) rs) cs)) t"
  by (induction cs arbitrary: t) (simp_all add: fold_map comp_def)


lemma fastPath_copy:
  assumes "createHeightfield E (ld_layer ld) (ld_key ld) False = Returns fetched"
      "result_value fetched = g" "gh_valid g"
      "heightfield g = Some src" "width src = width hf" "height src = height hf"
      "length (data src) = width hf * height hf" "length (data hf) = width hf * height hf"
  shows "fastPath E False [ld] [] hf = Returns (False, hf\<lparr>data := data src\<rparr>, True)"
proof -
  have "take (width hf * height hf) (data src) @ drop (width hf * height hf) (data hf) = data src"
    using assms(7,8) by simp
  moreover have "gh_valid (result_value fetched)" "heightfield (result_value fetched) = Some src"
    using assms(2,3,4) by simp_all
  ultimately show ?thesis
    using assms(1,5,6) by (simp add: fastPath_def Let_def)
qed

lemma grid_cells:
  "(c, r) \<in> set (concat (map (\<lambda>c. map (Pair c) [0..<h]) [0..<w])) \<longleftrightarrow> c < w \<and> r < h"
proof -
  have "set (concat (map (\<lambda>c. map (Pair c) [0..<h]) [0..<w])) = {0..<w} \<times> {0..<h}"
    by (auto simp: image_iff)
  then show ?thesis by simp
qed

lemma fold_cell_writes_dims:
  "width (fold (\<lambda>(c, r) t. if p c r then writeCell t c r (v c r) else t) xs t) = width t \<and>
   height (fold (\<lambda>(c, r) t. if p c r then writeCell t c r (v c r) else t) xs t) = height t \<and>
   length (data (fold (\<lambda>(c, r) t. if p c r then writeCell t c r (v c r) else t) xs t)) =
     length (data t)"
proof (induction xs arbitrary: t)
  case Nil
  then show ?case by simp
next
  case (Cons x xs)
  obtain c r where x: "x = (c, r)" by (cases x)
  from Cons.IH [of "if p c r then writeCell t c r (v c r) else t"]
  show ?case by (simp add: x)
qed

text \<open>The resampling branch for one contender and no offset, cell by cell.\<close>

lemma resample_single:
  assumes src: "contenderSource E False ld = Some g"
      and len: "length (data hf) = width hf * height hf"
      and res: "resample E sample False [ld] [] hf rd = Returns (st, aborted)"
  shows "\<not> aborted" "width (target st) = width hf" "height (target st) = height hf"
    "length (data (target st)) = length (data hf)"
    "\<And>c r. c < width hf \<Longrightarrow> r < height hf \<Longrightarrow>
        data (target st) ! (r * width hf + c) =
          (if sample g c r \<noteq> NO_DATA_VALUE E then sample g c r else data hf ! (r * width hf + c))"
proof -
  let ?cells = "concat (map (\<lambda>c. map (Pair c) [0..<height hf]) [0..<width hf])"
  let ?step = "\<lambda>(c, r) t. if sample g c r \<noteq> NO_DATA_VALUE E then writeCell t c r (sample g c r) else t"
  from resample_effect [OF res] have na: "\<not> aborted"
    and t: "target st = fold (\<lambda>c. fold (cellResult E sample [ld] [] c) [0..<height hf]) [0..<width hf] hf"
    by simp_all
  have step: "cellResult E sample [ld] [] c r t =
      (if sample g c r \<noteq> NO_DATA_VALUE E then writeCell t c r (sample g c r) else t)" for c r t
    using src by (simp add: cellResult_single contenderYields_def contenderSample_def)
  have "(\<lambda>(c, r). cellResult E sample [ld] [] c r) = ?step"
    by (simp add: fun_eq_iff step)
  then have flat: "target st = fold ?step ?cells hf"
    unfolding t nested_fold_flat by simp
  have inside: "\<forall>(c, r)\<in>set ?cells. c < width hf"
    by (simp add: grid_cells split_def)
  show "\<not> aborted" by (rule na)
  from fold_cell_writes_dims [of "\<lambda>c r. sample g c r \<noteq> NO_DATA_VALUE E" "sample g" ?cells hf]
  show "width (target st) = width hf" "height (target st) = height hf"
    "length (data (target st)) = length (data hf)"
    unfolding flat by simp_all
  show "data (target st) ! (r * width hf + c) =
          (if sample g c r \<noteq> NO_DATA_VALUE E then sample g c r else data hf ! (r * width hf + c))"
    if "c < width hf" "r < height hf" for c r
  proof -
    from that have "r * width hf + c < Suc r * width hf" by simp
    also from that have "\<dots> \<le> height hf * width hf" by (intro mult_le_mono1) simp
    finally have slot: "r * width hf + c < length (data hf)" using len by (simp add: mult.commute)
    from that have mem: "(c, r) \<in> set ?cells" by (simp only: grid_cells)
    from fold_cell_writes [OF inside that(1) slot,
        where p = "\<lambda>c r. sample g c r \<noteq> NO_DATA_VALUE E" and v = "sample g"]
    have "data (fold ?step ?cells hf) ! (r * width hf + c) =
           (if (c, r) \<in> set ?cells \<and> sample g c r \<noteq> NO_DATA_VALUE E then sample g c r
            else data hf ! (r * width hf + c))"
      by blast
    with mem show ?thesis unfolding flat by simp
  qed
qed

text \<open>
  Claim C7, as amended. Take one contender, no offset, a run that is not cancelled, a
  fetch of the contender that returns a raster of the size of the target, both buffers
  holding width times height samples, and a sampler that returns at every node of the
  grid the sample stored there.
  Provided that every cell whose source sample is the sentinel holds the sentinel or 0
  in the target before the call, the fast-path copy and the resampling branch, each
  followed by the resolution of invalid heights, give the same raster.
\<close>

theorem fast_path_matches_resampling:
  assumes fetched: "createHeightfield E (ld_layer ld) (ld_key ld) False = Returns layerHF"
        "result_value layerHF = g" "gh_valid g" "heightfield g = Some src"
      and dims: "width src = width hf" "height src = height hf"
      and buffers: "length (data src) = width hf * height hf" "length (data hf) = width hf * height hf"
      and exact: "\<forall>c<width hf. \<forall>r<height hf. sample g c r = heightAtCell src c r"
      and prefilled: "\<forall>i<width hf * height hf. data src ! i = NO_DATA_VALUE E \<longrightarrow>
                        data hf ! i = NO_DATA_VALUE E \<or> data hf ! i = 0"
      and fast: "fastPath E False [ld] [] hf = Returns (requiresResample, hfFast, rdFast)"
      and general: "resample E sample False [ld] [] hf False = Returns (st, aborted)"
  shows "\<not> requiresResample \<and> \<not> aborted \<and>
         resolveInvalidHeights (Some hfFast) (NO_DATA_VALUE E) None =
         resolveInvalidHeights (Some (target st)) (NO_DATA_VALUE E) None"
proof -
  let ?nd = "NO_DATA_VALUE E"
  let ?rz = "\<lambda>h. if h = ?nd then 0 else h"
  from fastPath_copy [OF fetched dims buffers] fast
  have f: "\<not> requiresResample" "hfFast = hf\<lparr>data := data src\<rparr>" by simp_all
  have "gh_valid (result_value layerHF)"
    using fetched by simp
  with fetched(1) have "contenderSource E False ld = Some (result_value layerHF)"
    by (rule contenderSource_direct)
  then have src: "contenderSource E False ld = Some g"
    using fetched(2) by simp
  note rs = resample_single [OF src buffers(2) general]
  have cellwise: "?rz (data (target st) ! i) = ?rz (data src ! i)" if i: "i < width hf * height hf" for i
  proof -
    from i have w: "0 < width hf" by (cases "width hf = 0") simp_all
    let ?c = "i mod width hf" and ?r = "i div width hf"
    from w have c: "?c < width hf" by simp
    from i have r: "?r < height hf" by (simp add: less_mult_imp_div_less mult.commute)
    have idx: "?r * width hf + ?c = i" by simp
    from rs(5) [OF c r] have t: "data (target st) ! i =
        (if sample g ?c ?r \<noteq> ?nd then sample g ?c ?r else data hf ! i)"
      by (simp only: idx)
    from exact c r have "sample g ?c ?r = heightAtCell src ?c ?r" by simp
    also have "\<dots> = data src ! i" by (simp add: heightAtCell_def dims)
    finally have s: "sample g ?c ?r = data src ! i" .
    show ?thesis
    proof (cases "data src ! i = ?nd")
      case True
      with prefilled i have "data hf ! i = ?nd \<or> data hf ! i = 0" by simp
      with t s True show ?thesis by auto
    next
      case False
      with t s show ?thesis by simp
    qed
  qed
  have m: "map ?rz (data (target st)) = map ?rz (data src)"
    using rs(4) buffers cellwise by (intro nth_equalityI) simp_all
  have "(target st)\<lparr>data := map ?rz (data (target st))\<rparr> = hf\<lparr>data := map ?rz (data src)\<rparr>"
    by (rule Heightfield.equality) (simp_all add: rs(2,3) m)
  with f rs(1) show ?thesis by (simp add: resolveInvalidHeights_def)
qed

text \<open>
  A one-sample tile pre-filled with the sentinel, and a layer with the sample 7 there:
  the copy and the resampling give the same raster.
\<close>

theorem fast_path_matches_resampling_witness:
  "\<exists>(hfFast :: real Heightfield) (st :: real SampleState).
      fastPath plainExternals False
        [\<lparr>ld_layer = rasterLayer 0 False (rasterOf 1 1 [7]), ld_key = tileAt 0 0,
           ld_isFallback = False, ld_index = 0\<rparr>] [] (rasterOf 1 1 [- FLT_MAX]) =
        Returns (False, hfFast, True) \<and>
      resample plainExternals (heightAt plainExternals (tileAt 0 0) (tileAt 0 0) (1, 1) BILINEAR) False
        [\<lparr>ld_layer = rasterLayer 0 False (rasterOf 1 1 [7]), ld_key = tileAt 0 0,
           ld_isFallback = False, ld_index = 0\<rparr>] [] (rasterOf 1 1 [- FLT_MAX]) False =
        Returns (st, False) \<and>
      resolveInvalidHeights (Some hfFast) (NO_DATA_VALUE plainExternals) None =
      resolveInvalidHeights (Some (target st)) (NO_DATA_VALUE plainExternals) None"
proof -
  let ?sample = "heightAt plainExternals (tileAt 0 0) (tileAt 0 0) (1, 1) BILINEAR"
  let ?ld = "\<lparr>ld_layer = rasterLayer 0 False (rasterOf 1 1 [7]), ld_key = tileAt 0 0,
           ld_isFallback = False, ld_index = 0\<rparr>"
  let ?hf = "rasterOf 1 1 [- FLT_MAX]"
  let ?g = "\<lparr>heightfield = Some (rasterOf 1 1 [7]), extent = key_extent (tileAt 0 0)\<rparr>"
  have fetched: "createHeightfield plainExternals (ld_layer ?ld) (ld_key ?ld) False = Returns (Ok ?g)"
    "result_value (Ok ?g) = ?g" "gh_valid ?g" "heightfield ?g = Some (rasterOf 1 1 [7])"
    by (simp_all add: pipeline_defs fixture_defs key_defs result_defs normalizePixels_eq Let_def)
  have dims: "width (rasterOf 1 1 [7]) = width ?hf" "height (rasterOf 1 1 [7]) = height ?hf"
    and buffers: "length (data (rasterOf 1 1 [7])) = width ?hf * height ?hf"
      "length (data ?hf) = width ?hf * height ?hf"
    by (simp_all add: rasterOf_def)
  have exact: "\<forall>c<width ?hf. \<forall>r<height ?hf. ?sample ?g c r = heightAtCell (rasterOf 1 1 [7]) c r"
    by (simp add: fixture_defs)
  have prefilled: "\<forall>i<width ?hf * height ?hf.
      data (rasterOf 1 1 [7]) ! i = NO_DATA_VALUE plainExternals \<longrightarrow>
      data ?hf ! i = NO_DATA_VALUE plainExternals \<or> data ?hf ! i = 0"
    by (simp add: fixture_defs)
  define hfFast where "hfFast = ?hf\<lparr>data := data (rasterOf 1 1 [7::real])\<rparr>"
  have fast: "fastPath plainExternals False [?ld] [] ?hf = Returns (False, hfFast, True)"
    unfolding hfFast_def by (rule fastPath_copy [OF fetched dims buffers])
  have "\<exists>st. resample plainExternals ?sample False [?ld] [] ?hf False = Returns (st, False)"
    by (simp add: populate_defs pipeline_defs fixture_defs key_defs result_defs normalizePixels_eq
          contenderWalk.simps Let_def)
  then obtain st aborted where
    general: "resample plainExternals ?sample False [?ld] [] ?hf False = Returns (st, aborted)"
    by blast
  from fast_path_matches_resampling [OF fetched dims buffers exact prefilled fast general]
  have "\<not> aborted"
    "resolveInvalidHeights (Some hfFast) (NO_DATA_VALUE plainExternals) None =
     resolveInvalidHeights (Some (target st)) (NO_DATA_VALUE plainExternals) None"
    by simp_all
  with fast general show ?thesis
    by (intro exI [of _ hfFast] exI [of _ st]) simp
qed

text \<open>
  The claim as stated fails when the target holds data where the source has none. The
  target of one sample holds 5, the raster of the only layer holds the sentinel, and the
  sampler returns the stored sample. The fast path copies the sentinel, which is then
  resolved to 0; the resampling branch writes nothing and leaves 5.
\<close>

theorem fast_path_counterexample:
  "heightAt plainExternals (tileAt 0 0) (tileAt 0 0) (1, 1) BILINEAR
      \<lparr>heightfield = Some (rasterOf 1 1 [- FLT_MAX]), extent = key_extent (tileAt 0 0)\<rparr> 0 0 =
     heightAtCell (rasterOf 1 1 [- FLT_MAX]) 0 0 \<and>
   fastPath plainExternals False
      [\<lparr>ld_layer = rasterLayer 0 False (rasterOf 1 1 [- FLT_MAX]), ld_key = tileAt 0 0,
         ld_isFallback = False, ld_index = 0\<rparr>] [] (rasterOf 1 1 [5]) =
     Returns (False, rasterOf 1 1 [- FLT_MAX], True) \<and>
   resolveInvalidHeights (Some (rasterOf 1 1 [- FLT_MAX])) (NO_DATA_VALUE plainExternals) None =
     Some (rasterOf 1 1 [0]) \<and>
   (\<exists>st. resample plainExternals (heightAt plainExternals (tileAt 0 0) (tileAt 0 0) (1, 1) BILINEAR) False
            [\<lparr>ld_layer = rasterLayer 0 False (rasterOf 1 1 [- FLT_MAX]), ld_key = tileAt 0 0,
               ld_isFallback = False, ld_index = 0\<rparr>] [] (rasterOf 1 1 [5]) False =
          Returns (st, False) \<and>
        resolveInvalidHeights (Some (target st)) (NO_DATA_VALUE plainExternals) None =
          Some (rasterOf 1 1 [5])) \<and>
   populateHeightfield plainExternals [rasterLayer 0 False (rasterOf 1 1 [- FLT_MAX])]
     (Some (rasterOf 1 1 [5])) (tileAt 0 0) InvalidProfile BILINEAR False =
     Returns \<lparr>returned = True, hfOut = Some (rasterOf 1 1 [0]), exitPoint = Completed\<rparr>"
  by (simp add: populate_defs collect_defs pipeline_defs fixture_defs key_defs result_defs
        normalizePixels_eq contenderWalk.simps Let_def)

section \<open>The compositor: offsets on top of the winning contender\<close>

text \<open>The two loops of a cell write that cell, from what it held.\<close>

lemma cellResult_write:
  "cellResult E sample contenders offsets c r t =
     writeCell t c r (cellValue E sample contenders offsets c r (heightAtCell t c r))"
  by (simp add: cellResult_def cellValue_def writeCell_accumulate split: option.splits)

text \<open>
  A sequence of cell updates over distinct cells of the grid, each computed from what
  the cell held, read back at a cell.
\<close>

lemma fold_cell_updates:
  assumes "distinct xs" "\<forall>(c, r)\<in>set xs. c < width t" "c0 < width t"
      and "r0 * width t + c0 < length (data t)"
  shows "width (fold (\<lambda>(c, r) t. writeCell t c r (v c r (heightAtCell t c r))) xs t) = width t \<and>
         length (data (fold (\<lambda>(c, r) t. writeCell t c r (v c r (heightAtCell t c r))) xs t)) =
           length (data t) \<and>
         data (fold (\<lambda>(c, r) t. writeCell t c r (v c r (heightAtCell t c r))) xs t) ! (r0 * width t + c0) =
           (if (c0, r0) \<in> set xs then v c0 r0 (data t ! (r0 * width t + c0))
            else data t ! (r0 * width t + c0))"
  using assms
proof (induction xs arbitrary: t)
  case Nil
  then show ?case by simp
next
  case (Cons x xs)
  obtain c r where x: "x = (c, r)" by (cases x)
  let ?g = "\<lambda>(c, r) t. writeCell t c r (v c r (heightAtCell t c r))"
  let ?t1 = "writeCell t c r (v c r (heightAtCell t c r))"
  from Cons.prems x have cw: "c < width t" and fresh: "(c, r) \<notin> set xs" and d: "distinct xs"
    by simp_all
  have dims: "width ?t1 = width t" "length (data ?t1) = length (data t)"
    by simp_all
  have pre: "\<forall>(c, r)\<in>set xs. c < width ?t1" "c0 < width ?t1" "r0 * width ?t1 + c0 < length (data ?t1)"
    using Cons.prems by (auto simp: dims)
  note ih = Cons.IH [OF d pre, unfolded dims]
  have step: "fold ?g (x # xs) t = fold ?g xs ?t1" by (simp add: x)
  show ?case
  proof (cases "(c, r) = (c0, r0)")
    case True
    with Cons.prems(4) have "data ?t1 ! (r0 * width t + c0) = v c0 r0 (data t ! (r0 * width t + c0))"
      by (simp add: writeCell_def heightAtCell_def)
    moreover from True fresh have "(c0, r0) \<notin> set xs" by simp
    ultimately show ?thesis using ih True unfolding step by (simp add: x)
  next
    case False
    have "r * width t + c \<noteq> r0 * width t + c0"
    proof
      assume "r * width t + c = r0 * width t + c0"
      with cw Cons.prems(3) have "c = c0 \<and> r = r0" by (intro slot_inj)
      with False show False by simp
    qed
    then have "data ?t1 ! (r0 * width t + c0) = data t ! (r0 * width t + c0)"
      by (simp add: writeCell_def)
    with ih False show ?thesis unfolding step by (auto simp: x)
  qed
qed

lemma grid_distinct: "distinct (concat (map (\<lambda>c. map (Pair c) [0..<h]) [0..<w]))"
proof (induction w)
  case 0
  then show ?case by simp
next
  case (Suc w)
  have "distinct (map (Pair w) [0..<h])"
    by (simp add: distinct_map inj_on_def)
  with Suc show ?case by (auto simp: grid_cells)
qed

text \<open>The resampling branch of a run that is not cancelled, read at a cell of the grid.\<close>

lemma resample_cell:
  assumes res: "resample E sample False contenders offsets hf rd = Returns (st, aborted)"
      and len: "length (data hf) = width hf * height hf"
      and cell: "c < width hf" "r < height hf"
  shows "\<not> aborted" "width (target st) = width hf"
    "r * width hf + c < length (data (target st))"
    "data (target st) ! (r * width hf + c) =
       cellValue E sample contenders offsets c r (data hf ! (r * width hf + c))"
proof -
  let ?cells = "concat (map (\<lambda>c. map (Pair c) [0..<height hf]) [0..<width hf])"
  let ?v = "cellValue E sample contenders offsets"
  let ?step = "\<lambda>(c, r) t. writeCell t c r (?v c r (heightAtCell t c r))"
  from resample_effect [OF res] have na: "\<not> aborted"
    and t: "target st = fold (\<lambda>c. fold (cellResult E sample contenders offsets c) [0..<height hf])
                          [0..<width hf] hf"
    by simp_all
  have "(\<lambda>(c, r). cellResult E sample contenders offsets c r) = ?step"
    by (simp add: fun_eq_iff cellResult_write)
  then have flat: "target st = fold ?step ?cells hf"
    unfolding t nested_fold_flat by simp
  have inside: "\<forall>(c, r)\<in>set ?cells. c < width hf"
    by (simp add: grid_cells split_def)
  from cell have "r * width hf + c < Suc r * width hf" by simp
  also from cell have "\<dots> \<le> height hf * width hf" by (intro mult_le_mono1) simp
  finally have slot: "r * width hf + c < length (data hf)" using len by (simp add: mult.commute)
  from cell have mem: "(c, r) \<in> set ?cells" by (simp only: grid_cells)
  note f = fold_cell_updates [OF grid_distinct inside cell(1) slot, where v = ?v]
  show "\<not> aborted" by (rule na)
  from f show "width (target st) = width hf" unfolding flat by simp
  from f slot show "r * width hf + c < length (data (target st))" unfolding flat by simp
  from f mem show "data (target st) ! (r * width hf + c) = ?v c r (data hf ! (r * width hf + c))"
    unfolding flat by simp
qed

text \<open>
  Claim C4. Let \<open>contenders\<close> and \<open>offsets\<close> be the layers that \<^verbatim>\<open>populateHeightfield\<close>
  collects for a tile, with at least one offset, not all of them fallback, and let the
  call not be cancelled. When the call returns, it does so through its last \<^verbatim>\<open>return\<close>,
  and every cell \<open>(c, r)\<close> of the output holds the following value (with 0 for the
  sentinel). Let the winning contender of the cell be the first contender, in the order
  of the loop, that yields a sample there (by the order of the collected layers, the
  one highest in the stack). The value is the sample of the winning contender, or what the
  cell held before the call when there is none, plus, in the order of the offset loop,
  the sample of every offset that applies: its stack index is at least the index of the
  winning contender or there is no winning contender, it has a raster, and its sample
  at the cell is neither the sentinel nor found zero by \<^verbatim>\<open>equiv\<close>. No other offset
  contributes; in particular none whose index is below that of the winning contender.
\<close>

theorem offsets_added_on_top:
  assumes usable: "usableLayers E layers hf key haeProfile = (contenders, offsets, numFallbackLayers)"
      and some: "offsets \<noteq> []"
      and fine: "length contenders + length offsets \<noteq> numFallbackLayers"
      and buffer: "length (data hf) = width hf * height hf"
      and cell: "c < width hf" "r < height hf"
      and sample: "sample = heightAt E key (keyToUseFor key haeProfile) (width hf, height hf) interpolation"
      and winner: "winner = find (contenderYields E sample False c r) contenders"
      and index: "resolvedIndex = (case winner of None \<Rightarrow> - 1 | Some A \<Rightarrow> int (ld_index A))"
      and resolved: "resolved = (case winner of None \<Rightarrow> heightAtCell hf c r
                                 | Some A \<Rightarrow> contenderSample E sample False c r A)"
      and added: "added = foldl (+) resolved
                    (map (\<lambda>ld. sample (offsetSource E False ld) c r)
                       (filter (offsetApplies E sample False c r resolvedIndex) (rev offsets)))"
      and returns: "populateHeightfield E layers (Some hf) key haeProfile interpolation False =
                      Returns result"
  shows "exitPoint result = Completed \<and>
         (\<exists>out. hfOut result = Some out \<and>
            heightAtCell out c r = (if added = NO_DATA_VALUE E then 0 else added))"
proof -
  have fast: "fastPath E False contenders offsets hf = Returns (True, hf, False)"
    using some by (simp add: fastPath_def)
  have sampled: "sampleLayers E sample False contenders offsets hf =
      resample E sample False contenders offsets hf False"
    by (simp add: sampleLayers_def fast)
  from returns usable some fine obtain st aborted where
    res: "resample E sample False contenders offsets hf False = Returns (st, aborted)"
    by (cases "resample E sample False contenders offsets hf False")
       (auto simp: populateHeightfield_def sample [symmetric] sampled Let_def)
  note rc = resample_cell [OF res buffer cell]
  let ?out = "(target st)\<lparr>data := map (\<lambda>h. if h = NO_DATA_VALUE E then 0 else h) (data (target st))\<rparr>"
  have "populateHeightfield E layers (Some hf) key haeProfile interpolation False =
      Returns \<lparr>returned = realData st, hfOut = Some ?out, exitPoint = Completed\<rparr>"
    using usable some fine res rc(1)
    by (simp add: populateHeightfield_def sample [symmetric] sampled Let_def
          resolveInvalidHeights_def)
  with returns have run: "result = \<lparr>returned = realData st, hfOut = Some ?out, exitPoint = Completed\<rparr>"
    by simp
  have "cellValue E sample contenders offsets c r (data hf ! (r * width hf + c)) = added"
    unfolding added resolved index winner
    by (simp add: cellValue_def heightAtCell_def Let_def split: option.splits)
  with rc have "heightAtCell ?out c r = (if added = NO_DATA_VALUE E then 0 else added)"
    by (simp add: heightAtCell_def)
  with run show ?thesis by simp
qed

text \<open>
  A stack of an offset of 3 (position 0), a contender with sample 10 (position 1) and an
  offset of 4 (position 2) over a one-sample tile holding 5: the contender wins the cell,
  the offset above it is added and the offset below it is not; the cell holds 14.
\<close>

theorem offsets_added_on_top_witness:
  "usableLayers plainExternals
      [rasterLayer 0 True (rasterOf 1 1 [3]), rasterLayer 0 False (rasterOf 1 1 [10]),
       rasterLayer 0 True (rasterOf 1 1 [4])]
      (rasterOf 1 1 [5]) (tileAt 0 0) InvalidProfile =
     ([\<lparr>ld_layer = rasterLayer 0 False (rasterOf 1 1 [10]), ld_key = tileAt 0 0,
         ld_isFallback = False, ld_index = 1\<rparr>],
      [\<lparr>ld_layer = rasterLayer 0 True (rasterOf 1 1 [4]), ld_key = tileAt 0 0,
         ld_isFallback = False, ld_index = 2\<rparr>,
       \<lparr>ld_layer = rasterLayer 0 True (rasterOf 1 1 [3]), ld_key = tileAt 0 0,
         ld_isFallback = False, ld_index = 0\<rparr>], 0) \<and>
   populateHeightfield plainExternals
      [rasterLayer 0 True (rasterOf 1 1 [3]), rasterLayer 0 False (rasterOf 1 1 [10]),
       rasterLayer 0 True (rasterOf 1 1 [4])]
      (Some (rasterOf 1 1 [5])) (tileAt 0 0) InvalidProfile BILINEAR False =
     Returns \<lparr>returned = True, hfOut = Some (rasterOf 1 1 [14]), exitPoint = Completed\<rparr> \<and>
   (\<exists>out. Some (rasterOf 1 1 [14 :: real]) = Some out \<and> heightAtCell out 0 0 = 14)"
proof -
  let ?layers = "[rasterLayer 0 True (rasterOf 1 1 [3]), rasterLayer 0 False (rasterOf 1 1 [10]),
       rasterLayer 0 True (rasterOf 1 1 [4])]"
  let ?sample = "heightAt plainExternals (tileAt 0 0) (keyToUseFor (tileAt 0 0) InvalidProfile)
      (width (rasterOf 1 1 [5]), height (rasterOf 1 1 [5])) BILINEAR"
  let ?A = "\<lparr>ld_layer = rasterLayer 0 False (rasterOf 1 1 [10]), ld_key = tileAt 0 0,
         ld_isFallback = False, ld_index = 1\<rparr>"
  let ?top = "\<lparr>ld_layer = rasterLayer 0 True (rasterOf 1 1 [4]), ld_key = tileAt 0 0,
         ld_isFallback = False, ld_index = 2\<rparr>"
  let ?low = "\<lparr>ld_layer = rasterLayer 0 True (rasterOf 1 1 [3]), ld_key = tileAt 0 0,
         ld_isFallback = False, ld_index = 0\<rparr>"
  have usable: "usableLayers plainExternals ?layers (rasterOf 1 1 [5]) (tileAt 0 0) InvalidProfile =
      ([?A], [?top, ?low], 0)"
    by (simp add: collect_defs collectLayers_numeral fixture_defs key_defs)
  have src: "contenderSource plainExternals False ?A =
      Some \<lparr>heightfield = Some (rasterOf 1 1 [10]), extent = key_extent (tileAt 0 0)\<rparr>"
    by (simp add: contenderSource_def walkResult_def contenderWalk.simps pipeline_defs fixture_defs
          key_defs result_defs normalizePixels_eq Let_def)
  have top: "offsetSource plainExternals False ?top =
      \<lparr>heightfield = Some (rasterOf 1 1 [4]), extent = key_extent (tileAt 0 0)\<rparr>"
    and low: "offsetSource plainExternals False ?low =
      \<lparr>heightfield = Some (rasterOf 1 1 [3]), extent = key_extent (tileAt 0 0)\<rparr>"
    by (simp_all add: offsetSource_def pipeline_defs fixture_defs key_defs result_defs
          normalizePixels_eq Let_def)
  have yields: "contenderYields plainExternals ?sample False 0 0 ?A"
    and ten: "contenderSample plainExternals ?sample False 0 0 ?A = 10"
    unfolding contenderYields_def contenderSample_def src
    by (simp_all add: fixture_defs heightAtCell_def)
  have winner: "Some ?A = find (contenderYields plainExternals ?sample False 0 0) [?A]"
    using yields by simp
  have applies: "offsetApplies plainExternals ?sample False 0 0 1 ?top"
    "\<not> offsetApplies plainExternals ?sample False 0 0 1 ?low"
    unfolding offsetApplies_def top low
    by (simp_all add: fixture_defs key_defs result_defs heightAtCell_def)
  have four: "?sample (offsetSource plainExternals False ?top) 0 0 = 4"
    unfolding top by (simp add: fixture_defs heightAtCell_def)
  have filt: "filter (offsetApplies plainExternals ?sample False 0 0 1) (rev [?top, ?low]) = [?top]"
    using applies by simp
  have total: "(14 :: real) = foldl (+) 10
      (map (\<lambda>ld. ?sample (offsetSource plainExternals False ld) 0 0)
         (filter (offsetApplies plainExternals ?sample False 0 0 1) (rev [?top, ?low])))"
    unfolding filt using four by simp
  let ?result = "\<lparr>returned = True, hfOut = Some (rasterOf 1 1 [14 :: real]), exitPoint = Completed\<rparr>"
  have run: "populateHeightfield plainExternals ?layers (Some (rasterOf 1 1 [5])) (tileAt 0 0)
      InvalidProfile BILINEAR False = Returns ?result"
    by (simp add: populate_defs collect_defs collectLayers_numeral offsetLoop_numeral pipeline_defs
          fixture_defs key_defs result_defs normalizePixels_eq contenderWalk.simps Let_def)
  have "exitPoint ?result = Completed \<and>
        (\<exists>out. hfOut ?result = Some out \<and>
           heightAtCell out 0 0 = (if (14 :: real) = NO_DATA_VALUE plainExternals then 0 else 14))"
  proof (rule offsets_added_on_top [OF usable _ _ _ _ _ refl winner _ _ total run])
    show "[?top, ?low] \<noteq> []" by simp
    show "length [?A] + length [?top, ?low] \<noteq> 0" by simp
    show "length (data (rasterOf 1 1 [5])) = width (rasterOf 1 1 [5]) * height (rasterOf 1 1 [5])"
      by (simp add: rasterOf_def)
    show "0 < width (rasterOf 1 1 [5])" "0 < height (rasterOf 1 1 [5])"
      by (simp_all add: rasterOf_def)
    show "1 = (case Some ?A of None \<Rightarrow> - 1 | Some A \<Rightarrow> int (ld_index A))" by simp
    show "10 = (case Some ?A of None \<Rightarrow> heightAtCell (rasterOf 1 1 [5]) 0 0
                | Some A \<Rightarrow> contenderSample plainExternals ?sample False 0 0 A)"
      using ten by simp
  qed
  moreover have "(14 :: real) \<noteq> NO_DATA_VALUE plainExternals"
    by (simp add: fixture_defs)
  ultimately have "\<exists>out. Some (rasterOf 1 1 [14 :: real]) = Some out \<and> heightAtCell out 0 0 = 14"
    by simp
  with usable run show ?thesis by simp
qed
section \<open>Runs that return\<close>

text \<open>
  The statements above about the compositor speak of runs that return. A run returns
  whenever every ok tile that the drivers deliver carries a raster: the null pointer
  that the mosaic assembler may dereference is the raster of such a tile.
\<close>

lemma assembleWalk_tile:
  "assembleWalk L canceled subKey subTile = Some (subKey', subTile') \<Longrightarrow>
   \<not> status_ok subTile \<Longrightarrow> status_ok subTile' \<Longrightarrow>
   \<exists>k. subTile' = createHeightfieldImplementation L k"
proof (induction L canceled subKey subTile rule: assembleWalk.induct)
  case (1 L canceled subKey subTile)
  show ?case
  proof (cases "key_valid subKey")
    case False
    with "1.prems" show ?thesis
      by (subst (asm) assembleWalk.simps) simp
  next
    case True
    let ?t = "createHeightfieldImplementation_internal L subKey"
    let ?k = "if status_failed ?t then makeParent subKey else subKey"
    from True "1.prems"(1,2) have nc: "\<not> canceled"
      and w: "assembleWalk L canceled ?k ?t = Some (subKey', subTile')"
      by (subst (asm) assembleWalk.simps, simp add: Let_def split: if_splits)+
    show ?thesis
    proof (cases "status_ok ?t")
      case ok: True
      then have "assembleWalk L canceled ?k ?t = Some (?k, ?t)"
        by (subst assembleWalk.simps) simp
      with w have "subTile' = ?t" by simp
      then show ?thesis
        by (auto simp: createHeightfieldImplementation_internal_def)
    next
      case failed: False
      have "key_valid subKey \<and> \<not> status_ok subTile"
        using True "1.prems"(2) by simp
      from "1.IH" [OF this refl refl nc w failed "1.prems"(3)]
      show ?thesis .
    qed
  qed
qed

lemma collectSources_rasters:
  assumes rasters: "\<And>k g. createHeightfieldImplementation L k = Ok g \<Longrightarrow> heightfield g \<noteq> None"
  shows "collectSources L canceled targetLOD keys (flag, sources) = Some (flag', sources') \<Longrightarrow>
         \<forall>g\<in>set sources. heightfield g \<noteq> None \<Longrightarrow>
         \<forall>g\<in>set sources'. heightfield g \<noteq> None"
proof (induction keys arbitrary: flag sources)
  case Nil
  then show ?case by simp
next
  case (Cons k keys)
  from Cons.prems(1) obtain subKey subTile where
    w: "assembleWalk L canceled k (Failed ResourceUnavailable) = Some (subKey, subTile)"
    by (cases "assembleWalk L canceled k (Failed ResourceUnavailable)") auto
  show ?case
  proof (cases "status_ok subTile")
    case False
    with Cons.prems w have "collectSources L canceled targetLOD keys (flag, sources) = Some (flag', sources')"
      by simp
    from Cons.IH [OF this Cons.prems(2)] show ?thesis .
  next
    case True
    from assembleWalk_tile [OF w _ True] obtain k' where
      t: "subTile = createHeightfieldImplementation L k'"
      by (auto simp: status_ok_def)
    from True obtain g where g: "subTile = Ok g"
      by (cases subTile) (simp_all add: status_ok_def)
    from g t have "createHeightfieldImplementation L k' = Ok g" by simp
    then have "heightfield g \<noteq> None" by (rule rasters)
    with g have "heightfield (result_value subTile) \<noteq> None"
      by (simp add: result_value_def)
    with Cons.prems(2) have all: "\<forall>g\<in>set (sources @ [result_value subTile]). heightfield g \<noteq> None"
      by simp
    from Cons.prems(1) w True
    have "collectSources L canceled targetLOD keys
            (flag \<or> levelOfDetail subKey = targetLOD, sources @ [result_value subTile]) =
          Some (flag', sources')"
      by simp
    from Cons.IH [OF this all] show ?thesis .
  qed
qed

lemma assembleHeightfield_returns:
  assumes "\<And>k g. createHeightfieldImplementation L k = Ok g \<Longrightarrow> heightfield g \<noteq> None"
  shows "\<exists>mosaic. assembleHeightfield E L key canceled = Returns mosaic"
proof (cases "collectSources L canceled (levelOfDetail key)
                (getIntersectingKeys E key (layerProfile L)) (False, [])")
  case None
  then show ?thesis by (simp add: assembleHeightfield_def Let_def)
next
  case (Some collected)
  obtain flag sources where c: "collected = (flag, sources)" by (cases collected)
  from collectSources_rasters [OF assms Some [unfolded c]]
  have "\<forall>g\<in>set sources. heightfield g \<noteq> None" by simp
  then obtain mosaic where "buildMosaic E key sources = Returns mosaic"
    using buildMosaic_returns [of E key sources] by blast
  with Some c show ?thesis by (simp add: assembleHeightfield_def Let_def)
qed

lemma createHeightfield_returns:
  assumes "\<And>k g. createHeightfieldImplementation L k = Ok g \<Longrightarrow> heightfield g \<noteq> None"
  shows "\<exists>fetched. createHeightfield E L key canceled = Returns fetched"
proof -
  have "\<exists>mosaic. assembleHeightfield E L key canceled = Returns mosaic"
    using assms by (rule assembleHeightfield_returns)
  then obtain mosaic where "assembleHeightfield E L key canceled = Returns mosaic" by blast
  then have "\<exists>acquired. acquire E L key canceled = Returns acquired"
    by (simp add: acquire_def)
  then obtain acquired where "acquire E L key canceled = Returns acquired" by blast
  then show ?thesis
    by (cases acquired) (simp_all add: createHeightfield_def createHeightfieldInKeyProfile_def Let_def)
qed

lemma contenderWalk_returns:
  assumes "\<And>k. \<exists>fetched. createHeightfield E L k canceled = Returns fetched"
  shows "\<exists>found. contenderWalk E L canceled h k = Returns found"
  using assms
proof (induction E L canceled h k rule: contenderWalk.induct)
  case (1 E L canceled h k)
  show ?case
  proof (cases "\<not> gh_valid h \<and> key_valid k \<and> isKeyInLegalRange L k")
    case False
    then have "contenderWalk E L canceled h k = Returns (h, k)"
      by (auto simp: contenderWalk_valid_start contenderWalk_stop)
    then show ?thesis by simp
  next
    case True
    from "1.prems" obtain fetched where f: "createHeightfield E L k canceled = Returns fetched"
      by blast
    from "1.IH" [OF True f refl refl "1.prems"] True f show ?thesis
      by (simp add: contenderWalk_step)
  qed
qed

lemma contenderBody_returns:
  assumes "\<And>k. \<exists>fetched. createHeightfield E (ld_layer ld) k canceled = Returns fetched"
  shows "\<exists>st'. contenderBody E sample canceled c r ld i st res = Returns st'"
proof -
  from contenderWalk_returns [of E "ld_layer ld" canceled, OF assms]
  have "\<exists>found. contenderWalk E (ld_layer ld) canceled (heightfields st ! i)
          (heightfieldActualKeys st ! i) = Returns found" .
  then have "\<exists>st1. fetchContender E canceled ld i st = Returns st1"
    by (auto simp: fetchContender_def Let_def)
  then show ?thesis
    by (auto simp: contenderBody_def split: prod.splits)
qed

lemma contenderLoop_returns:
  assumes "\<And>ld k. ld \<in> set lds \<Longrightarrow>
             \<exists>fetched. createHeightfield E (ld_layer ld) k canceled = Returns fetched"
  shows "\<exists>st'. contenderLoop E sample canceled c r lds i st res = Returns st'"
  using assms
proof (induction lds arbitrary: i st res)
  case Nil
  then show ?case by simp
next
  case (Cons ld lds)
  have "\<exists>st1. contenderBody E sample canceled c r ld i st res = Returns st1"
    using Cons.prems by (intro contenderBody_returns) simp
  then obtain st1 res1 where b: "contenderBody E sample canceled c r ld i st res = Returns (st1, res1)"
    by auto
  have "\<exists>st'. contenderLoop E sample canceled c r lds (Suc i) st1 res1 = Returns st'"
    using Cons.prems by (intro Cons.IH) simp
  with b show ?case by simp
qed

lemma offsetBody_returns:
  assumes "\<And>k. \<exists>fetched. createHeightfield E (ld_layer (offsets ! i)) k canceled = Returns fetched"
  shows "\<exists>st'. offsetBody E sample canceled c r offsets i st res = Returns st'"
proof -
  from assms obtain fetched where
    "createHeightfield E (ld_layer (offsets ! i)) (ld_key (offsets ! i)) canceled = Returns fetched"
    by blast
  then show ?thesis
    by (simp add: offsetBody_def Let_def)
qed

lemma offsetLoop_returns:
  assumes "\<And>ld k. ld \<in> set offsets \<Longrightarrow>
             \<exists>fetched. createHeightfield E (ld_layer ld) k canceled = Returns fetched"
      and "n \<le> length offsets"
  shows "\<exists>st'. offsetLoop E sample canceled c r offsets n st res = Returns st'"
  using assms(2)
proof (induction n arbitrary: st)
  case 0
  then show ?case by auto
next
  case (Suc n)
  then have "offsets ! n \<in> set offsets" by simp
  then have "\<exists>st1. offsetBody E sample canceled c r offsets n st res = Returns st1"
    by (intro offsetBody_returns assms(1))
  then obtain st1 where b: "offsetBody E sample canceled c r offsets n st res = Returns st1"
    by blast
  from Suc have "\<exists>st'. offsetLoop E sample canceled c r offsets n st1 res = Returns st'"
    by simp
  with b show ?case by auto
qed

lemma sampleCell_returns:
  assumes "\<And>ld k. ld \<in> set (contenders @ offsets) \<Longrightarrow>
             \<exists>fetched. createHeightfield E (ld_layer ld) k canceled = Returns fetched"
  shows "\<exists>st'. sampleCell E sample canceled contenders offsets c r st = Returns st'"
proof -
  have "\<exists>st1. contenderLoop E sample canceled c r contenders 0 st (- 1) = Returns st1"
    using assms by (intro contenderLoop_returns) simp
  then obtain st1 res where cl: "contenderLoop E sample canceled c r contenders 0 st (- 1) = Returns (st1, res)"
    by auto
  have "\<exists>st'. offsetLoop E sample canceled c r offsets (length offsets) st1 res = Returns st'"
    using assms by (intro offsetLoop_returns) simp_all
  with cl show ?thesis by (simp add: sampleCell_def)
qed

lemma rowLoop_returns:
  assumes "\<And>ld k. ld \<in> set (contenders @ offsets) \<Longrightarrow>
             \<exists>fetched. createHeightfield E (ld_layer ld) k canceled = Returns fetched"
  shows "\<exists>st'. rowLoop E sample canceled contenders offsets c rs st = Returns st'"
proof (induction rs arbitrary: st)
  case Nil
  then show ?case by auto
next
  case (Cons r rs)
  from sampleCell_returns [of contenders offsets E canceled sample c r st, OF assms]
  obtain st1 ab where "sampleCell E sample canceled contenders offsets c r st = Returns (st1, ab)"
    by auto
  with Cons [of st1] show ?case by auto
qed

lemma columnLoop_returns:
  assumes "\<And>ld k. ld \<in> set (contenders @ offsets) \<Longrightarrow>
             \<exists>fetched. createHeightfield E (ld_layer ld) k canceled = Returns fetched"
  shows "\<exists>st'. columnLoop E sample canceled contenders offsets numRows cs st = Returns st'"
proof (induction cs arbitrary: st)
  case Nil
  then show ?case by auto
next
  case (Cons c cs)
  from rowLoop_returns [of contenders offsets E canceled sample c "[0..<numRows]" st, OF assms]
  obtain st1 ab where "rowLoop E sample canceled contenders offsets c [0..<numRows] st = Returns (st1, ab)"
    by auto
  with Cons [of st1] show ?case by auto
qed

lemma sampleLayers_returns:
  assumes "\<And>ld k. ld \<in> set (contenders @ offsets) \<Longrightarrow>
             \<exists>fetched. createHeightfield E (ld_layer ld) k canceled = Returns fetched"
  shows "\<exists>st'. sampleLayers E sample canceled contenders offsets hf = Returns st'"
proof -
  have resampled: "\<exists>st'. resample E sample canceled contenders offsets hf' rd = Returns st'" for hf' rd
    unfolding resample_def using assms by (rule columnLoop_returns)
  have "\<exists>fast. fastPath E canceled contenders offsets hf = Returns fast"
  proof (cases "length contenders = 1 \<and> offsets = []")
    case False
    then show ?thesis by (auto simp: fastPath_def)
  next
    case True
    then have "contenders ! 0 \<in> set (contenders @ offsets)" by simp
    from assms [OF this, of "ld_key (contenders ! 0)"] True show ?thesis
      by (auto simp: fastPath_def split: option.splits)
  qed
  then obtain requiresResample hf1 rd1 where
    "fastPath E canceled contenders offsets hf = Returns (requiresResample, hf1, rd1)"
    by auto
  with resampled [of hf1 rd1] show ?thesis
    by (auto simp: sampleLayers_def)
qed

lemma collected_layers:
  assumes "stackOrdered layers 0 lds" "ld \<in> set lds"
  shows "ld_layer ld \<in> set layers"
  using assms by (auto simp: stackOrdered_def list_all_iff)

text \<open>
  When every ok tile that the drivers of the stack deliver carries a raster,
  \<^verbatim>\<open>populateHeightfield\<close> returns.
\<close>

lemma populateHeightfield_returns:
  assumes "\<And>L k g. L \<in> set layers \<Longrightarrow> createHeightfieldImplementation L k = Ok g \<Longrightarrow>
                    heightfield g \<noteq> None"
  shows "\<exists>result. populateHeightfield E layers hfPtr key haeProfile interpolation canceled =
                    Returns result"
proof (cases hfPtr)
  case None
  then show ?thesis by (simp add: populateHeightfield_def)
next
  case (Some hf)
  obtain contenders offsets n where u: "usableLayers E layers hf key haeProfile = (contenders, offsets, n)"
    by (cases "usableLayers E layers hf key haeProfile")
  note ordered = usableLayers_ordered [OF u]
  have fetches: "\<exists>fetched. createHeightfield E (ld_layer ld) k canceled = Returns fetched"
    if "ld \<in> set (contenders @ offsets)" for ld k
  proof -
    from that ordered have "ld_layer ld \<in> set layers"
      by (auto intro: collected_layers)
    then show ?thesis
      by (intro createHeightfield_returns assms)
  qed
  let ?sample = "heightAt E key (keyToUseFor key haeProfile) (width hf, height hf) interpolation"
  from sampleLayers_returns [of contenders offsets E canceled ?sample hf, OF fetches]
  obtain st aborted where "sampleLayers E ?sample canceled contenders offsets hf = Returns (st, aborted)"
    by auto
  with Some u show ?thesis
    by (simp add: populateHeightfield_def Let_def)
qed
end
